(* ===== verification/Go_Prelude.thy ===== *)
theory Go_Prelude
  imports Main "HOL-Library.Multiset"
begin

text \<open>
  The part of the Go language every component relies on: 64-bit integers, panics and
  effects, and the contract of \<^verbatim>\<open>sort.Slice\<close>.

  \<^item> An effectful Go function is a value of type \<open>('e, 'a) io\<close>: it is given the history
    of the interactions with the outside world so far (a list of events, oldest first) and
    returns its result with the extended history. Errors are ordinary values, as in Go; a
    panic unwinds everything and is the separate outcome \<open>Panic\<close>.
  \<^item> What the outside world answers is a function of the history, given as a parameter to
    every definition that asks. A statement for every such function is a statement for every
    behaviour of the outside world.
  \<^item> The locale \<open>strict_weak\<close> is what \<^verbatim>\<open>sort.Slice\<close> asks of its comparison, and
    \<open>best_choice\<close> what the \<^verbatim>\<open>best := xs[0]; for ...\<close> loops ask of theirs.
\<close>

named_theorems io_simps "running the io combinators"
named_theorems emits_rules "which events an operation can add to the history"
named_theorems returns_rules "operations that do not panic"

section \<open>Integers of 64 bits\<close>

abbreviation int64_max :: int where
  "int64_max \<equiv> 9223372036854775807"

abbreviation int64_min :: int where
  "int64_min \<equiv> - 9223372036854775808"

abbreviation in_int64 :: "int \<Rightarrow> bool" where
  "in_int64 n \<equiv> int64_min \<le> n \<and> n \<le> int64_max"

definition wrap64 :: "int \<Rightarrow> int" where
  "wrap64 n = (n + 9223372036854775808) mod 18446744073709551616 - 9223372036854775808"

lemma wrap64_id [simp]: "in_int64 n \<Longrightarrow> wrap64 n = n"
  by (simp add: wrap64_def)

lemma wrap64_in_int64 [simp]: "int64_min \<le> wrap64 n" "wrap64 n \<le> int64_max"
proof -
  have "(n + 9223372036854775808) mod 18446744073709551616 < (18446744073709551616 :: int)"
    by simp
  then show "int64_min \<le> wrap64 n" "wrap64 n \<le> int64_max"
    by (simp_all add: wrap64_def)
qed

section \<open>Errors\<close>

text \<open>The idiom \<^verbatim>\<open>x, err := f(); if err != nil { return err }\<close>.\<close>

definition bind_err :: "'e + 'a \<Rightarrow> ('a \<Rightarrow> 'e + 'b) \<Rightarrow> 'e + 'b" where
  "bind_err r f = (case r of Inl e \<Rightarrow> Inl e | Inr x \<Rightarrow> f x)"

lemma bind_err_simps [simp]: "bind_err (Inl e) f = Inl e" "bind_err (Inr x) f = f x"
  by (simp_all add: bind_err_def)

lemma bind_err_eq_Inr: "bind_err r f = Inr y \<longleftrightarrow> (\<exists>x. r = Inr x \<and> f x = Inr y)"
  by (cases r) simp_all

section \<open>Effects and panics\<close>

datatype 'a out = Done 'a | Panic

type_synonym ('e, 'a) io = "'e list \<Rightarrow> 'a out \<times> 'e list"

definition ret :: "'a \<Rightarrow> ('e, 'a) io" where
  "ret x h = (Done x, h)"

definition panic :: "('e, 'a) io" where
  "panic h = (Panic, h)"

definition bind_io :: "('e, 'a) io \<Rightarrow> ('a \<Rightarrow> ('e, 'b) io) \<Rightarrow> ('e, 'b) io" where
  "bind_io m f h = (case m h of (Done x, h') \<Rightarrow> f x h' | (Panic, h') \<Rightarrow> (Panic, h'))"

text \<open>An interaction: the answer depends on the history, and the event is recorded.\<close>

definition interact :: "('e list \<Rightarrow> 'a) \<Rightarrow> ('a \<Rightarrow> 'e) \<Rightarrow> ('e, 'a) io" where
  "interact answer ev h = (Done (answer h), h @ [ev (answer h)])"

text \<open>A Go \<^verbatim>\<open>for _, x := range xs\<close> loop with a body run for its effect.\<close>

fun for_each :: "'a list \<Rightarrow> ('a \<Rightarrow> ('e, unit) io) \<Rightarrow> ('e, unit) io" where
  "for_each [] f = ret ()"
| "for_each (x # xs) f = bind_io (f x) (\<lambda>_. for_each xs f)"

text \<open>A loop that collects one result for each element.\<close>

fun map_io :: "('a \<Rightarrow> ('e, 'b) io) \<Rightarrow> 'a list \<Rightarrow> ('e, 'b list) io" where
  "map_io f [] = ret []"
| "map_io f (x # xs) = bind_io (f x) (\<lambda>y. bind_io (map_io f xs) (\<lambda>ys. ret (y # ys)))"

lemma ret_apply [io_simps]: "ret x h = (Done x, h)"
  by (simp add: ret_def)

lemma panic_apply [io_simps]: "panic h = (Panic, h)"
  by (simp add: panic_def)

lemma interact_apply [io_simps]: "interact answer ev h = (Done (answer h), h @ [ev (answer h)])"
  by (simp add: interact_def)

lemma bind_apply [io_simps]:
  "bind_io m f h = (case m h of (Done x, h') \<Rightarrow> f x h' | (Panic, h') \<Rightarrow> (Panic, h'))"
  by (simp add: bind_io_def)

lemma bind_ret [simp]: "bind_io (ret x) f = f x"
  by (rule ext) (simp add: io_simps)

lemma bind_panic [simp]: "bind_io panic f = panic"
  by (rule ext) (simp add: io_simps)

lemma bind_io_cong [fundef_cong]:
  "m = m' \<Longrightarrow> (\<And>x. f x = f' x) \<Longrightarrow> bind_io m f = bind_io m' f'"
  by (metis ext)

subsection \<open>What an operation adds to the history\<close>

text \<open>
  \<open>emits P m\<close>: whatever the history and whatever the outcome, \<open>m\<close> only appends to the
  history, and every event it appends satisfies \<open>P\<close>.
\<close>

definition emits :: "('e \<Rightarrow> bool) \<Rightarrow> ('e, 'a) io \<Rightarrow> bool" where
  "emits P m \<longleftrightarrow> (\<forall>h. \<exists>es. snd (m h) = h @ es \<and> list_all P es)"

lemma emitsD:
  assumes "emits P m" "m h = (r, h')"
  obtains es where "h' = h @ es" "list_all P es"
  using assms unfolding emits_def by (metis snd_conv)

lemma emits_mono: "emits P m \<Longrightarrow> (\<And>e. P e \<Longrightarrow> Q e) \<Longrightarrow> emits Q m"
  unfolding emits_def by (metis list.pred_mono_strong)

lemma emits_ret [emits_rules]: "emits P (ret x)"
  by (simp add: emits_def io_simps)

lemma emits_panic [emits_rules]: "emits P panic"
  by (simp add: emits_def io_simps)

lemma emits_interact [emits_rules]: "(\<And>x. P (ev x)) \<Longrightarrow> emits P (interact answer ev)"
  by (simp add: emits_def io_simps)

lemma emits_bind [emits_rules]:
  assumes m: "emits P m" and f: "\<And>x. emits P (f x)"
  shows "emits P (bind_io m f)"
  unfolding emits_def
proof
  fix h
  obtain r h1 where r: "m h = (r, h1)" by fastforce
  then obtain es where es: "h1 = h @ es" "list_all P es" using m by (blast elim: emitsD)
  show "\<exists>es. snd (bind_io m f h) = h @ es \<and> list_all P es"
  proof (cases r)
    case (Done x)
    obtain es' where "snd (f x h1) = h1 @ es'" "list_all P es'"
      using f[of x] unfolding emits_def by blast
    with Done r es show ?thesis by (intro exI[of _ "es @ es'"]) (simp add: io_simps)
  next
    case Panic
    with r es show ?thesis by (intro exI[of _ es]) (simp add: io_simps)
  qed
qed

lemma emits_for_each [emits_rules]:
  "(\<And>x. x \<in> set xs \<Longrightarrow> emits P (f x)) \<Longrightarrow> emits P (for_each xs f)"
  by (induction xs) (auto intro: emits_rules)

lemma emits_map_io [emits_rules]:
  "(\<And>x. x \<in> set xs \<Longrightarrow> emits P (f x)) \<Longrightarrow> emits P (map_io f xs)"
  by (induction xs) (auto intro: emits_rules)

text \<open>The same from one given history, so that a rule can use what earlier steps returned.\<close>

definition emits_at :: "('e \<Rightarrow> bool) \<Rightarrow> ('e, 'a) io \<Rightarrow> 'e list \<Rightarrow> bool" where
  "emits_at P m h \<longleftrightarrow> (\<exists>es. snd (m h) = h @ es \<and> list_all P es)"

lemma emits_at_all: "emits P m \<longleftrightarrow> (\<forall>h. emits_at P m h)"
  by (simp add: emits_def emits_at_def)

lemma emits_atI: "emits P m \<Longrightarrow> emits_at P m h"
  by (simp add: emits_at_all)

lemma emits_at_bind:
  assumes m: "emits_at P m h" and f: "\<And>x h1. m h = (Done x, h1) \<Longrightarrow> emits_at P (f x) h1"
  shows "emits_at P (bind_io m f) h"
proof -
  obtain r h1 where r: "m h = (r, h1)" by fastforce
  with m obtain es where es: "h1 = h @ es" "list_all P es" by (auto simp: emits_at_def)
  show ?thesis
  proof (cases r)
    case (Done x)
    with f r obtain es' where "snd (f x h1) = h1 @ es'" "list_all P es'"
      unfolding emits_at_def by blast
    with Done r es show ?thesis
      unfolding emits_at_def by (intro exI[of _ "es @ es'"]) (simp add: io_simps)
  next
    case Panic
    with r es show ?thesis
      unfolding emits_at_def by (intro exI[of _ es]) (simp add: io_simps)
  qed
qed

lemma emits_atD: "emits_at P m h \<Longrightarrow> m h = (r, h @ es) \<Longrightarrow> e \<in> set es \<Longrightarrow> P e"
  by (auto simp: emits_at_def list_all_iff)

text \<open>
  The same with the place of the event: \<open>P\<close> holds of each event that \<open>m\<close> appends and the history
  before it.
\<close>

definition located :: "('e list \<Rightarrow> 'e \<Rightarrow> bool) \<Rightarrow> ('e, 'a) io \<Rightarrow> 'e list \<Rightarrow> bool" where
  "located P m h \<longleftrightarrow> (\<exists>es. snd (m h) = h @ es \<and> (\<forall>pre e post. es = pre @ e # post \<longrightarrow> P (h @ pre) e))"

lemma locatedD: "located P m h \<Longrightarrow> m h = (r, h @ pre @ e # post) \<Longrightarrow> P (h @ pre) e"
  by (auto simp: located_def)

lemma emits_at_located: "emits_at Q m h \<Longrightarrow> (\<And>hb e. Q e \<Longrightarrow> P hb e) \<Longrightarrow> located P m h"
  by (auto simp: emits_at_def located_def)

lemma located_bind:
  assumes m: "located P m h" and f: "\<And>x h1. m h = (Done x, h1) \<Longrightarrow> located P (f x) h1"
  shows "located P (bind_io m f) h"
proof -
  obtain r h1 where r: "m h = (r, h1)" by fastforce
  with m obtain es where es: "h1 = h @ es" "\<And>pre e post. es = pre @ e # post \<Longrightarrow> P (h @ pre) e"
    by (auto simp: located_def)
  show ?thesis
  proof (cases r)
    case (Done x)
    with f r obtain es' where es': "snd (f x h1) = h1 @ es'" "\<And>pre e post. es' = pre @ e # post \<Longrightarrow> P (h1 @ pre) e"
      unfolding located_def by blast
    have "P (h @ pre) e" if "es @ es' = pre @ e # post" for pre e post
      using that es(2)[of pre e] es'(2)[of "[]" e post] es'(2)[of _ e post] es(1)
      by (auto simp: append_eq_append_conv2 append_eq_Cons_conv)
    with Done r es(1) es'(1) show ?thesis
      unfolding located_def by (intro exI[of _ "es @ es'"]) (simp add: io_simps)
  next
    case Panic
    with r es show ?thesis
      unfolding located_def by (intro exI[of _ es]) (simp add: io_simps)
  qed
qed

text \<open>\<open>budget Q n m\<close>: \<open>m\<close> adds at most \<open>n\<close> events that satisfy \<open>Q\<close>.\<close>

definition budget :: "('e \<Rightarrow> bool) \<Rightarrow> nat \<Rightarrow> ('e, 'a) io \<Rightarrow> bool" where
  "budget Q n m \<longleftrightarrow> (\<forall>h. \<exists>es. snd (m h) = h @ es \<and> length (filter Q es) \<le> n)"

lemma budget_0: "emits (\<lambda>e. \<not> Q e) m \<Longrightarrow> budget Q 0 m"
  unfolding emits_def budget_def by (auto simp: filter_empty_conv list_all_iff)

lemma budget_mono: "budget Q k m \<Longrightarrow> k \<le> n \<Longrightarrow> budget Q n m"
  unfolding budget_def by (meson order_trans)

lemma budget_bind:
  assumes m: "budget Q k m" and f: "\<And>x. budget Q n (f x)"
  shows "budget Q (k + n) (bind_io m f)"
  unfolding budget_def
proof
  fix h
  obtain es where es: "snd (m h) = h @ es" "length (filter Q es) \<le> k"
    using m unfolding budget_def by blast
  show "\<exists>es. snd (bind_io m f h) = h @ es \<and> length (filter Q es) \<le> k + n"
  proof (cases "m h")
    case (Pair r h1)
    show ?thesis
    proof (cases r)
      case (Done x)
      obtain es' where "snd (f x h1) = h1 @ es'" "length (filter Q es') \<le> n"
        using f unfolding budget_def by blast
      with Done Pair es show ?thesis by (intro exI[of _ "es @ es'"]) (simp add: io_simps)
    next
      case Panic
      with Pair es show ?thesis by (intro exI[of _ es]) (simp add: io_simps)
    qed
  qed
qed

subsection \<open>Weakest preconditions\<close>

text \<open>
  \<open>wp m Q h\<close>: if \<open>m\<close>, started in the history \<open>h\<close>, returns, its result and the new
  history satisfy \<open>Q\<close>. Nothing is said of a panic, which ends the process.
\<close>

definition wp :: "('e, 'a) io \<Rightarrow> ('a \<Rightarrow> 'e list \<Rightarrow> bool) \<Rightarrow> 'e list \<Rightarrow> bool" where
  "wp m Q h \<longleftrightarrow> (case m h of (Done x, h') \<Rightarrow> Q x h' | (Panic, _) \<Rightarrow> True)"

lemma wp_ret [simp]: "wp (ret x) Q h = Q x h"
  by (simp add: wp_def io_simps)

lemma wp_panic [simp]: "wp panic Q h"
  by (simp add: wp_def io_simps)

lemma wp_interact [simp]: "wp (interact answer ev) Q h = Q (answer h) (h @ [ev (answer h)])"
  by (simp add: wp_def io_simps)

lemma wp_bind [simp]: "wp (bind_io m f) Q h = wp m (\<lambda>x h'. wp (f x) Q h') h"
  by (auto simp: wp_def io_simps split: prod.splits out.splits)

lemma wp_mono: "wp m Q h \<Longrightarrow> (\<And>x h'. Q x h' \<Longrightarrow> R x h') \<Longrightarrow> wp m R h"
  by (auto simp: wp_def split: prod.splits out.splits)

lemma wp_conj: "wp m Q h \<Longrightarrow> wp m R h \<Longrightarrow> wp m (\<lambda>x h'. Q x h' \<and> R x h') h"
  by (auto simp: wp_def split: prod.splits out.splits)

lemma wp_all: "(\<And>x h'. Q x h') \<Longrightarrow> wp m Q h"
  by (auto simp: wp_def split: prod.splits out.splits)

lemma wp_bind_any: "(\<And>x h'. wp (f x) Q h') \<Longrightarrow> wp (bind_io m f) Q h"
  by (simp add: wp_all)

lemma wp_bind_trace:
  assumes "emits P m" "\<And>x es. m h = (Done x, h @ es) \<Longrightarrow> list_all P es \<Longrightarrow> wp (f x) Q (h @ es)"
  shows "wp (bind_io m f) Q h"
proof (cases "m h")
  case (Pair r h1)
  then obtain es where "h1 = h @ es" "list_all P es" using assms(1) by (blast elim: emitsD)
  with Pair assms(2) show ?thesis by (cases r) (auto simp: wp_def io_simps)
qed

lemma wp_self: "wp m (\<lambda>x h'. m h = (Done x, h')) h"
  by (auto simp: wp_def split: prod.splits out.splits)

lemma wpD: "wp m Q h \<Longrightarrow> m h = (Done x, h') \<Longrightarrow> Q x h'"
  by (simp add: wp_def)

lemma emits_bind_wp:
  assumes "emits P m" "\<And>h. wp m (\<lambda>x _. Q x) h" "\<And>x. Q x \<Longrightarrow> emits P (f x)"
  shows "emits P (bind_io m f)"
  unfolding emits_at_all
  using assms by (intro allI emits_at_bind) (auto intro: emits_atI dest: wpD)

lemma emits_wp: "emits P m \<Longrightarrow> wp m (\<lambda>_ h'. \<exists>es. h' = h @ es \<and> list_all P es) h"
  by (auto simp: wp_def split: prod.splits out.splits elim: emitsD)

lemma wp_for_each:
  assumes "I [] h"
    and "\<And>done x rest h. xs = done @ x # rest \<Longrightarrow> I done h \<Longrightarrow> wp (f x) (\<lambda>_. I (done @ [x])) h"
  shows "wp (for_each xs f) (\<lambda>_. I xs) h"
proof -
  have "xs = pre @ suf \<Longrightarrow> I pre h' \<Longrightarrow> wp (for_each suf f) (\<lambda>_. I xs) h'" for pre suf h'
  proof (induction suf arbitrary: pre h')
    case Nil
    then show ?case by simp
  next
    case (Cons x suf)
    have "wp (f x) (\<lambda>_. I (pre @ [x])) h'"
      using assms(2) Cons.prems by blast
    then have "wp (f x) (\<lambda>_ h'. wp (for_each suf f) (\<lambda>_. I xs) h') h'"
      by (rule wp_mono) (use Cons.IH[of "pre @ [x]"] Cons.prems(1) in simp)
    then show ?case by simp
  qed
  from this[of "[]" xs h] assms(1) show ?thesis by simp
qed

subsection \<open>Operations that do not panic\<close>

text \<open>\<open>returns m Q\<close>: from every history, \<open>m\<close> does not panic and its result satisfies \<open>Q\<close>.\<close>

definition returns :: "('e, 'a) io \<Rightarrow> ('a \<Rightarrow> bool) \<Rightarrow> bool" where
  "returns m Q \<longleftrightarrow> (\<forall>h. \<exists>x h'. m h = (Done x, h') \<and> Q x)"

lemma returns_ret [returns_rules]: "Q x \<Longrightarrow> returns (ret x) Q"
  by (simp add: returns_def io_simps)

lemma returns_interact [returns_rules]: "(\<And>x. Q x) \<Longrightarrow> returns (interact f ev) Q"
  by (simp add: returns_def io_simps)

lemma returns_bind [returns_rules]:
  "returns m P \<Longrightarrow> (\<And>x. P x \<Longrightarrow> returns (f x) Q) \<Longrightarrow> returns (bind_io m f) Q"
  unfolding returns_def by (auto simp: io_simps) (metis (no_types, lifting) case_prod_conv out.case(1))

lemma returns_mono: "returns m P \<Longrightarrow> (\<And>x. P x \<Longrightarrow> Q x) \<Longrightarrow> returns m Q"
  unfolding returns_def by metis

lemma returns_wp: "returns m Q \<Longrightarrow> wp m (\<lambda>x _. Q x) h"
  unfolding returns_def wp_def by (metis (mono_tags, lifting) case_prod_conv out.case(1))

lemma returns_for_each [returns_rules]:
  "(\<And>x. x \<in> set xs \<Longrightarrow> returns (f x) (\<lambda>_. True)) \<Longrightarrow> returns (for_each xs f) (\<lambda>_. True)"
  by (induction xs) (auto intro: returns_rules)

lemma returns_map_io:
  "(\<And>x. x \<in> set xs \<Longrightarrow> returns (f x) (\<lambda>_. True)) \<Longrightarrow> returns (map_io f xs) (\<lambda>_. True)"
  by (induction xs) (auto intro: returns_rules)

section \<open>The contract of sort.Slice\<close>

text \<open>
  \<^verbatim>\<open>sort.Slice(xs, less)\<close> leaves some permutation of \<open>xs\<close> in which no element is less
  than an earlier one, provided \<open>lt\<close> is a strict weak ordering. \<open>go_sort\<close> is one such
  permutation. Where \<open>lt\<close> separates any two different elements of the list, it is the only
  one (\<open>sort_unique\<close> below), so the choice of algorithm does not matter. The laws are asked
  of the elements that satisfy \<open>ok\<close> only.
\<close>

fun go_insert :: "('a \<Rightarrow> 'a \<Rightarrow> bool) \<Rightarrow> 'a \<Rightarrow> 'a list \<Rightarrow> 'a list" where
  "go_insert lt x [] = [x]"
| "go_insert lt x (y # ys) = (if lt y x then y # go_insert lt x ys else x # y # ys)"

fun go_sort :: "('a \<Rightarrow> 'a \<Rightarrow> bool) \<Rightarrow> 'a list \<Rightarrow> 'a list" where
  "go_sort lt [] = []"
| "go_sort lt (x # xs) = go_insert lt x (go_sort lt xs)"

abbreviation sorted_by :: "('a \<Rightarrow> 'a \<Rightarrow> bool) \<Rightarrow> 'a list \<Rightarrow> bool" where
  "sorted_by lt \<equiv> sorted_wrt (\<lambda>x y. \<not> lt y x)"

lemma mset_go_insert [simp]: "mset (go_insert lt x xs) = add_mset x (mset xs)"
  by (induction xs) auto

lemma mset_go_sort [simp]: "mset (go_sort lt xs) = mset xs"
  by (induction xs) auto

lemma set_go_sort [simp]: "set (go_sort lt xs) = set xs"
  by (metis mset_go_sort set_mset_mset)

lemma distinct_go_sort [simp]: "distinct (go_sort lt xs) = distinct xs"
  by (metis mset_go_sort mset_eq_imp_distinct_iff)

lemma length_go_sort [simp]: "length (go_sort lt xs) = length xs"
  by (metis mset_go_sort size_mset)

locale strict_weak =
  fixes lt :: "'a \<Rightarrow> 'a \<Rightarrow> bool"
    and ok :: "'a \<Rightarrow> bool"
  assumes irrefl: "ok x \<Longrightarrow> \<not> lt x x"
    and trans: "ok x \<Longrightarrow> ok y \<Longrightarrow> ok z \<Longrightarrow> lt x y \<Longrightarrow> lt y z \<Longrightarrow> lt x z"
    and not_lt_trans: "ok x \<Longrightarrow> ok y \<Longrightarrow> ok z \<Longrightarrow> \<not> lt y x \<Longrightarrow> \<not> lt z y \<Longrightarrow> \<not> lt z x"
begin

lemma asym: "ok x \<Longrightarrow> ok y \<Longrightarrow> lt x y \<Longrightarrow> \<not> lt y x"
  using irrefl trans by blast

lemma sorted_insert:
  "list_all ok (x # xs) \<Longrightarrow> sorted_by lt xs \<Longrightarrow> sorted_by lt (go_insert lt x xs)"
proof (induction xs)
  case Nil
  then show ?case by simp
next
  case (Cons y ys)
  have set: "set (go_insert lt x ys) = insert x (set ys)"
    by (metis mset_go_insert set_mset_add_mset_insert set_mset_mset)
  have ok: "ok x" "ok y" "\<And>z. z \<in> set ys \<Longrightarrow> ok z"
    using Cons.prems by (auto simp: list_all_iff)
  show ?case
  proof (cases "lt y x")
    case True
    then show ?thesis
      using Cons ok by (auto simp: set dest: asym)
  next
    case False
    then have "\<not> lt z x" if "z \<in> set ys" for z
      using that Cons.prems ok not_lt_trans[of x y z] by auto
    with False show ?thesis using Cons.prems by auto
  qed
qed

lemma sorted_sort: "list_all ok xs \<Longrightarrow> sorted_by lt (go_sort lt xs)"
proof (induction xs)
  case Nil
  then show ?case by simp
next
  case (Cons x xs)
  moreover have "list_all ok (go_sort lt xs)"
    using Cons.prems by (simp add: list_all_iff)
  ultimately show ?case by (auto intro!: sorted_insert)
qed

lemma sorted_unique:
  "list_all ok ys \<Longrightarrow> sorted_by lt ys \<Longrightarrow> sorted_by lt zs \<Longrightarrow> mset ys = mset zs \<Longrightarrow>
   (\<And>x y. x \<in> set ys \<Longrightarrow> y \<in> set ys \<Longrightarrow> \<not> lt x y \<Longrightarrow> \<not> lt y x \<Longrightarrow> x = y) \<Longrightarrow> ys = zs"
proof (induction ys arbitrary: zs)
  case Nil
  then show ?case by simp
next
  case (Cons y ys)
  then obtain z zs' where zs: "zs = z # zs'"
    by (cases zs) auto
  have sets: "set (y # ys) = set zs"
    using Cons.prems(4) by (metis set_mset_mset)
  have "z = y \<or> z \<in> set ys" "y = z \<or> y \<in> set zs'"
    using sets unfolding zs by auto
  then have "\<not> lt z y" "\<not> lt y z"
    using Cons.prems(1-3) irrefl unfolding zs by auto
  then have "y = z"
    using Cons.prems(5)[of y z] sets unfolding zs by auto
  moreover have "ys = zs'"
    using Cons.prems Cons.IH[of zs'] \<open>y = z\<close> unfolding zs by auto
  ultimately show ?case by (simp add: zs)
qed

lemma sort_unique:
  assumes "list_all ok xs" "mset ys = mset xs" "sorted_by lt ys"
    and "\<And>x y. x \<in> set xs \<Longrightarrow> y \<in> set xs \<Longrightarrow> \<not> lt x y \<Longrightarrow> \<not> lt y x \<Longrightarrow> x = y"
  shows "ys = go_sort lt xs"
proof (rule sorted_unique)
  have "set ys = set xs" using assms(2) by (metis set_mset_mset)
  then show "list_all ok ys" using assms(1) by (simp add: list_all_iff)
  show "sorted_by lt (go_sort lt xs)" using assms(1) by (rule sorted_sort)
  show "x = y" if "x \<in> set ys" "y \<in> set ys" "\<not> lt x y" "\<not> lt y x" for x y
    using that assms(4) \<open>set ys = set xs\<close> by simp
qed (use assms in simp_all)

end

section \<open>Choosing the best element of a list\<close>

text \<open>
  The loop \<^verbatim>\<open>best := xs[0]; for i := range xs { if better(xs[i], best) { best = xs[i] } }\<close>.
\<close>

definition pick_best :: "('a \<Rightarrow> 'a \<Rightarrow> bool) \<Rightarrow> 'a \<Rightarrow> 'a list \<Rightarrow> 'a" where
  "pick_best better x xs = foldl (\<lambda>best y. if better y best then y else best) x (x # xs)"

lemma foldl_best_in:
  "foldl (\<lambda>best y. if better y best then y else best) b ys \<in> insert b (set ys)"
  by (induction ys arbitrary: b) auto

lemma pick_best_in: "pick_best better x xs \<in> set (x # xs)"
  unfolding pick_best_def using foldl_best_in[of better x "x # xs"] by auto

locale best_choice = strict_weak better "\<lambda>_. True" for better :: "'a \<Rightarrow> 'a \<Rightarrow> bool"
begin

lemma foldl_best:
  "y \<in> insert b (set ys) \<Longrightarrow> \<not> better y (foldl (\<lambda>best y. if better y best then y else best) b ys)"
proof (induction ys arbitrary: b y)
  case Nil
  then show ?case by (simp add: irrefl)
next
  case (Cons a ys)
  let ?c = "if better a b then a else b"
  let ?r = "foldl (\<lambda>best y. if better y best then y else best) ?c ys"
  have c: "\<not> better ?c ?r" and ys: "\<And>z. z \<in> set ys \<Longrightarrow> \<not> better z ?r"
    using Cons.IH[of _ ?c] by auto
  have zc: "\<not> better z ?c" if "z = a \<or> z = b" for z
    using that irrefl [OF TrueI] asym [OF TrueI TrueI, of a b] by auto
  have "\<not> better z ?r" if "z = a \<or> z = b" for z
    by (rule not_lt_trans [OF TrueI TrueI TrueI c zc [OF that]])
  with ys Cons.prems show ?case by auto
qed

lemma none_better: "y \<in> set (x # xs) \<Longrightarrow> \<not> better y (pick_best better x xs)"
  unfolding pick_best_def by (rule foldl_best) auto

end

end
