(* ===== verification/Go_Strings.thy ===== *)
theory Go_Strings
  imports Go_Prelude "HOL-Library.Char_ord" "HOL-Library.List_Lexorder"
begin

text \<open>
  The functions of Go's \<^verbatim>\<open>strings\<close> and \<^verbatim>\<open>strconv\<close> packages that the repository
  calls. A Go string is a sequence of bytes, here a \<open>char list\<close>; \<open><\<close> on strings is Go's
  bytewise comparison, taken from the library's lexicographic order.
\<close>

section \<open>Searching and splitting\<close>

definition has_prefix :: "string \<Rightarrow> string \<Rightarrow> bool" where
  "has_prefix s p \<longleftrightarrow> take (length p) s = p"

definition has_suffix :: "string \<Rightarrow> string \<Rightarrow> bool" where
  "has_suffix s p \<longleftrightarrow> has_prefix (rev s) (rev p)"

text \<open>\<^verbatim>\<open>strings.Split(s, sep)\<close> for a separator of one byte.\<close>

fun split_on :: "char \<Rightarrow> string \<Rightarrow> string list" where
  "split_on c [] = [[]]"
| "split_on c (x # xs) =
     (if x = c then [] # split_on c xs
      else (case split_on c xs of [] \<Rightarrow> [[x]] | y # ys \<Rightarrow> (x # y) # ys))"

text \<open>\<^verbatim>\<open>strings.Cut(s, sep)\<close> for a separator of one byte; \<open>None\<close> when it is absent.\<close>

definition cut :: "char \<Rightarrow> string \<Rightarrow> (string \<times> string) option" where
  "cut c s = (if c \<in> set s then Some (takeWhile (\<lambda>x. x \<noteq> c) s, tl (dropWhile (\<lambda>x. x \<noteq> c) s))
              else None)"

text \<open>\<^verbatim>\<open>s[i+1:]\<close> for \<^verbatim>\<open>i = strings.LastIndex(s, c)\<close>, and \<open>None\<close> when \<^verbatim>\<open>i < 0\<close>.\<close>

definition after_last :: "char \<Rightarrow> string \<Rightarrow> string option" where
  "after_last c s = (if c \<in> set s then Some (rev (takeWhile (\<lambda>x. x \<noteq> c) (rev s))) else None)"

lemma split_on_nonempty [simp]: "split_on c s \<noteq> []"
  by (induction s) (auto split: list.splits)

lemma split_on_none: "c \<notin> set s \<Longrightarrow> split_on c s = [s]"
  by (induction s) auto

lemma split_on_append: "c \<notin> set s \<Longrightarrow> split_on c (s @ c # t) = s # split_on c t"
  by (induction s) auto

lemma split_on_no_sep: "p \<in> set (split_on c s) \<Longrightarrow> c \<notin> set p"
  by (induction s arbitrary: p) (auto split: if_splits list.splits)

lemma cut_append: "c \<notin> set k \<Longrightarrow> cut c (k @ c # v) = Some (k, v)"
proof -
  assume "c \<notin> set k"
  then have "takeWhile (\<lambda>x. x \<noteq> c) (k @ c # v) = k" "dropWhile (\<lambda>x. x \<noteq> c) (k @ c # v) = c # v"
    by (induction k) auto
  then show ?thesis by (simp add: cut_def)
qed

lemma after_last_append: "c \<notin> set t \<Longrightarrow> after_last c (s @ c # t) = Some t"
proof -
  assume "c \<notin> set t"
  then have "takeWhile (\<lambda>x. x \<noteq> c) (rev t @ c # rev s) = rev t"
    by (subst takeWhile_append2) auto
  then show ?thesis by (simp add: after_last_def)
qed

section \<open>strings.TrimSpace\<close>

text \<open>
  The white space of \<^verbatim>\<open>unicode.IsSpace\<close>, in UTF-8. No encoding is a prefix of another,
  so the order of the list does not matter.
\<close>

definition spaces :: "string list" where
  "spaces =
     [[CHR 0x09], [CHR 0x0A], [CHR 0x0B], [CHR 0x0C], [CHR 0x0D], [CHR 0x20],
      [CHR 0xC2, CHR 0x85], [CHR 0xC2, CHR 0xA0], [CHR 0xE1, CHR 0x9A, CHR 0x80],
      [CHR 0xE2, CHR 0x80, CHR 0x80], [CHR 0xE2, CHR 0x80, CHR 0x81],
      [CHR 0xE2, CHR 0x80, CHR 0x82], [CHR 0xE2, CHR 0x80, CHR 0x83],
      [CHR 0xE2, CHR 0x80, CHR 0x84], [CHR 0xE2, CHR 0x80, CHR 0x85],
      [CHR 0xE2, CHR 0x80, CHR 0x86], [CHR 0xE2, CHR 0x80, CHR 0x87],
      [CHR 0xE2, CHR 0x80, CHR 0x88], [CHR 0xE2, CHR 0x80, CHR 0x89],
      [CHR 0xE2, CHR 0x80, CHR 0x8A], [CHR 0xE2, CHR 0x80, CHR 0xA8],
      [CHR 0xE2, CHR 0x80, CHR 0xA9], [CHR 0xE2, CHR 0x80, CHR 0xAF],
      [CHR 0xE2, CHR 0x81, CHR 0x9F], [CHR 0xE3, CHR 0x80, CHR 0x80]]"

function strip :: "string list \<Rightarrow> string \<Rightarrow> string" where
  "strip ps s = (case find (\<lambda>p. p \<noteq> [] \<and> has_prefix s p) ps of
      None \<Rightarrow> s | Some p \<Rightarrow> strip ps (drop (length p) s))"
  by pat_completeness auto
termination
proof (relation "measure (\<lambda>(ps, s). length s)", simp, simp)
  fix ps s p
  assume "find (\<lambda>p. p \<noteq> [] \<and> has_prefix s p) ps = Some p"
  then have "p \<noteq> []" "has_prefix s p"
    by (auto simp: find_Some_iff)
  then have "s \<noteq> []" by (auto simp: has_prefix_def)
  with \<open>p \<noteq> []\<close> show "length s - length p < length s" by simp
qed

declare strip.simps [simp del]

definition trim_left :: "string \<Rightarrow> string" where
  "trim_left s = strip spaces s"

definition trim_right :: "string \<Rightarrow> string" where
  "trim_right s = rev (strip (map rev spaces) (rev s))"

definition trim_space :: "string \<Rightarrow> string" where
  "trim_space s = trim_right (trim_left s)"

lemma strip_id: "(\<And>p. p \<in> set ps \<Longrightarrow> p \<noteq> [] \<Longrightarrow> \<not> has_prefix s p) \<Longrightarrow> strip ps s = s"
  by (subst strip.simps) (auto simp: find_None_iff split: option.splits dest: find_Some_iff [THEN iffD1])

lemma strip_no_prefix: "p \<in> set ps \<Longrightarrow> p \<noteq> [] \<Longrightarrow> \<not> has_prefix (strip ps s) p"
proof (induction ps s rule: strip.induct)
  case (1 ps s)
  show ?case
  proof (cases "find (\<lambda>p. p \<noteq> [] \<and> has_prefix s p) ps")
    case None
    then have "strip ps s = s" by (simp add: strip.simps[of ps s])
    then show ?thesis
      using 1(2,3) None by (auto simp: find_None_iff)
  next
    case (Some q)
    then show ?thesis
      using 1 by (simp add: strip.simps[of ps s])
  qed
qed

lemma strip_suffix: "\<exists>t. s = t @ strip ps s"
proof (induction ps s rule: strip.induct)
  case (1 ps s)
  show ?case
  proof (cases "find (\<lambda>p. p \<noteq> [] \<and> has_prefix s p) ps")
    case None
    then show ?thesis
      by (simp add: strip.simps[of ps s])
  next
    case (Some q)
    then have eq: "strip ps s = strip ps (drop (length q) s)"
      by (simp add: strip.simps[of ps s])
    from 1 Some obtain t where "drop (length q) s = t @ strip ps s"
      unfolding eq by blast
    then have "s = (take (length q) s @ t) @ strip ps s"
      by (metis append.assoc append_take_drop_id)
    then show ?thesis by blast
  qed
qed

lemma has_prefix_iff: "has_prefix s p \<longleftrightarrow> (\<exists>u. s = p @ u)"
  by (metis append_eq_conv_conj append_take_drop_id has_prefix_def)

lemma has_prefix_append: "has_prefix s p \<Longrightarrow> has_prefix (s @ t) p"
  by (auto simp: has_prefix_iff)

lemma spaces_nonempty: "p \<in> set spaces \<Longrightarrow> p \<noteq> []"
proof -
  have "[] \<notin> set spaces" by (simp add: spaces_def)
  then show "p \<in> set spaces \<Longrightarrow> p \<noteq> []" by blast
qed

lemma trim_space_ends:
  assumes "p \<in> set spaces"
  shows "\<not> has_prefix (trim_space s) p" "\<not> has_suffix (trim_space s) p"
proof -
  have ne: "p \<noteq> []" using assms by (rule spaces_nonempty)
  obtain t where "rev (trim_left s) = t @ strip (map rev spaces) (rev (trim_left s))"
    using strip_suffix by blast
  then have "trim_left s = trim_space s @ rev t"
    by (metis rev_append rev_rev_ident trim_right_def trim_space_def)
  moreover have "\<not> has_prefix (trim_left s) p"
    unfolding trim_left_def using assms ne by (rule strip_no_prefix)
  ultimately show "\<not> has_prefix (trim_space s) p"
    by (metis has_prefix_append)
  show "\<not> has_suffix (trim_space s) p"
    using strip_no_prefix[of "rev p" "map rev spaces"] assms ne
    by (simp add: has_suffix_def trim_space_def trim_right_def)
qed

lemma trim_space_id:
  assumes "\<And>p. p \<in> set spaces \<Longrightarrow> \<not> has_prefix s p \<and> \<not> has_suffix s p"
  shows "trim_space s = s"
proof -
  have "trim_left s = s"
    unfolding trim_left_def by (rule strip_id) (use assms in blast)
  moreover have "strip (map rev spaces) (rev s) = rev s"
    by (rule strip_id) (use assms in \<open>auto simp: has_suffix_def\<close>)
  ultimately show ?thesis by (simp add: trim_space_def trim_right_def)
qed

lemma trim_space_idem [simp]: "trim_space (trim_space s) = trim_space s"
  by (rule trim_space_id) (simp add: trim_space_ends)

text \<open>Printable ASCII: such bytes are neither white space nor part of a white-space encoding.\<close>

definition plain :: "char \<Rightarrow> bool" where
  "plain c \<longleftrightarrow> CHR 0x21 \<le> c \<and> c \<le> CHR 0x7E"

lemma plain_no_space: "p \<in> set spaces \<Longrightarrow> c \<in> set p \<Longrightarrow> \<not> plain c"
proof -
  have "list_all (list_all (\<lambda>c. \<not> plain c)) spaces"
    by (simp add: spaces_def plain_def less_eq_char_def)
  then show "p \<in> set spaces \<Longrightarrow> c \<in> set p \<Longrightarrow> \<not> plain c"
    by (simp add: list_all_iff)
qed

lemma trim_space_plain:
  assumes "s \<noteq> []" "plain (hd s)" "plain (last s)"
  shows "trim_space s = s"
proof (rule trim_space_id, rule conjI)
  fix p assume p: "p \<in> set spaces"
  then have ne: "p \<noteq> []" by (rule spaces_nonempty)
  show "\<not> has_prefix s p"
  proof
    assume "has_prefix s p"
    then have "hd s \<in> set p"
      using assms(1) ne by (cases s; cases p) (auto simp: has_prefix_def)
    with p assms(2) show False by (blast dest: plain_no_space)
  qed
  show "\<not> has_suffix s p"
  proof
    assume "has_suffix s p"
    then have "last s \<in> set p"
      using assms(1) ne
      by (cases s rule: rev_cases; cases p rule: rev_cases) (auto simp: has_suffix_def has_prefix_def)
    with p assms(3) show False by (blast dest: plain_no_space)
  qed
qed

lemma trim_space_cr:
  assumes "s \<noteq> []" "plain (hd s)" "plain (last s)"
  shows "trim_space (s @ [CHR 0x0D]) = s"
proof -
  have "trim_space s = s" using assms by (rule trim_space_plain)
  then have no: "\<not> has_prefix (rev s) p" if "p \<in> set (map rev spaces)" for p
    using that trim_space_ends(2)[of _ s] by (force simp: has_suffix_def)
  have "\<not> has_prefix (s @ [CHR 0x0D]) p" if "p \<in> set spaces" for p
  proof
    assume "has_prefix (s @ [CHR 0x0D]) p"
    then have "hd s \<in> set p"
      using assms(1) spaces_nonempty[OF that] by (cases s; cases p) (auto simp: has_prefix_def)
    with that assms(2) show False by (blast dest: plain_no_space)
  qed
  then have left: "trim_left (s @ [CHR 0x0D]) = s @ [CHR 0x0D]"
    unfolding trim_left_def by (intro strip_id) blast
  have "strip (map rev spaces) (CHR 0x0D # rev s) = strip (map rev spaces) (rev s)"
    by (subst strip.simps) (simp add: spaces_def has_prefix_def)
  also have "\<dots> = rev s" using no by (intro strip_id) blast
  finally show ?thesis by (simp add: trim_space_def trim_right_def left)
qed

lemma trim_space_Nil [simp]: "trim_space [] = []"
  by (rule trim_space_id) (auto simp: has_prefix_def has_suffix_def dest: spaces_nonempty)

section \<open>strings.ToLower\<close>

text \<open>
  ASCII strings are mapped byte by byte. For other strings Go consults the Unicode case
  tables, here the argument \<open>unicode_lower\<close>.
\<close>

definition ascii_lower :: "char \<Rightarrow> char" where
  "ascii_lower c = (if CHR ''A'' \<le> c \<and> c \<le> CHR ''Z'' then char_of (of_char c + (32::nat)) else c)"

definition to_lower :: "(string \<Rightarrow> string) \<Rightarrow> string \<Rightarrow> string" where
  "to_lower unicode_lower s =
     (if list_all (\<lambda>c. c < CHR 0x80) s then map ascii_lower s else unicode_lower s)"

section \<open>Decimal numbers\<close>

fun dec_nat :: "nat \<Rightarrow> string" where
  "dec_nat n = (if n < 10 then [char_of (48 + n)] else dec_nat (n div 10) @ [char_of (48 + n mod 10)])"

declare dec_nat.simps [simp del]

definition Itoa :: "int \<Rightarrow> string" where
  "Itoa n = (if n < 0 then CHR ''-'' # dec_nat (nat (- n)) else dec_nat (nat n))"

definition is_digit :: "char \<Rightarrow> bool" where
  "is_digit c \<longleftrightarrow> CHR ''0'' \<le> c \<and> c \<le> CHR ''9''"

definition digit_val :: "char \<Rightarrow> nat" where
  "digit_val c = of_char c - 48"

datatype num_error = ErrSyntax | ErrRange

text \<open>
  \<^verbatim>\<open>strconv.ParseUint(s, 10, 64)\<close>: the digits are read from the left, and the first digit
  that makes the number too large stops the scan with a range error, whatever follows it.
\<close>

fun parse_uint_from :: "nat \<Rightarrow> string \<Rightarrow> nat \<times> num_error option" where
  "parse_uint_from n [] = (n, None)"
| "parse_uint_from n (c # cs) =
     (if \<not> is_digit c then (0, Some ErrSyntax)
      else if 18446744073709551615 < 10 * n + digit_val c then (18446744073709551615, Some ErrRange)
      else parse_uint_from (10 * n + digit_val c) cs)"

definition ParseUint :: "string \<Rightarrow> nat \<times> num_error option" where
  "ParseUint s = (if s = [] then (0, Some ErrSyntax) else parse_uint_from 0 s)"

text \<open>
  \<^verbatim>\<open>strconv.ParseInt(s, 10, 64)\<close>. On a range error the value returned beside the error is
  the nearest representable one, not 0.
\<close>

definition ParseInt :: "string \<Rightarrow> int \<times> num_error option" where
  "ParseInt s =
     (let neg = (s \<noteq> [] \<and> hd s = CHR ''-'');
          digits = (if s \<noteq> [] \<and> hd s \<in> {CHR ''-'', CHR ''+''} then tl s else s);
          (un, err) = ParseUint digits
      in if s = [] \<or> err = Some ErrSyntax then (0, Some ErrSyntax)
         else if \<not> neg \<and> 9223372036854775808 \<le> un then (int64_max, Some ErrRange)
         else if neg \<and> 9223372036854775808 < un then (int64_min, Some ErrRange)
         else (if neg then - int un else int un, None))"

text \<open>\<^verbatim>\<open>strconv.Atoi\<close>, with \<^verbatim>\<open>int\<close> of 64 bits; the error is what callers look at.\<close>

definition Atoi :: "string \<Rightarrow> num_error + int" where
  "Atoi s = (case ParseInt s of (n, None) \<Rightarrow> Inr n | (_, Some e) \<Rightarrow> Inl e)"

definition ParseBool :: "string \<Rightarrow> num_error + bool" where
  "ParseBool s =
     (if s \<in> set [''1'', ''t'', ''T'', ''TRUE'', ''true'', ''True''] then Inr True
      else if s \<in> set [''0'', ''f'', ''F'', ''FALSE'', ''false'', ''False''] then Inr False
      else Inl ErrSyntax)"

lemma dec_nat_nonempty [simp]: "dec_nat n \<noteq> []"
  by (subst dec_nat.simps) simp

lemma digit_char: "d < 10 \<Longrightarrow> is_digit (char_of (48 + d)) \<and> digit_val (char_of (48 + d)) = d"
  by (simp add: is_digit_def digit_val_def less_eq_char_def)

lemma dec_nat_digits: "c \<in> set (dec_nat n) \<Longrightarrow> is_digit c"
proof (induction n arbitrary: c rule: dec_nat.induct)
  case (1 n)
  show ?case
  proof (cases "n < 10")
    case True
    then show ?thesis
      using 1 digit_char[of n] by (auto simp: dec_nat.simps[of n])
  next
    case False
    then show ?thesis
      using 1 digit_char[of "n mod 10"] by (auto simp: dec_nat.simps[of n])
  qed
qed

lemma parse_uint_from_append:
  "parse_uint_from k s = (m, None) \<Longrightarrow> parse_uint_from k (s @ t) = parse_uint_from m t"
  by (induction s arbitrary: k) (auto split: if_splits)

lemma parse_uint_dec_nat:
  "n \<le> 18446744073709551615 \<Longrightarrow> parse_uint_from 0 (dec_nat n) = (n, None)"
proof (induction n rule: dec_nat.induct)
  case (1 n)
  show ?case
  proof (cases "n < 10")
    case True
    then show ?thesis
      using digit_char[of n] 1 by (simp add: dec_nat.simps[of n])
  next
    case False
    with 1 have "parse_uint_from 0 (dec_nat (n div 10)) = (n div 10, None)" by simp
    then have "parse_uint_from 0 (dec_nat n) = parse_uint_from (n div 10) [char_of (48 + n mod 10)]"
      using False parse_uint_from_append by (simp add: dec_nat.simps[of n])
    then show ?thesis
      using digit_char[of "n mod 10"] 1 by (simp add: mult.commute)
  qed
qed

lemma parse_uint_from_range_append:
  "parse_uint_from k s = (m, Some ErrRange) \<Longrightarrow> parse_uint_from k (s @ t) = (m, Some ErrRange)"
  by (induction s arbitrary: k) (auto split: if_splits)

lemma parse_uint_dec_nat_range:
  "18446744073709551615 < n \<Longrightarrow> parse_uint_from 0 (dec_nat n) = (18446744073709551615, Some ErrRange)"
proof (induction n rule: dec_nat.induct)
  case (1 n)
  have n: "\<not> n < 10" using 1(2) by simp
  show ?case
  proof (cases "n div 10 \<le> 18446744073709551615")
    case True
    then have "parse_uint_from 0 (dec_nat n) = parse_uint_from (n div 10) [char_of (48 + n mod 10)]"
      using n parse_uint_from_append[OF parse_uint_dec_nat] by (simp add: dec_nat.simps[of n])
    then show ?thesis
      using digit_char[of "n mod 10"] 1(2) by (simp add: mult.commute)
  next
    case False
    with 1(1)[OF n] show ?thesis
      using n parse_uint_from_range_append by (simp add: dec_nat.simps[of n])
  qed
qed

lemma dec_nat_hd: "hd (dec_nat n) \<notin> {CHR ''-'', CHR ''+''}"
proof -
  have "is_digit (hd (dec_nat n))" by (rule dec_nat_digits [OF hd_in_set]) simp
  then show ?thesis by (auto simp: is_digit_def less_eq_char_def)
qed

lemma ParseInt_Itoa: "in_int64 n \<Longrightarrow> ParseInt (Itoa n) = (n, None)"
  using parse_uint_dec_nat[of "nat n"] parse_uint_dec_nat[of "nat (- n)"] dec_nat_hd[of "nat n"]
  by (auto simp: ParseInt_def Itoa_def ParseUint_def nat_le_iff Let_def)

lemma ParseInt_Itoa_above: "int64_max < n \<Longrightarrow> ParseInt (Itoa n) = (int64_max, Some ErrRange)"
  using parse_uint_dec_nat[of "nat n"] parse_uint_dec_nat_range[of "nat n"] dec_nat_hd[of "nat n"]
  by (cases "nat n \<le> 18446744073709551615") (auto simp: ParseInt_def Itoa_def ParseUint_def nat_le_iff Let_def)

lemma ParseInt_Itoa_below: "n < int64_min \<Longrightarrow> ParseInt (Itoa n) = (int64_min, Some ErrRange)"
  using parse_uint_dec_nat[of "nat (- n)"] parse_uint_dec_nat_range[of "nat (- n)"]
  by (cases "nat (- n) \<le> 18446744073709551615") (auto simp: ParseInt_def Itoa_def ParseUint_def nat_le_iff Let_def)

lemma Atoi_Itoa [simp]: "in_int64 n \<Longrightarrow> Atoi (Itoa n) = Inr n"
  by (simp add: Atoi_def ParseInt_Itoa)

lemma ParseInt_range: "ParseInt s = (n, e) \<Longrightarrow> in_int64 n"
  by (auto simp: ParseInt_def Let_def split: prod.splits if_splits)

lemma fst_ParseInt_range [simp]: "int64_min \<le> fst (ParseInt s)" "fst (ParseInt s) \<le> int64_max"
  using ParseInt_range[of s "fst (ParseInt s)" "snd (ParseInt s)"] by simp_all

lemma Atoi_range: "Atoi s = Inr n \<Longrightarrow> in_int64 n"
  using ParseInt_range by (auto simp: Atoi_def split: prod.splits option.splits)

lemma Itoa_chars: "c \<in> set (Itoa n) \<Longrightarrow> is_digit c \<or> c = CHR ''-''"
  by (auto simp: Itoa_def dest: dec_nat_digits split: if_splits)

lemma is_digit_plain: "is_digit c \<Longrightarrow> plain c"
  by (auto simp: is_digit_def plain_def less_eq_char_def)

lemma Itoa_plain: "c \<in> set (Itoa n) \<Longrightarrow> plain c"
  by (drule Itoa_chars) (auto dest: is_digit_plain simp: plain_def less_eq_char_def)

lemma Itoa_nonempty [simp]: "Itoa n \<noteq> []"
  by (simp add: Itoa_def)

lemma Itoa_inject: "in_int64 m \<Longrightarrow> in_int64 n \<Longrightarrow> Itoa m = Itoa n \<longleftrightarrow> m = n"
  by (metis Pair_inject ParseInt_Itoa)

section \<open>Hexadecimal numbers\<close>

definition hex_digit :: "nat \<Rightarrow> char" where
  "hex_digit n = (if n < 10 then char_of (48 + n) else char_of (87 + n))"

text \<open>\<^verbatim>\<open>%x\<close> of a number.\<close>

fun hex_nat :: "nat \<Rightarrow> string" where
  "hex_nat n = (if n < 16 then [hex_digit n] else hex_nat (n div 16) @ [hex_digit (n mod 16)])"

declare hex_nat.simps [simp del]

definition is_hex :: "char \<Rightarrow> bool" where
  "is_hex c \<longleftrightarrow> is_digit c \<or> CHR ''a'' \<le> c \<and> c \<le> CHR ''f''"

lemma hex_digit_hex: "n < 16 \<Longrightarrow> is_hex (hex_digit n)"
  by (auto simp: hex_digit_def is_hex_def is_digit_def less_eq_char_def)

lemma hex_nat_hex: "c \<in> set (hex_nat n) \<Longrightarrow> is_hex c"
proof (induction n arbitrary: c rule: hex_nat.induct)
  case (1 n)
  then show ?case
    using hex_digit_hex[of n] hex_digit_hex[of "n mod 16"] by (auto simp: hex_nat.simps[of n] split: if_splits)
qed

end
