(* ===== verification/Resp.thy ===== *)
theory Resp
  imports Go_Strings "HOL-Library.Sublist"
begin

text \<open>
  \<^verbatim>\<open>internal/redis/resp.go\<close>: the encoder of commands and the decoder of replies.

  A \<^verbatim>\<open>*bufio.Reader\<close> is the bytes that can still be read from it, together with the error
  \<open>fin\<close> that a read past the last of them returns (end of file, a timeout, a reset). The
  decoder returns the bytes it left unread. A reply (\<^verbatim>\<open>interface{}\<close>) is a value of the
  datatype \<open>reply\<close>. Texts of error messages are not modelled; each error is a constructor
  with the data the message is made from. Allocations the Go runtime refuses are panics.
\<close>

section \<open>Data\<close>

datatype io_error = EOF | UnexpectedEOF | NetError string

datatype reply = RStr string | RInt int | RNil | RArr "reply list"

datatype redis_error =
    RedisError string
  | IOError io_error
  | EmptyCommand
  | EmptyReplyLine
  | BadInteger string num_error
  | BadBulkLength string num_error
  | BadArrayLength string num_error
  | UnknownReplyType char
  | UnexpectedPingReply reply
  | UnexpectedInfoReply reply
  | UnexpectedRoleReply reply
  | RoleFieldNotString reply
  | UnexpectedRoleValue string

section \<open>Encoding a command\<close>

abbreviation crlf :: string where
  "crlf \<equiv> [CHR 0x0D, CHR 0x0A]"

definition bulk :: "string \<Rightarrow> string" where
  "bulk a = CHR ''$'' # Itoa (int (length a)) @ crlf @ a @ crlf"

definition encodeCommand :: "string list \<Rightarrow> string" where
  "encodeCommand args = CHR ''*'' # Itoa (int (length args)) @ crlf @ concat (map bulk args)"

text \<open>The bytes handed to \<^verbatim>\<open>w.Write\<close>, or the error returned before it.\<close>

definition writeCommand :: "string list \<Rightarrow> redis_error + string" where
  "writeCommand args = (if args = [] then Inl EmptyCommand else Inr (encodeCommand args))"

section \<open>Decoding a reply\<close>

text \<open>\<^verbatim>\<open>r.ReadBytes('\n')\<close> consumes everything when there is no newline.\<close>

definition readLine :: "io_error \<Rightarrow> string \<Rightarrow> (redis_error + string) \<times> string" where
  "readLine fin bs =
     (if CHR 0x0A \<in> set bs then
        let line = takeWhile (\<lambda>c. c \<noteq> CHR 0x0A) bs @ [CHR 0x0A];
            n = length line
        in (Inr (if 2 \<le> n \<and> line ! (n - 2) = CHR 0x0D then take (n - 2) line else take (n - 1) line),
            drop n bs)
      else (Inl (IOError fin), []))"

text \<open>\<^verbatim>\<open>io.ReadFull\<close> of \<open>n > 0\<close> bytes.\<close>

definition readFull :: "io_error \<Rightarrow> nat \<Rightarrow> string \<Rightarrow> (redis_error + string) \<times> string" where
  "readFull fin n bs =
     (if n \<le> length bs then (Inr (take n bs), drop n bs)
      else (Inl (IOError (if bs \<noteq> [] \<and> fin = EOF then UnexpectedEOF else fin)), []))"

text \<open>
  \<^verbatim>\<open>make\<close> panics for a negative length and for one that exceeds the address space of the
  runtime (48 bits on 64-bit Linux): one byte for each element of a \<^verbatim>\<open>[]byte\<close>, sixteen for
  each element of an \<^verbatim>\<open>[]interface{}\<close>.
\<close>

definition max_alloc :: int where
  "max_alloc = 281474976710656"

definition make_ok :: "int \<Rightarrow> int \<Rightarrow> bool" where
  "make_ok elem_size n \<longleftrightarrow> 0 \<le> n \<and> n * elem_size \<le> max_alloc"

text \<open>Termination rests on each call consuming a line.\<close>

lemma readLine_shorter: "readLine fin bs = (Inr line, bs') \<Longrightarrow> length bs' < length bs"
  by (cases bs) (auto simp: readLine_def Let_def split: if_splits)

lemma readFull_shorter: "readFull fin n bs = (r, bs') \<Longrightarrow> length bs' \<le> length bs"
  by (auto simp: readFull_def split: if_splits)

function readReply :: "io_error \<Rightarrow> string \<Rightarrow> (redis_error + reply) out \<times> string"
  and readElems :: "io_error \<Rightarrow> nat \<Rightarrow> string \<Rightarrow> (redis_error + reply list) out \<times> string"
where
  "readReply fin bs = (case readLine fin bs of
      (Inl e, bs1) \<Rightarrow> (Done (Inl e), bs1)
    | (Inr [], bs1) \<Rightarrow> (Done (Inl EmptyReplyLine), bs1)
    | (Inr (pfx # rest), bs1) \<Rightarrow>
        if pfx = CHR ''+'' then (Done (Inr (RStr rest)), bs1)
        else if pfx = CHR ''-'' then (Done (Inl (RedisError rest)), bs1)
        else if pfx = CHR '':'' then
          (case ParseInt rest of
             (n, None) \<Rightarrow> (Done (Inr (RInt n)), bs1)
           | (_, Some e) \<Rightarrow> (Done (Inl (BadInteger rest e)), bs1))
        else if pfx = CHR ''$'' then
          (case Atoi rest of
             Inl e \<Rightarrow> (Done (Inl (BadBulkLength rest e)), bs1)
           | Inr n \<Rightarrow>
               if n < 0 then (Done (Inr RNil), bs1)
               else if \<not> make_ok 1 (wrap64 (n + 2)) then (Panic, bs1)
               else (case readFull fin (nat (n + 2)) bs1 of
                       (Inl e, bs2) \<Rightarrow> (Done (Inl e), bs2)
                     | (Inr buf, bs2) \<Rightarrow> (Done (Inr (RStr (take (nat n) buf))), bs2)))
        else if pfx = CHR ''*'' then
          (case Atoi rest of
             Inl e \<Rightarrow> (Done (Inl (BadArrayLength rest e)), bs1)
           | Inr n \<Rightarrow>
               if n < 0 then (Done (Inr RNil), bs1)
               else if \<not> make_ok 16 n then (Panic, bs1)
               else (case readElems fin (nat n) bs1 of
                       (Panic, bs2) \<Rightarrow> (Panic, bs2)
                     | (Done (Inl e), bs2) \<Rightarrow> (Done (Inl e), bs2)
                     | (Done (Inr arr), bs2) \<Rightarrow> (Done (Inr (RArr arr)), bs2)))
        else (Done (Inl (UnknownReplyType pfx)), bs1))"
| "readElems fin n bs =
     (if n = 0 then (Done (Inr []), bs)
      else (case readReply fin bs of
              (Panic, bs1) \<Rightarrow> (Panic, bs1)
            | (Done (Inl e), bs1) \<Rightarrow> (Done (Inl e), bs1)
            | (Done (Inr el), bs1) \<Rightarrow>
                (case readElems fin (n - 1) bs1 of
                   (Panic, bs2) \<Rightarrow> (Panic, bs2)
                 | (Done (Inl e), bs2) \<Rightarrow> (Done (Inl e), bs2)
                 | (Done (Inr els), bs2) \<Rightarrow> (Done (Inr (el # els)), bs2))))"
  by pat_completeness auto

termination
proof -
  have shorter: "readReply_readElems_dom (Inl (fin, bs)) \<Longrightarrow> length (snd (readReply fin bs)) \<le> length bs"
    "readReply_readElems_dom (Inr (fin, n, bs)) \<Longrightarrow> length (snd (readElems fin n bs)) \<le> length bs"
    for fin bs n
  proof (induction fin bs and fin n bs rule: readReply_readElems.pinduct)
    case (1 fin bs)
    show ?case
    proof (cases "readLine fin bs")
      case (Pair r bs1)
      have le: "length bs1 \<le> length bs"
        using Pair by (auto simp: readLine_def Let_def split: if_splits)
      have full: "length bs2 \<le> length bs" if "readFull fin k bs1 = (r', bs2)" for k r' bs2
        using le readFull_shorter[OF that] by simp
      show ?thesis
      proof (cases r)
        case (Inl e)
        then show ?thesis using Pair le by (simp add: readReply.psimps[OF 1(1)])
      next
        case (Inr line)
        show ?thesis
        proof (cases line)
          case Nil
          then show ?thesis using Pair Inr le by (simp add: readReply.psimps[OF 1(1)])
        next
          case (Cons pfx rest)
          have arr: "length bs2 \<le> length bs"
            if "readElems fin (nat n) bs1 = (r', bs2)"
              "pfx = CHR ''*''" "Atoi rest = Inr n" "\<not> n < 0" "make_ok 16 n" for n r' bs2
            using 1(2)[OF Pair[symmetric] Inr Cons] that le by fastforce
          show ?thesis
            unfolding readReply.psimps[OF 1(1)] Pair Inr Cons
            by (auto simp: le split: sum.splits prod.splits out.splits option.splits
                dest: full arr)
        qed
      qed
    qed
  next
    case (2 fin n bs)
    show ?case
    proof (cases "readReply fin bs")
      case (Pair r bs1)
      show ?thesis
      proof (cases "\<exists>el. n \<noteq> 0 \<and> r = Done (Inr el)")
        case True
        then obtain el where el: "n \<noteq> 0" "r = Done (Inr el)" by blast
        have "length bs1 \<le> length bs"
          using 2(2) el Pair by simp
        moreover have "length (snd (readElems fin (n - 1) bs1)) \<le> length bs1"
          using 2(3)[OF el(1) Pair[symmetric] el(2) refl] .
        ultimately show ?thesis
          using Pair el by (auto simp: readElems.psimps[OF 2(1)] split: sum.splits prod.splits out.splits)
      next
        case False
        then show ?thesis
          using 2(2) Pair
          by (cases r) (auto simp: readElems.psimps[OF 2(1)] split: sum.splits)
      qed
    qed
  qed
  show ?thesis
  proof (relation "measures [\<lambda>x. case x of Inl (_, bs) \<Rightarrow> length bs | Inr (_, _, bs) \<Rightarrow> length bs,
                             \<lambda>x. case x of Inl _ \<Rightarrow> 0 | Inr (_, n, _) \<Rightarrow> Suc n]", simp)
  qed (auto dest: readLine_shorter sym[of _ "readLine _ _"] dest!: sym[of _ "readReply _ _"]
        dest: shorter(1) simp: order.order_iff_strict)
qed

declare readReply.simps [simp del] readElems.simps [simp del]

section \<open>What the protocol's encoding is\<close>

text \<open>
  The encoding of replies that the protocol documents and a server sends. \<open>encodable\<close> are
  the values whose lengths and integers the Go decoder can represent.
\<close>

fun encodeReply :: "reply \<Rightarrow> string" where
  "encodeReply (RStr s) = bulk s"
| "encodeReply (RInt n) = CHR '':'' # Itoa n @ crlf"
| "encodeReply RNil = CHR ''$'' # Itoa (- 1) @ crlf"
| "encodeReply (RArr vs) = CHR ''*'' # Itoa (int (length vs)) @ crlf @ concat (map encodeReply vs)"

fun encodable :: "reply \<Rightarrow> bool" where
  "encodable (RStr s) \<longleftrightarrow> int (length s) + 2 \<le> max_alloc"
| "encodable (RInt n) \<longleftrightarrow> in_int64 n"
| "encodable RNil \<longleftrightarrow> True"
| "encodable (RArr vs) \<longleftrightarrow> int (length vs) * 16 \<le> max_alloc \<and> list_all encodable vs"

section \<open>Decoding inverts encoding\<close>

text \<open>What a decoder of self-delimiting frames promises, and what follows from it.\<close>

locale framed =
  fixes enc :: "'v \<Rightarrow> string"
    and dec :: "string \<Rightarrow> ('err + 'v) out \<times> string"
    and wf :: "'v \<Rightarrow> bool"
  assumes dec_enc: "wf v \<Longrightarrow> dec (enc v @ rest) = (Done (Inr v), rest)"
begin

lemma prefix_free: "wf v \<Longrightarrow> wf w \<Longrightarrow> enc v @ r = enc w @ s \<Longrightarrow> v = w \<and> r = s"
  by (metis Pair_inject dec_enc out.inject sum.inject(2))

lemma inject: "wf v \<Longrightarrow> wf w \<Longrightarrow> enc v = enc w \<Longrightarrow> v = w"
  using prefix_free by blast

lemma stream_inject:
  "list_all wf vs \<Longrightarrow> list_all wf ws \<Longrightarrow> length vs = length ws \<Longrightarrow>
   concat (map enc vs) @ r = concat (map enc ws) @ s \<Longrightarrow> vs = ws \<and> r = s"
proof (induction vs arbitrary: ws)
  case Nil
  then show ?case by simp
next
  case (Cons v vs)
  then obtain w ws' where ws: "ws = w # ws'" by (cases ws) auto
  have "v = w \<and> concat (map enc vs) @ r = concat (map enc ws') @ s"
    by (rule prefix_free) (use Cons.prems ws in auto)
  with Cons ws show ?case by auto
qed

end

lemma Itoa_no_newline: "CHR 0x0A \<notin> set (Itoa n)" "CHR 0x0D \<notin> set (Itoa n)"
  by (auto simp: plain_def less_eq_char_def dest!: Itoa_plain)

lemma readLine_crlf:
  assumes "CHR 0x0A \<notin> set s"
  shows "readLine fin (s @ crlf @ rest) = (Inr s, rest)"
proof -
  have "takeWhile (\<lambda>c. c \<noteq> CHR 0x0A) (s @ crlf @ rest) = s @ [CHR 0x0D]"
    using assms by (subst takeWhile_append2) auto
  then show ?thesis by (simp add: readLine_def Let_def nth_append)
qed

lemma readLine_header:
  assumes "p \<noteq> CHR 0x0A"
  shows "readLine fin (p # Itoa n @ CHR 0x0D # CHR 0x0A # rest) = (Inr (p # Itoa n), rest)"
  using readLine_crlf[of "p # Itoa n" fin rest] assms Itoa_no_newline by simp

lemma max_alloc_int64: "n * k \<le> max_alloc \<Longrightarrow> 0 < k \<Longrightarrow> 0 \<le> n \<Longrightarrow> in_int64 (n + 2)" for n k :: int
proof -
  assume "n * k \<le> max_alloc" "0 < k" "0 \<le> n"
  then have "n \<le> max_alloc"
    by (smt (verit) mult_le_cancel_left1)
  with \<open>0 \<le> n\<close> show "in_int64 (n + 2)" by (simp add: max_alloc_def)
qed

lemma readReply_encodeReply:
  "encodable v \<Longrightarrow> readReply fin (encodeReply v @ rest) = (Done (Inr v), rest)"
proof (induction v arbitrary: rest)
  case (RStr s)
  then have "in_int64 (int (length s) + 2)" "make_ok 1 (int (length s) + 2)"
    by (auto simp: make_ok_def max_alloc_def)
  then show ?case
    by (simp add: readReply.simps[of fin "CHR ''$'' # _"] bulk_def readLine_header readFull_def
        Atoi_Itoa nat_add_distrib)
next
  case (RInt n)
  then show ?case
    by (simp add: readReply.simps[of fin "CHR '':'' # _"] readLine_header ParseInt_Itoa)
next
  case RNil
  show ?case
    by (simp add: readReply.simps[of fin "CHR ''$'' # _"] readLine_header Atoi_Itoa)
next
  case (RArr vs)
  have elems: "list_all encodable us \<Longrightarrow> set us \<subseteq> set vs \<Longrightarrow>
      readElems fin (length us) (concat (map encodeReply us) @ rest) = (Done (Inr us), rest)" for us
  proof (induction us)
    case Nil
    then show ?case by (simp add: readElems.simps)
  next
    case (Cons u us)
    then show ?case
      using RArr.IH[of u] by (simp add: readElems.simps[of fin "Suc _"])
  qed
  have "in_int64 (int (length vs))" "make_ok 16 (int (length vs))"
    using RArr.prems by (auto simp: make_ok_def max_alloc_def)
  then show ?case
    using elems[of vs] RArr.prems
    by (simp add: readReply.simps[of fin "CHR ''*'' # _"] readLine_header Atoi_Itoa)
qed

interpretation reply_frames: framed encodeReply "readReply fin" encodable for fin
  by unfold_locales (rule readReply_encodeReply)

section \<open>Commands are determined by their bytes\<close>

lemma dec_nat_value: "foldl (\<lambda>n c. 10 * n + digit_val c) 0 (dec_nat n) = n"
proof (induction n rule: dec_nat.induct)
  case (1 n)
  then show ?case
    using digit_char[of n] digit_char[of "n mod 10"]
    by (cases "n < 10") (simp_all add: dec_nat.simps[of n])
qed

lemma dec_nat_inject: "dec_nat m = dec_nat n \<longleftrightarrow> m = n"
  by (metis dec_nat_value)

lemma split_at_CR:
  "CHR 0x0D \<notin> set a \<Longrightarrow> CHR 0x0D \<notin> set b \<Longrightarrow> a @ CHR 0x0D # r = b @ CHR 0x0D # s \<Longrightarrow>
   a = b \<and> r = s"
  by (induction a arbitrary: b) (auto simp: Cons_eq_append_conv)

lemma dec_nat_no_CR: "CHR 0x0D \<notin> set (dec_nat n)"
  by (auto simp: is_digit_def less_eq_char_def dest!: dec_nat_digits)

lemma bulk_prefix_free: "bulk a @ r = bulk b @ s \<Longrightarrow> a = b \<and> r = s"
proof -
  assume eq: "bulk a @ r = bulk b @ s"
  have "dec_nat (length a) @ CHR 0x0D # CHR 0x0A # a @ crlf @ r =
        dec_nat (length b) @ CHR 0x0D # CHR 0x0A # b @ crlf @ s"
    using eq by (simp add: bulk_def Itoa_def)
  then have "dec_nat (length a) = dec_nat (length b) \<and> a @ crlf @ r = b @ crlf @ s"
    using split_at_CR[OF dec_nat_no_CR dec_nat_no_CR] by fast
  then show ?thesis by (auto simp: dec_nat_inject append_eq_append_conv)
qed

lemma bulks_inject:
  "length as = length bs \<Longrightarrow> concat (map bulk as) = concat (map bulk bs) \<Longrightarrow> as = bs"
proof (induction as bs rule: list_induct2)
  case Nil
  then show ?case by simp
next
  case (Cons a as b bs)
  then show ?case using bulk_prefix_free[of a _ b] by auto
qed

lemma encodeCommand_inject [simp]: "encodeCommand as = encodeCommand bs \<longleftrightarrow> as = bs"
proof
  assume eq: "encodeCommand as = encodeCommand bs"
  have "dec_nat (length as) @ CHR 0x0D # CHR 0x0A # concat (map bulk as) =
        dec_nat (length bs) @ CHR 0x0D # CHR 0x0A # concat (map bulk bs)"
    using eq by (simp add: encodeCommand_def Itoa_def)
  then have "dec_nat (length as) = dec_nat (length bs) \<and> concat (map bulk as) = concat (map bulk bs)"
    using split_at_CR[OF dec_nat_no_CR dec_nat_no_CR] by fast
  then show "as = bs" by (simp add: dec_nat_inject bulks_inject)
qed simp

lemma encodeCommand_eq_encodeReply: "encodeCommand args = encodeReply (RArr (map RStr args))"
  by (simp add: encodeCommand_def o_def)

section \<open>What the decoder leaves unread\<close>

lemma readLine_suffix: "readLine fin bs = (r, bs1) \<Longrightarrow> suffix bs1 bs"
  by (auto simp: readLine_def Let_def suffix_drop split: if_splits)

lemma readFull_suffix: "readFull fin n bs = (r, bs1) \<Longrightarrow> suffix bs1 bs"
  by (auto simp: readFull_def suffix_drop split: if_splits)

lemma read_suffix:
  "suffix (snd (readReply fin bs)) bs"
  "suffix (snd (readElems fin n bs)) bs"
proof (induction fin bs and fin n bs rule: readReply_readElems.induct)
  case (1 fin bs)
  show ?case
  proof (cases "readLine fin bs")
    case (Pair r bs1)
    note le = readLine_suffix[OF Pair]
    have full: "suffix bs2 bs" if "readFull fin k bs1 = (r', bs2)" for k r' bs2
      using readFull_suffix[OF that] le by (rule suffix_order.trans)
    show ?thesis
    proof (cases "\<exists>pfx rest. r = Inr (pfx # rest)")
      case True
      then obtain pfx rest where r: "r = Inr (pfx # rest)" by blast
      have arr: "suffix bs2 bs"
        if "readElems fin (nat n) bs1 = (r', bs2)"
          "pfx = CHR ''*''" "Atoi rest = Inr n" "\<not> n < 0" "make_ok 16 n" for n r' bs2
      proof -
        have "suffix bs2 bs1" using 1[OF Pair[symmetric] r refl] that by simp
        then show ?thesis using le by (rule suffix_order.trans)
      qed
      show ?thesis
        unfolding readReply.simps[of fin bs] Pair r
        by (auto simp: le split: sum.splits prod.splits out.splits option.splits dest: full arr)
    next
      case False
      then show ?thesis
        unfolding readReply.simps[of fin bs] Pair by (auto simp: le split: sum.splits list.splits)
    qed
  qed
next
  case (2 fin n bs)
  show ?case
  proof (cases "readReply fin bs")
    case (Pair r bs1)
    show ?thesis
    proof (cases "\<exists>el. n \<noteq> 0 \<and> r = Done (Inr el)")
      case True
      then obtain el where el: "n \<noteq> 0" "r = Done (Inr el)" by blast
      have "suffix bs1 bs" "suffix (snd (readElems fin (n - 1) bs1)) bs1"
        using 2(1)[OF el(1)] 2(2)[OF el(1) Pair[symmetric] el(2) refl] Pair by auto
      then have "suffix (snd (readElems fin (n - 1) bs1)) bs" by (metis suffix_order.trans)
      then show ?thesis
        using Pair el by (auto simp: readElems.simps[of fin n bs] split: sum.splits prod.splits out.splits)
    next
      case False
      then show ?thesis
        using 2(1) Pair by (cases r) (auto simp: readElems.simps[of fin n bs] split: sum.splits)
    qed
  qed
qed

lemma readReply_consumes:
  assumes "readReply fin bs = (Done (Inr v), rest)"
  shows "\<exists>used. used \<noteq> [] \<and> bs = used @ rest"
proof -
  obtain line bs1 where line: "readLine fin bs = (Inr line, bs1)"
    using assms by (auto simp: readReply.simps[of fin bs] split: prod.splits sum.splits)
  have elems: "length bs2 \<le> length bs1" if "readElems fin n bs1 = (x, bs2)" for n x bs2
    using read_suffix(2)[where bs = bs1 and fin = fin and n = n] that by (auto dest: suffix_length_le)
  have "length rest \<le> length bs1"
    using assms
    by (auto simp: readReply.simps[of fin bs] line split: list.splits if_splits prod.splits option.splits sum.splits
        out.splits dest: readFull_shorter elems)
  with readLine_shorter[OF line] read_suffix(1)[of fin bs] assms show ?thesis by (auto simp: suffix_def)
qed

section \<open>Properties\<close>

text \<open>
  C22. Decoding inverts the encoding that a server uses: the decoder returns exactly the reply
  that was encoded and leaves exactly the bytes that follow it, so replies that arrive one
  after the other on a connection do not run into each other.
\<close>

theorem reply_roundtrip:
  assumes "encodable v"
  shows "readReply fin (encodeReply v @ rest) = (Done (Inr v), rest)"
  using assms by (rule reply_frames.dec_enc)

theorem reply_roundtrip_witness:
  "readReply EOF (encodeReply (RArr [RStr ''slave'', RInt 6379, RNil]) @ ''+OK'') =
   (Done (Inr (RArr [RStr ''slave'', RInt 6379, RNil])), ''+OK'')"
  by (rule reply_roundtrip) (simp add: max_alloc_def)

lemma command_encodable:
  "list_all (\<lambda>a. int (length a) + 2 \<le> max_alloc) args \<Longrightarrow> int (length args) * 16 \<le> max_alloc \<Longrightarrow>
   encodable (RArr (map RStr args))"
  by (simp add: list_all_iff)

text \<open>
  C23. A command is one array of bulk strings: whoever decodes the bytes that
  \<^verbatim>\<open>writeCommand\<close> writes gets back exactly the arguments, whatever bytes they contain, so
  no argument can smuggle in another one or another command.
\<close>

theorem command_roundtrip:
  assumes "writeCommand args = Inr bytes"
    and "list_all (\<lambda>a. int (length a) + 2 \<le> max_alloc) args" "int (length args) * 16 \<le> max_alloc"
  shows "readReply fin (bytes @ rest) = (Done (Inr (RArr (map RStr args))), rest)"
proof -
  have "bytes = encodeReply (RArr (map RStr args))"
    using assms(1) by (simp add: writeCommand_def encodeCommand_eq_encodeReply del: encodeReply.simps split: if_splits)
  with reply_frames.dec_enc[OF command_encodable[OF assms(2,3)]] show ?thesis by simp
qed

theorem command_roundtrip_witness:
  "\<exists>bytes. writeCommand [''GET'', ''a'' @ crlf @ ''b''] = Inr bytes \<and>
     readReply EOF (bytes @ []) = (Done (Inr (RArr (map RStr [''GET'', ''a'' @ crlf @ ''b'']))), [])"
proof -
  have "writeCommand [''GET'', ''a'' @ crlf @ ''b''] = Inr (encodeCommand [''GET'', ''a'' @ crlf @ ''b''])"
    by (simp add: writeCommand_def)
  with command_roundtrip[OF this, of EOF "[]"] show ?thesis by (simp add: max_alloc_def)
qed

text \<open>
  C24. The decoder always ends, reads from the front only, and a reply it returns has used up
  at least one byte: what it leaves unread is a suffix of its input, a proper one when it
  returns a reply.
\<close>

theorem decoder_reads_forward:
  "suffix (snd (readReply fin bs)) bs \<and>
   (\<forall>v rest. readReply fin bs = (Done (Inr v), rest) \<longrightarrow> strict_suffix rest bs)"
proof (intro conjI allI impI)
  show "suffix (snd (readReply fin bs)) bs" by (rule read_suffix)
  show "strict_suffix rest bs" if "readReply fin bs = (Done (Inr v), rest)" for v rest
    using readReply_consumes[OF that] by (auto simp: strict_suffix_def suffix_def)
qed

theorem decoder_reads_forward_witness: "strict_suffix ''x'' (encodeReply (RInt 1) @ ''x'')"
proof -
  have "readReply EOF (encodeReply (RInt 1) @ ''x'') = (Done (Inr (RInt 1)), ''x'')"
    by (rule reply_frames.dec_enc) simp
  with decoder_reads_forward[of EOF "encodeReply (RInt 1) @ ''x''"] show ?thesis by blast
qed

text \<open>
  C25. A bulk string or an array whose announced length exceeds what can be allocated makes
  the decoder panic, before any of the data has arrived. For a bulk string this includes
  the lengths for which adding the two bytes of the line end wraps around.
\<close>

theorem huge_length_panics:
  assumes "n \<le> int64_max" "max_alloc < n + 2"
  shows "readReply fin (CHR ''$'' # Itoa n @ crlf @ rest) = (Panic, rest) \<and>
         readReply fin (CHR ''*'' # Itoa n @ crlf @ rest) = (Panic, rest)"
proof -
  have n: "in_int64 n" "\<not> n < 0" using assms by (simp_all add: max_alloc_def)
  consider "n + 2 \<le> int64_max" | "n = int64_max - 1" | "n = int64_max"
    using assms(1) by linarith
  then have "n + 2 \<le> int64_max \<or> wrap64 (n + 2) < 0"
    by cases (simp_all add: wrap64_def)
  then have bulk: "\<not> make_ok 1 (wrap64 (n + 2))"
    using assms n by (auto simp: make_ok_def)
  have arr: "\<not> make_ok 16 n"
    using assms by (simp add: make_ok_def max_alloc_def)
  show ?thesis
    using n bulk arr
    by (simp add: readReply.simps[of fin "CHR ''$'' # _"] readReply.simps[of fin "CHR ''*'' # _"] readLine_header)
qed

theorem huge_length_panics_witness:
  "readReply EOF (CHR ''$'' # Itoa int64_max @ crlf @ []) = (Panic, []) \<and>
   readReply EOF (CHR ''*'' # Itoa int64_max @ crlf @ []) = (Panic, [])"
  by (rule huge_length_panics) (simp_all add: max_alloc_def)

end
