(* ===== verification/Redis_Parse.thy ===== *)
theory Redis_Parse
  imports Resp
begin

text \<open>
  \<^verbatim>\<open>internal/redis/parse.go\<close>: the results of \<^verbatim>\<open>ROLE\<close> and \<^verbatim>\<open>INFO replication\<close>.
  A \<^verbatim>\<open>*ReplicationInfo\<close> receiver that may be nil is an option.
\<close>

section \<open>Data\<close>

definition RoleMaster :: string where
  "RoleMaster = ''master''"

definition RoleReplica :: string where
  "RoleReplica = ''slave''"

record RoleInfo =
  ri_Role :: string
  ri_ReplOffset :: int
  ri_MasterHost :: string
  ri_MasterPort :: int
  ri_ReplState :: string

record ReplicationInfo =
  Role :: string
  ConnectedSlaves :: int
  MasterHost :: string
  MasterPort :: int
  MasterLinkStatus :: string
  MasterReplOffset :: int
  SlaveReplOffset :: int

definition empty_RoleInfo :: RoleInfo where
  "empty_RoleInfo = \<lparr>ri_Role = [], ri_ReplOffset = 0, ri_MasterHost = [], ri_MasterPort = 0, ri_ReplState = []\<rparr>"

definition empty_ReplicationInfo :: ReplicationInfo where
  "empty_ReplicationInfo = \<lparr>Role = [], ConnectedSlaves = 0, MasterHost = [], MasterPort = 0,
     MasterLinkStatus = [], MasterReplOffset = 0, SlaveReplOffset = 0\<rparr>"

section \<open>Operations\<close>

definition IsMaster :: "ReplicationInfo option \<Rightarrow> bool" where
  "IsMaster r \<longleftrightarrow> (case r of None \<Rightarrow> False | Some i \<Rightarrow> Role i = RoleMaster)"

definition IsReplica :: "ReplicationInfo option \<Rightarrow> bool" where
  "IsReplica r \<longleftrightarrow> (case r of None \<Rightarrow> False | Some i \<Rightarrow> Role i = RoleReplica)"

definition Offset :: "ReplicationInfo option \<Rightarrow> int" where
  "Offset r = (case r of None \<Rightarrow> 0
     | Some i \<Rightarrow> if Role i = RoleMaster then MasterReplOffset i else SlaveReplOffset i)"

text \<open>
  The value that \<^verbatim>\<open>strconv.ParseInt\<close> returns beside an error is kept, as in the source:
  0 for a syntax error, the nearest bound for a number out of range.
\<close>

definition toInt64 :: "reply \<Rightarrow> int" where
  "toInt64 v = (case v of RInt x \<Rightarrow> x | RStr x \<Rightarrow> fst (ParseInt (trim_space x)) | _ \<Rightarrow> 0)"

text \<open>A type assertion to string whose failure yields the empty string.\<close>

definition str_or_empty :: "reply \<Rightarrow> string" where
  "str_or_empty v = (case v of RStr s \<Rightarrow> s | _ \<Rightarrow> [])"

definition parseRoleReply :: "reply \<Rightarrow> RoleInfo option \<times> redis_error option" where
  "parseRoleReply reply = (case reply of
      RArr (v # vs) \<Rightarrow>
        (case v of
           RStr role \<Rightarrow>
             let arr = v # vs; info = empty_RoleInfo\<lparr>ri_Role := role\<rparr> in
             if role = RoleMaster then
               (Some (if 2 \<le> length arr then info\<lparr>ri_ReplOffset := toInt64 (arr ! 1)\<rparr> else info), None)
             else if role = RoleReplica then
               (Some (if 5 \<le> length arr then
                        info\<lparr>ri_MasterHost := str_or_empty (arr ! 1), ri_MasterPort := toInt64 (arr ! 2),
                             ri_ReplState := str_or_empty (arr ! 3), ri_ReplOffset := toInt64 (arr ! 4)\<rparr>
                      else info), None)
             else (Some info, Some (UnexpectedRoleValue role))
         | _ \<Rightarrow> (None, Some (RoleFieldNotString v)))
    | _ \<Rightarrow> (None, Some (UnexpectedRoleReply reply)))"

definition set_info_field :: "string \<Rightarrow> string \<Rightarrow> ReplicationInfo \<Rightarrow> ReplicationInfo" where
  "set_info_field key val info =
     (if key = ''role'' then info\<lparr>Role := val\<rparr>
      else if key = ''connected_slaves'' then info\<lparr>ConnectedSlaves := toInt64 (RStr val)\<rparr>
      else if key = ''master_host'' then info\<lparr>MasterHost := val\<rparr>
      else if key = ''master_port'' then info\<lparr>MasterPort := toInt64 (RStr val)\<rparr>
      else if key = ''master_link_status'' then info\<lparr>MasterLinkStatus := val\<rparr>
      else if key = ''master_repl_offset'' then info\<lparr>MasterReplOffset := toInt64 (RStr val)\<rparr>
      else if key = ''slave_repl_offset'' then info\<lparr>SlaveReplOffset := toInt64 (RStr val)\<rparr>
      else info)"

text \<open>One iteration of the loop over the lines.\<close>

definition parse_info_line :: "ReplicationInfo \<Rightarrow> string \<Rightarrow> ReplicationInfo" where
  "parse_info_line info raw =
     (let line = trim_space raw in
      if line = [] \<or> has_prefix line ''#'' then info
      else (case cut (CHR '':'') line of None \<Rightarrow> info | Some (key, val) \<Rightarrow> set_info_field key val info))"

definition parseReplicationInfo :: "string \<Rightarrow> ReplicationInfo" where
  "parseReplicationInfo s = foldl parse_info_line empty_ReplicationInfo (split_on (CHR 0x0A) s)"

section \<open>What the parser computes\<close>

text \<open>
  The specification: the \<open>key:value\<close> lines of the text as a list, where a later line for
  the same key overrides an earlier one.
\<close>

definition line_pair :: "string \<Rightarrow> (string \<times> string) option" where
  "line_pair raw = (let line = trim_space raw in
     if line = [] \<or> has_prefix line ''#'' then None else cut (CHR '':'') line)"

definition info_value :: "string \<Rightarrow> string \<Rightarrow> string option" where
  "info_value s key = map_of (rev (List.map_filter line_pair (split_on (CHR 0x0A) s))) key"

definition str_field :: "string \<Rightarrow> string \<Rightarrow> string" where
  "str_field s key = (case info_value s key of None \<Rightarrow> [] | Some v \<Rightarrow> v)"

definition num_field :: "string \<Rightarrow> string \<Rightarrow> int" where
  "num_field s key = (case info_value s key of None \<Rightarrow> 0 | Some v \<Rightarrow> toInt64 (RStr v))"

definition spec_info :: "string \<Rightarrow> ReplicationInfo" where
  "spec_info s = \<lparr>Role = str_field s ''role'', ConnectedSlaves = num_field s ''connected_slaves'',
     MasterHost = str_field s ''master_host'', MasterPort = num_field s ''master_port'',
     MasterLinkStatus = str_field s ''master_link_status'',
     MasterReplOffset = num_field s ''master_repl_offset'',
     SlaveReplOffset = num_field s ''slave_repl_offset''\<rparr>"

lemma parse_info_line_pair:
  "parse_info_line info raw = (case line_pair raw of None \<Rightarrow> info | Some (k, v) \<Rightarrow> set_info_field k v info)"
  by (simp add: parse_info_line_def line_pair_def Let_def)

lemma foldl_parse_lines:
  "foldl parse_info_line info ls =
   foldl (\<lambda>i (k, v). set_info_field k v i) info (List.map_filter line_pair ls)"
  by (induction ls arbitrary: info)
    (auto simp: parse_info_line_pair List.map_filter_def split: option.splits)

text \<open>The record read off an association list, the last entry of a key winning.\<close>

definition record_of :: "(string \<rightharpoonup> string) \<Rightarrow> ReplicationInfo" where
  "record_of m = (let str = (\<lambda>k. case m k of None \<Rightarrow> [] | Some v \<Rightarrow> v);
                      num = (\<lambda>k. case m k of None \<Rightarrow> 0 | Some v \<Rightarrow> toInt64 (RStr v)) in
     \<lparr>Role = str ''role'', ConnectedSlaves = num ''connected_slaves'', MasterHost = str ''master_host'',
      MasterPort = num ''master_port'', MasterLinkStatus = str ''master_link_status'',
      MasterReplOffset = num ''master_repl_offset'', SlaveReplOffset = num ''slave_repl_offset''\<rparr>)"

lemma set_field_record_of: "set_info_field k v (record_of m) = record_of (m(k \<mapsto> v))"
  by (simp add: set_info_field_def record_of_def Let_def)

lemma foldl_set_field:
  "foldl (\<lambda>i (k, v). set_info_field k v i) (record_of m) kvs = record_of (m ++ map_of (rev kvs))"
  by (induction kvs arbitrary: m) (auto simp: set_field_record_of map_add_def fun_eq_iff
      intro!: arg_cong[of _ _ record_of] split: option.splits)

lemma record_of_empty: "empty_ReplicationInfo = record_of Map.empty"
  by (simp add: empty_ReplicationInfo_def record_of_def)

lemma spec_info_record_of: "spec_info s = record_of (info_value s)"
  by (simp add: spec_info_def record_of_def str_field_def num_field_def)

lemma parseReplicationInfo_spec: "parseReplicationInfo s = spec_info s"
  unfolding parseReplicationInfo_def record_of_empty foldl_parse_lines foldl_set_field
    spec_info_record_of
  by (rule arg_cong[of _ _ record_of]) (simp add: info_value_def fun_eq_iff)

lemma toInt64_range: "(\<And>x. v = RInt x \<Longrightarrow> in_int64 x) \<Longrightarrow> in_int64 (toInt64 v)"
  by (cases v) (auto simp: toInt64_def)

section \<open>The text that a server sends\<close>

text \<open>
  The section \<^verbatim>\<open># Replication\<close> of the reply to \<^verbatim>\<open>INFO\<close>, as Redis documents it: a header
  line and a line \<open>key:value\<close> for each field, each ended by CR LF.
\<close>

definition info_line :: "string \<times> string \<Rightarrow> string" where
  "info_line kv = fst kv @ CHR '':'' # snd kv @ crlf"

definition info_fields :: "ReplicationInfo \<Rightarrow> (string \<times> string) list" where
  "info_fields i =
     [(''role'', Role i), (''connected_slaves'', Itoa (ConnectedSlaves i)), (''master_host'', MasterHost i),
      (''master_port'', Itoa (MasterPort i)), (''master_link_status'', MasterLinkStatus i),
      (''slave_repl_offset'', Itoa (SlaveReplOffset i)), (''master_repl_offset'', Itoa (MasterReplOffset i))]"

definition renderInfo :: "ReplicationInfo \<Rightarrow> string" where
  "renderInfo i = ''# Replication'' @ crlf @ concat (map info_line (info_fields i))"

definition printable_info :: "ReplicationInfo \<Rightarrow> bool" where
  "printable_info i \<longleftrightarrow>
     list_all plain (Role i) \<and> list_all plain (MasterHost i) \<and> list_all plain (MasterLinkStatus i) \<and>
     in_int64 (ConnectedSlaves i) \<and> in_int64 (MasterPort i) \<and>
     in_int64 (MasterReplOffset i) \<and> in_int64 (SlaveReplOffset i)"

abbreviation plain_key :: "string \<Rightarrow> bool" where
  "plain_key k \<equiv> k \<noteq> [] \<and> list_all (\<lambda>c. plain c \<and> c \<noteq> CHR '':'' \<and> c \<noteq> CHR ''#'') k"

lemma plain_simps [simp]: "\<not> plain (CHR 0x0A)" "\<not> plain (CHR 0x0D)" "plain (CHR '':'')"
  by (simp_all add: plain_def less_eq_char_def)

lemma line_pair_info:
  assumes "plain_key k" "list_all plain v"
  shows "line_pair (k @ CHR '':'' # v @ [CHR 0x0D]) = Some (k, v)"
proof -
  let ?l = "k @ CHR '':'' # v"
  have "plain (hd ?l)" "plain (last ?l)" "hd ?l \<noteq> CHR ''#''"
    using assms by (cases k; cases v rule: rev_cases; auto)+
  then have "trim_space (?l @ [CHR 0x0D]) = ?l" by (intro trim_space_cr) simp_all
  moreover have "\<not> has_prefix ?l ''#''" using assms(1) by (cases k) (simp_all add: has_prefix_def)
  moreover have "CHR '':'' \<notin> set k" using assms(1) by (auto simp: list_all_iff)
  ultimately show ?thesis by (simp add: line_pair_def cut_append)
qed

abbreviation plain_fields :: "(string \<times> string) list \<Rightarrow> bool" where
  "plain_fields kvs \<equiv> list_all (\<lambda>kv. plain_key (fst kv) \<and> list_all plain (snd kv)) kvs"

abbreviation raw_line :: "string \<times> string \<Rightarrow> string" where
  "raw_line kv \<equiv> fst kv @ CHR '':'' # snd kv @ [CHR 0x0D]"

lemma no_newline:
  "list_all plain s \<Longrightarrow> CHR 0x0A \<notin> set s"
  "list_all (\<lambda>c. plain c \<and> c \<noteq> CHR '':'' \<and> c \<noteq> CHR ''#'') s \<Longrightarrow> CHR 0x0A \<notin> set s"
  by (induction s) auto

lemma split_info_lines:
  "plain_fields kvs \<Longrightarrow>
   split_on (CHR 0x0A) (concat (map info_line kvs)) = map raw_line kvs @ [[]]"
proof (induction kvs)
  case Nil
  then show ?case by simp
next
  case (Cons kv kvs)
  have "CHR 0x0A \<notin> set (raw_line kv)" using Cons.prems by (simp add: no_newline)
  note first = split_on_append[OF this, of "concat (map info_line kvs)"]
  have "concat (map info_line (kv # kvs)) = raw_line kv @ CHR 0x0A # concat (map info_line kvs)"
    by (simp add: info_line_def)
  then show ?case
    using Cons.IH Cons.prems by (simp only: first list.map append_Cons list.pred_inject)
qed

lemma raw_lines_pairs: "plain_fields kvs \<Longrightarrow> List.map_filter line_pair (map raw_line kvs) = kvs"
  by (induction kvs) (auto simp: List.map_filter_def line_pair_info)

lemma Itoa_all_plain: "list_all plain (Itoa n)"
  by (auto simp: list_all_iff dest: Itoa_plain)

lemma printable_fields: "printable_info i \<Longrightarrow> plain_fields (info_fields i)"
  by (simp add: printable_info_def info_fields_def Itoa_all_plain) (simp add: plain_def less_eq_char_def)

lemma toInt64_Itoa: "toInt64 (RStr (Itoa n)) = max int64_min (min int64_max n)"
proof -
  have trim: "trim_space (Itoa n) = Itoa n"
    using Itoa_all_plain[of n] by (intro trim_space_plain) (auto simp: list_all_iff)
  consider "in_int64 n" | "int64_max < n" | "n < int64_min" by linarith
  then show ?thesis
    by cases (simp_all add: toInt64_def trim ParseInt_Itoa ParseInt_Itoa_above ParseInt_Itoa_below)
qed

lemma map_of_fields: "printable_info i \<Longrightarrow> record_of (map_of (rev (info_fields i))) = i"
  by (simp add: record_of_def info_fields_def toInt64_Itoa printable_info_def)

lemma info_value_render:
  assumes "printable_info i"
  shows "info_value (renderInfo i) = map_of (rev (info_fields i))"
proof -
  have "split_on (CHR 0x0A) (renderInfo i) =
      (''# Replication'' @ [CHR 0x0D]) # map raw_line (info_fields i) @ [[]]"
    using split_on_append[of "CHR 0x0A" "''# Replication'' @ [CHR 0x0D]" "concat (map info_line (info_fields i))"]
      split_info_lines[OF printable_fields[OF assms]]
    by (simp add: renderInfo_def)
  moreover have "line_pair (''# Replication'' @ [CHR 0x0D]) = None"
    using trim_space_cr[of "''# Replication''"]
    by (simp add: line_pair_def has_prefix_def plain_def less_eq_char_def)
  moreover have "line_pair [] = None" by (simp add: line_pair_def)
  ultimately have "List.map_filter line_pair (split_on (CHR 0x0A) (renderInfo i)) =
      List.map_filter line_pair (map raw_line (info_fields i))"
    by (simp add: List.map_filter_def)
  then show ?thesis
    unfolding raw_lines_pairs[OF printable_fields[OF assms]] by (simp add: info_value_def fun_eq_iff)
qed

section \<open>Properties\<close>

text \<open>
  C26. \<^verbatim>\<open>parseReplicationInfo\<close> is total, and each field of its result is determined by the
  last line \<open>key:value\<close> of the text with the field's key, whatever else the text contains;
  fields without such a line are zero.
\<close>

theorem parseReplicationInfo_reads_lines: "parseReplicationInfo s = spec_info s"
  by (rule parseReplicationInfo_spec)

text \<open>
  C27. The parser recovers the replication state from the text that a server sends for it, if
  the strings in it are printable ASCII without blanks and the numbers fit 64 bits.
\<close>

theorem info_roundtrip:
  assumes "printable_info i"
  shows "parseReplicationInfo (renderInfo i) = i"
  using assms
  by (simp add: parseReplicationInfo_spec spec_info_record_of info_value_render map_of_fields)

theorem info_roundtrip_witness:
  "parseReplicationInfo (renderInfo \<lparr>Role = ''slave'', ConnectedSlaves = 0, MasterHost = ''10.0.0.7'',
      MasterPort = 6379, MasterLinkStatus = ''up'', MasterReplOffset = 42, SlaveReplOffset = 42\<rparr>) =
   \<lparr>Role = ''slave'', ConnectedSlaves = 0, MasterHost = ''10.0.0.7'', MasterPort = 6379,
    MasterLinkStatus = ''up'', MasterReplOffset = 42, SlaveReplOffset = 42\<rparr>"
  by (rule info_roundtrip) (simp add: printable_info_def plain_def less_eq_char_def)

text \<open>
  A decimal number of any size is read by \<^verbatim>\<open>toInt64\<close> as itself if it fits 64 bits, and as
  the nearest bound otherwise (not as 0).
\<close>

theorem toInt64_saturates: "toInt64 (RStr (Itoa n)) = max int64_min (min int64_max n)"
  by (rule toInt64_Itoa)

text \<open>
  The decoder of \<^verbatim>\<open>ROLE\<close> replies on every shape of reply: it fails unless the reply is an
  array that starts with the string \<^verbatim>\<open>master\<close> or \<^verbatim>\<open>slave\<close>; the offset of a master is its second
  element, and the master's address, the link state and the offset of a replica are its second
  to fifth elements, all of which stay zero when the array is too short.
\<close>

theorem parseRoleReply_cases:
  "parseRoleReply (RArr [RStr ''master'', off, reps]) =
     (Some (empty_RoleInfo\<lparr>ri_Role := ''master'', ri_ReplOffset := toInt64 off\<rparr>), None) \<and>
   parseRoleReply (RArr (RStr ''slave'' # host # port # state # off # tail)) =
     (Some \<lparr>ri_Role = ''slave'', ri_ReplOffset = toInt64 off, ri_MasterHost = str_or_empty host,
            ri_MasterPort = toInt64 port, ri_ReplState = str_or_empty state\<rparr>, None) \<and>
   (length vs < 4 \<longrightarrow> parseRoleReply (RArr (RStr ''slave'' # vs)) =
     (Some (empty_RoleInfo\<lparr>ri_Role := ''slave''\<rparr>), None)) \<and>
   (snd (parseRoleReply v) = None \<longleftrightarrow>
     (\<exists>vs. v = RArr (RStr ''master'' # vs) \<or> v = RArr (RStr ''slave'' # vs)))"
  by (auto simp: parseRoleReply_def empty_RoleInfo_def RoleMaster_def RoleReplica_def Let_def
      split: reply.splits list.splits if_splits)

theorem parseRoleReply_cases_witness:
  "parseRoleReply (RArr [RStr ''slave'']) = (Some (empty_RoleInfo\<lparr>ri_Role := ''slave''\<rparr>), None)"
  using parseRoleReply_cases[where vs = "[]"] by simp

end
