(* ===== verification/World.thy ===== *)
theory World
  imports Redis_Parse
begin

text \<open>
  The outside world the controller talks to: the clock, the Kubernetes API server (through
  client-go) and the network. None of that code is in the repository, so it is a parameter:
  a record of functions that answer each request, where an answer may depend on the whole
  history of events. Every request leaves an event, so that what the controller does to the
  cluster can be read off the history.
\<close>

section \<open>Kubernetes objects\<close>

text \<open>The fields of \<^verbatim>\<open>corev1.Pod\<close> that the repository reads; a Go map is a partial function.\<close>

record k8s_pod =
  kp_Name :: string
  kp_Namespace :: string
  kp_PodIP :: string
  kp_Phase :: string
  kp_Conditions :: "(string \<times> string) list"
  kp_Labels :: "string \<rightharpoonup> string"
  kp_Annotations :: "string \<rightharpoonup> string"

text \<open>\<^verbatim>\<open>discoveryv1.Endpoint\<close>: the ready condition may be absent.\<close>

record endpoint =
  ep_Ready :: "bool option"
  ep_Addresses :: "string list"

text \<open>The JSON value of a patch.\<close>

datatype json = JNull | JStr string | JObj "(string \<times> json) list"

section \<open>Events and answers\<close>

datatype event =
    EvNow
  | EvList string string
  | EvSlices string string
  | EvPatch string string json bool \<comment> \<open>namespace, pod, patch, accepted\<close>
  | EvDial string int
  | EvDeadline string int
  | EvWrite string string \<comment> \<open>address, bytes\<close>
  | EvRecv string
  | EvClose string
  | EvSleep int

record world =
  w_now :: "event list \<Rightarrow> int"
  w_list :: "event list \<Rightarrow> string \<Rightarrow> string \<Rightarrow> string + k8s_pod list"
  w_slices :: "event list \<Rightarrow> string \<Rightarrow> string \<Rightarrow> string + endpoint list list"
  w_patch :: "event list \<Rightarrow> string \<Rightarrow> string \<Rightarrow> json \<Rightarrow> string option"
  w_dial :: "event list \<Rightarrow> string \<Rightarrow> io_error option"
  w_set_deadline :: "event list \<Rightarrow> string \<Rightarrow> int \<Rightarrow> io_error option"
  w_write :: "event list \<Rightarrow> string \<Rightarrow> string \<Rightarrow> io_error option"
  w_recv :: "event list \<Rightarrow> string \<Rightarrow> string \<times> io_error"

type_synonym 'a run = "(event, 'a) io"

text \<open>\<^verbatim>\<open>time.Now()\<close>, in nanoseconds.\<close>

definition now :: "world \<Rightarrow> int run" where
  "now W = interact (w_now W) (\<lambda>_. EvNow)"

text \<open>\<^verbatim>\<open>time.Sleep\<close>; how far the clock has moved afterwards is up to the world.\<close>

definition sleep :: "int \<Rightarrow> unit run" where
  "sleep duration = interact (\<lambda>_. ()) (\<lambda>_. EvSleep duration)"

text \<open>
  A \<open>quiet\<close> event changes nothing in the cluster. The others write bytes to a Redis server
  or patch a Pod.
\<close>

fun quiet :: "event \<Rightarrow> bool" where
  "quiet (EvWrite addr bytes) \<longleftrightarrow> False"
| "quiet (EvPatch ns name patch ok) \<longleftrightarrow> False"
| "quiet _ \<longleftrightarrow> True"

text \<open>The event of sending the command \<open>args\<close> to the server at \<open>addr\<close>.\<close>

abbreviation sent :: "string \<Rightarrow> string list \<Rightarrow> event" where
  "sent addr args \<equiv> EvWrite addr (encodeCommand args)"

lemma emits_now [emits_rules]: "P EvNow \<Longrightarrow> emits P (now W)"
  unfolding now_def by (rule emits_rules)

lemma wp_now [simp]: "wp (now W) Q h = Q (w_now W h) (h @ [EvNow])"
  by (simp add: now_def)

lemma returns_now [returns_rules]: "returns (now W) (\<lambda>_. True)"
  unfolding now_def by (rule returns_rules) simp

text \<open>
  Each answer of a server is one reply, perhaps cut off by the end of the connection, which
  the decoder reads to its end without a panic.
\<close>

definition clean_recv :: "world \<Rightarrow> bool" where
  "clean_recv W \<longleftrightarrow> (\<forall>h addr. \<exists>r. readReply (snd (w_recv W h addr)) (fst (w_recv W h addr)) = (Done r, []))"

end
