(* ===== verification/Pods.thy ===== *)
theory Pods
  imports World "HOL-Library.Product_Lexorder"
begin

text \<open>
  \<^verbatim>\<open>internal/kubernetes/pods.go\<close>: Pod discovery and patching. The clientset is the
  parameter \<open>W\<close>; its \<^verbatim>\<open>List\<close> and \<^verbatim>\<open>Patch\<close> calls are the answers \<open>w_list\<close> and
  \<open>w_patch\<close>. A patch is the JSON value that \<^verbatim>\<open>json.Marshal\<close> encodes, which cannot fail
  for maps of strings. The effect of an accepted patch is the merge patch of RFC 7386,
  given here as a specification (\<open>apply_patch\<close>) to state what the patches achieve.
\<close>

section \<open>Data\<close>

definition LabelRole :: string where
  "LabelRole = ''redis-current-role''"

definition kube_RoleMaster :: string where
  "kube_RoleMaster = ''master''"

definition kube_RoleReplica :: string where
  "kube_RoleReplica = ''replica''"

lemmas role_defs = LabelRole_def kube_RoleMaster_def kube_RoleReplica_def

record Pod =
  Name :: string
  Namespace :: string
  IP :: string
  Ordinal :: int
  Phase :: string
  Ready :: bool
  Labels :: "string \<rightharpoonup> string"
  Annotations :: "string \<rightharpoonup> string"

datatype kube_error =
    ListPodsError string string string
  | PatchPodError string string string
  | ListSlicesError string string

text \<open>Indexing a Go map of strings: a missing key reads as the empty string.\<close>

definition lookup_str :: "(string \<rightharpoonup> string) \<Rightarrow> string \<Rightarrow> string" where
  "lookup_str m k = (case m k of None \<Rightarrow> [] | Some v \<Rightarrow> v)"

definition RoleLabel :: "Pod \<Rightarrow> string" where
  "RoleLabel p = lookup_str (Labels p) LabelRole"

definition SetName :: "Pod \<Rightarrow> string \<Rightarrow> string \<Rightarrow> string" where
  "SetName p key dflt = (let v = lookup_str (Labels p) key in if v \<noteq> [] then v else dflt)"

definition HasMasterLabel :: "Pod \<Rightarrow> bool" where
  "HasMasterLabel p \<longleftrightarrow> lookup_str (Labels p) LabelRole = kube_RoleMaster"

section \<open>From API objects to Pods\<close>

fun ready_from :: "(string \<times> string) list \<Rightarrow> bool" where
  "ready_from [] = False"
| "ready_from ((ty, status) # conds) = (if ty = ''Ready'' then status = ''True'' else ready_from conds)"

definition isReady :: "k8s_pod \<Rightarrow> bool" where
  "isReady p = ready_from (kp_Conditions p)"

definition ordinalFromName :: "string \<Rightarrow> int" where
  "ordinalFromName name = (case after_last (CHR ''-'') name of
      None \<Rightarrow> - 1
    | Some digits \<Rightarrow> if digits = [] then - 1
                     else (case Atoi digits of Inl _ \<Rightarrow> - 1 | Inr n \<Rightarrow> n))"

definition copyMap :: "(string \<rightharpoonup> string) \<Rightarrow> (string \<rightharpoonup> string)" where
  "copyMap m = (\<lambda>k. m k)"

definition toPod :: "k8s_pod \<Rightarrow> Pod" where
  "toPod p = \<lparr>Name = kp_Name p, Namespace = kp_Namespace p, IP = kp_PodIP p,
     Ordinal = ordinalFromName (kp_Name p), Phase = kp_Phase p, Ready = isReady p,
     Labels = copyMap (kp_Labels p), Annotations = copyMap (kp_Annotations p)\<rparr>"

definition FindByIP :: "Pod list \<Rightarrow> string \<Rightarrow> Pod option" where
  "FindByIP pods ip = (if ip = [] then None else find (\<lambda>p. IP p = ip) pods)"

section \<open>Listing\<close>

definition ordinalLess :: "int \<Rightarrow> int \<Rightarrow> bool" where
  "ordinalLess a b = (if a < 0 then False else if b < 0 then True else a < b)"

definition pod_less :: "Pod \<Rightarrow> Pod \<Rightarrow> bool" where
  "pod_less p q =
     (if Namespace p \<noteq> Namespace q then Namespace p < Namespace q
      else if Ordinal p \<noteq> Ordinal q then ordinalLess (Ordinal p) (Ordinal q)
      else Name p < Name q)"

text \<open>The loop over the namespaces stops at the first one that cannot be listed.\<close>

fun list_namespaces :: "world \<Rightarrow> string \<Rightarrow> string list \<Rightarrow> (kube_error + Pod list) run" where
  "list_namespaces W selector [] = ret (Inr [])"
| "list_namespaces W selector (ns # rest) =
     bind_io (interact (\<lambda>h. w_list W h ns selector) (\<lambda>_. EvList ns selector)) (\<lambda>r. case r of
        Inl e \<Rightarrow> ret (Inl (ListPodsError ns selector e))
      | Inr items \<Rightarrow>
          bind_io (list_namespaces W selector rest) (\<lambda>r. ret (bind_err r (\<lambda>pods. Inr (map toPod items @ pods)))))"

definition ListRedisPods :: "world \<Rightarrow> string list \<Rightarrow> string \<Rightarrow> (kube_error + Pod list) run" where
  "ListRedisPods W namespaces selector =
     bind_io (list_namespaces W selector namespaces)
       (\<lambda>r. ret (bind_err r (\<lambda>pods. Inr (go_sort pod_less pods))))"

section \<open>Patching\<close>

definition patch :: "world \<Rightarrow> string \<Rightarrow> string \<Rightarrow> json \<Rightarrow> kube_error option run" where
  "patch W namespace podName data =
     bind_io (interact (\<lambda>h. w_patch W h namespace podName data)
                       (\<lambda>r. EvPatch namespace podName data (r = None)))
       (\<lambda>r. ret (map_option (PatchPodError namespace podName) r))"

definition label_patch :: "json \<Rightarrow> json" where
  "label_patch value = JObj [(''metadata'', JObj [(''labels'', JObj [(LabelRole, value)])])]"

definition SetRoleLabel :: "world \<Rightarrow> string \<Rightarrow> string \<Rightarrow> string \<Rightarrow> kube_error option run" where
  "SetRoleLabel W namespace podName value = patch W namespace podName (label_patch (JStr value))"

definition RemoveRoleLabel :: "world \<Rightarrow> string \<Rightarrow> string \<Rightarrow> kube_error option run" where
  "RemoveRoleLabel W namespace podName = patch W namespace podName (label_patch JNull)"

text \<open>The annotations are given in the order in which \<^verbatim>\<open>json.Marshal\<close> writes a map: by key.\<close>

definition annotation_patch :: "(string \<times> string) list \<Rightarrow> json" where
  "annotation_patch annotations =
     JObj [(''metadata'', JObj [(''annotations'', JObj (map (\<lambda>(k, v). (k, JStr v)) annotations))])]"

definition SetAnnotations ::
  "world \<Rightarrow> string \<Rightarrow> string \<Rightarrow> (string \<times> string) list \<Rightarrow> kube_error option run" where
  "SetAnnotations W namespace podName annotations =
     patch W namespace podName (annotation_patch annotations)"

definition EndpointSliceAddrs :: "world \<Rightarrow> string \<Rightarrow> string \<Rightarrow> (kube_error + string list) run" where
  "EndpointSliceAddrs W namespace serviceName =
     (let selector = ''kubernetes.io/service-name='' @ serviceName in
      bind_io (interact (\<lambda>h. w_slices W h namespace selector) (\<lambda>_. EvSlices namespace selector))
        (\<lambda>r. ret (case r of
           Inl e \<Rightarrow> Inl (ListSlicesError serviceName e)
         | Inr slices \<Rightarrow>
             Inr (concat (map ep_Addresses (filter (\<lambda>ep. ep_Ready ep \<noteq> Some False) (concat slices)))))))"

section \<open>What an accepted patch does\<close>

fun merge_map :: "(string \<rightharpoonup> string) \<Rightarrow> (string \<times> json) list \<Rightarrow> (string \<rightharpoonup> string)" where
  "merge_map m [] = m"
| "merge_map m ((k, v) # kvs) =
     merge_map (case v of JStr s \<Rightarrow> m(k \<mapsto> s) | JNull \<Rightarrow> m(k := None) | JObj _ \<Rightarrow> m) kvs"

definition json_get :: "string \<Rightarrow> json \<Rightarrow> json option" where
  "json_get k j = (case j of JObj kvs \<Rightarrow> map_of kvs k | _ \<Rightarrow> None)"

definition merge_at :: "string \<Rightarrow> json \<Rightarrow> (string \<rightharpoonup> string) \<Rightarrow> (string \<rightharpoonup> string)" where
  "merge_at field data m = (case Option.bind (json_get ''metadata'' data) (json_get field) of
      Some (JObj kvs) \<Rightarrow> merge_map m kvs | _ \<Rightarrow> m)"

definition apply_patch :: "json \<Rightarrow> k8s_pod \<Rightarrow> k8s_pod" where
  "apply_patch data p = p\<lparr>kp_Labels := merge_at ''labels'' data (kp_Labels p),
                          kp_Annotations := merge_at ''annotations'' data (kp_Annotations p)\<rparr>"

text \<open>The Pods of the cluster by namespace and name, and what an event makes of them.\<close>

type_synonym cluster = "string \<times> string \<rightharpoonup> k8s_pod"

fun apply_event :: "event \<Rightarrow> cluster \<Rightarrow> cluster" where
  "apply_event (EvPatch ns name data True) C =
     (case C (ns, name) of None \<Rightarrow> C | Some p \<Rightarrow> C((ns, name) \<mapsto> apply_patch data p))"
| "apply_event _ C = C"

definition replay :: "cluster \<Rightarrow> event list \<Rightarrow> cluster" where
  "replay C es = fold apply_event es C"

text \<open>The value of the role label of a Pod of the cluster.\<close>

definition cluster_role :: "cluster \<Rightarrow> string \<times> string \<Rightarrow> string" where
  "cluster_role C key = (case C key of None \<Rightarrow> [] | Some p \<Rightarrow> lookup_str (kp_Labels p) LabelRole)"

section \<open>Lemmas\<close>

lemma apply_label_patch:
  "apply_patch (label_patch (JStr v)) p = p\<lparr>kp_Labels := (kp_Labels p)(LabelRole \<mapsto> v)\<rparr>"
  "apply_patch (label_patch JNull) p = p\<lparr>kp_Labels := (kp_Labels p)(LabelRole := None)\<rparr>"
  by (simp_all add: apply_patch_def merge_at_def label_patch_def json_get_def)

lemma merge_map_strs:
  "merge_map m (map (\<lambda>(k, v). (k, JStr v)) kvs) = m ++ map_of (rev kvs)"
  by (induction kvs arbitrary: m) (auto simp: map_add_def fun_eq_iff split: option.splits)

lemma apply_annotation_patch:
  "apply_patch (annotation_patch kvs) p = p\<lparr>kp_Annotations := kp_Annotations p ++ map_of (rev kvs)\<rparr>"
  by (simp add: apply_patch_def merge_at_def annotation_patch_def json_get_def merge_map_strs)

lemma replay_Nil [simp]: "replay C [] = C"
  by (simp add: replay_def)

lemma replay_append [simp]: "replay C (es @ es') = replay (replay C es) es'"
  by (simp add: replay_def)

lemma apply_event_quiet: "quiet e \<Longrightarrow> apply_event e C = C"
  by (cases e) auto

lemma apply_event_other:
  "(\<And>data. e \<noteq> EvPatch ns name data True) \<Longrightarrow> apply_event e C (ns, name) = C (ns, name)"
proof (cases e)
  case (EvPatch a b d ok)
  assume "\<And>data. e \<noteq> EvPatch ns name data True"
  with EvPatch show ?thesis by (cases ok) (auto split: option.splits)
qed auto

lemma replay_other:
  "(\<And>data. EvPatch ns name data True \<notin> set es) \<Longrightarrow> replay C es (ns, name) = C (ns, name)"
proof (induction es arbitrary: C)
  case Nil
  then show ?case by simp
next
  case (Cons e es)
  then have "apply_event e C (ns, name) = C (ns, name)"
    by (intro apply_event_other) auto
  with Cons show ?case by (simp add: replay_def)
qed

lemma emits_patch [emits_rules]: "(\<And>ok. P (EvPatch ns name data ok)) \<Longrightarrow> emits P (patch W ns name data)"
  unfolding patch_def by (auto intro!: emits_rules)

lemma emits_list_namespaces [emits_rules]:
  "(\<And>ns. ns \<in> set namespaces \<Longrightarrow> P (EvList ns selector)) \<Longrightarrow> emits P (list_namespaces W selector namespaces)"
  by (induction namespaces) (auto intro!: emits_rules split: sum.splits)

lemma emits_ListRedisPods [emits_rules]:
  "(\<And>ns. ns \<in> set namespaces \<Longrightarrow> P (EvList ns selector)) \<Longrightarrow> emits P (ListRedisPods W namespaces selector)"
  unfolding ListRedisPods_def by (intro emits_rules) auto

lemma Atoi_nonneg: "Atoi s = Inr n \<Longrightarrow> CHR ''-'' \<notin> set s \<Longrightarrow> 0 \<le> n"
  by (cases s) (auto simp: Atoi_def ParseInt_def Let_def split: prod.splits option.splits if_splits)

lemma ordinalFromName_ge: "- 1 \<le> ordinalFromName name"
proof -
  have "CHR ''-'' \<notin> set digits" if "after_last (CHR ''-'') name = Some digits" for digits
    using that by (auto simp: after_last_def dest: set_takeWhileD split: if_splits)
  then show ?thesis
    using Atoi_nonneg by (fastforce simp: ordinalFromName_def split: option.splits sum.splits)
qed

lemma ordinalFromName_statefulset:
  assumes "0 \<le> n" "n \<le> int64_max"
  shows "ordinalFromName (base @ CHR ''-'' # Itoa n) = n"
proof -
  have "CHR ''-'' \<notin> set (Itoa n)"
    using assms by (auto simp: Itoa_def is_digit_def less_eq_char_def dest!: dec_nat_digits)
  then show ?thesis using assms by (simp add: ordinalFromName_def after_last_append)
qed

lemma toPod_ordinal: "- 1 \<le> Ordinal (toPod p)"
  by (simp add: toPod_def ordinalFromName_ge)

definition pod_key :: "Pod \<Rightarrow> string \<times> bool \<times> int \<times> string" where
  "pod_key p = (Namespace p, Ordinal p < 0, Ordinal p, Name p)"

lemma pod_less_key:
  "- 1 \<le> Ordinal p \<Longrightarrow> - 1 \<le> Ordinal q \<Longrightarrow> pod_less p q \<longleftrightarrow> pod_key p < pod_key q"
  by (auto simp: pod_less_def pod_key_def ordinalLess_def)

interpretation pod_order: strict_weak pod_less "\<lambda>p. - 1 \<le> Ordinal p"
  by unfold_locales (auto simp: pod_less_key)

lemma wp_list_namespaces_ordinals:
  "wp (list_namespaces W selector namespaces)
     (\<lambda>r _. \<forall>pods. r = Inr pods \<longrightarrow> list_all (\<lambda>p. - 1 \<le> Ordinal p) pods) h"
proof (induction namespaces arbitrary: h)
  case Nil
  then show ?case by simp
next
  case (Cons ns namespaces)
  have "wp (list_namespaces W selector namespaces)
     (\<lambda>r _. \<forall>pods. bind_err r (\<lambda>pods. Inr (map toPod items @ pods)) = Inr pods \<longrightarrow>
        list_all (\<lambda>p. - 1 \<le> Ordinal p) pods) h'" for items h'
    using Cons.IH by (rule wp_mono) (auto simp: bind_err_eq_Inr list_all_iff toPod_ordinal)
  then show ?case by (auto split: sum.splits)
qed

section \<open>Properties\<close>

text \<open>The lists that the API server answered with, one for each namespace.\<close>

definition listed :: "world \<Rightarrow> string \<Rightarrow> string list \<Rightarrow> k8s_pod list list \<Rightarrow> bool" where
  "listed W selector namespaces itemss \<longleftrightarrow>
     list_all2 (\<lambda>ns items. \<exists>h. w_list W h ns selector = Inr items) namespaces itemss"

lemma wp_list_namespaces:
  "wp (list_namespaces W selector namespaces) (\<lambda>r _. \<forall>pods. r = Inr pods \<longrightarrow>
     (\<exists>itemss. listed W selector namespaces itemss \<and> pods = map toPod (concat itemss))) h"
proof (induction namespaces arbitrary: h)
  case Nil
  then show ?case by (simp add: listed_def)
next
  case (Cons ns namespaces)
  have "wp (list_namespaces W selector namespaces) (\<lambda>r _. \<forall>pods.
     bind_err r (\<lambda>pods. Inr (map toPod items @ pods)) = Inr pods \<longrightarrow>
     (\<exists>itemss. listed W selector (ns # namespaces) itemss \<and> pods = map toPod (concat itemss))) h'"
    if "w_list W h0 ns selector = Inr items" for items h0 h'
  proof (rule wp_mono[OF Cons.IH], intro allI impI)
    fix r pods
    assume r: "\<forall>pods. r = Inr pods \<longrightarrow>
        (\<exists>itemss. listed W selector namespaces itemss \<and> pods = map toPod (concat itemss))"
      and "bind_err r (\<lambda>pods. Inr (map toPod items @ pods)) = (Inr pods :: kube_error + Pod list)"
    then obtain itemss where "listed W selector namespaces itemss" "pods = map toPod items @ map toPod (concat itemss)"
      by (auto simp: bind_err_eq_Inr)
    with that show "\<exists>itemss. listed W selector (ns # namespaces) itemss \<and> pods = map toPod (concat itemss)"
      by (intro exI[of _ "items # itemss"]) (auto simp: listed_def)
  qed
  then show ?case by (auto split: sum.splits)
qed

lemma ListRedisPods_result:
  assumes "ListRedisPods W namespaces selector h = (Done (Inr pods), h')"
  shows "\<exists>itemss. listed W selector namespaces itemss \<and> mset pods = mset (map toPod (concat itemss)) \<and>
    sorted_by pod_less pods \<and> list_all (\<lambda>p. - 1 \<le> Ordinal p) pods"
proof -
  obtain ps where ps: "list_namespaces W selector namespaces h = (Done (Inr ps), h')"
    and pods: "pods = go_sort pod_less ps"
    using assms by (auto simp: ListRedisPods_def io_simps bind_err_eq_Inr split: prod.splits out.splits)
  have ok: "list_all (\<lambda>p. - 1 \<le> Ordinal p) ps"
    using wpD[OF wp_list_namespaces_ordinals ps] by blast
  with wpD[OF wp_list_namespaces ps] pods pod_order.sorted_sort[OF ok] show ?thesis
    by (auto simp: list_all_iff)
qed

text \<open>
  C18. A listing returns exactly the Pods that the API server lists in the configured
  namespaces, none lost and none duplicated, ordered by namespace, then by ordinal with
  unknown ordinals last, then by name.
\<close>

theorem listing_complete_and_sorted:
  assumes "ListRedisPods W namespaces selector h = (Done (Inr pods), h')"
  shows "(\<exists>itemss. listed W selector namespaces itemss \<and> mset pods = mset (map toPod (concat itemss))) \<and>
    sorted_wrt (\<lambda>p q. pod_key p \<le> pod_key q) pods"
proof -
  obtain itemss where i: "listed W selector namespaces itemss" "mset pods = mset (map toPod (concat itemss))"
    and s: "sorted_by pod_less pods" and ok: "list_all (\<lambda>p. - 1 \<le> Ordinal p) pods"
    using ListRedisPods_result[OF assms] by blast
  have "sorted_wrt (\<lambda>p q. pod_key p \<le> pod_key q) pods"
    by (rule sorted_wrt_mono_rel[OF _ s]) (use ok in \<open>auto simp: pod_less_key list_all_iff not_less\<close>)
  with i show ?thesis by blast
qed

lemma list_namespaces_answers:
  assumes "\<And>ns h. ns \<in> set namespaces \<Longrightarrow> w_list W h ns selector = Inr (items ns)"
  shows "list_namespaces W selector namespaces h =
    (Done (Inr (map toPod (concat (map items namespaces)))), h @ map (\<lambda>ns. EvList ns selector) namespaces)"
  using assms
proof (induction namespaces arbitrary: h)
  case Nil
  then show ?case by (simp add: io_simps)
next
  case (Cons ns namespaces)
  then show ?case by (simp add: io_simps)
qed

lemma pod_order_separates:
  assumes "list_all (\<lambda>p. - 1 \<le> Ordinal p) pods" "inj_on (\<lambda>p. (Namespace p, Name p)) (set pods)"
    and "x \<in> set pods" "y \<in> set pods" "\<not> pod_less x y" "\<not> pod_less y x"
  shows "x = y"
proof -
  have "pod_key x = pod_key y" using assms(1,3-6) by (auto simp: pod_less_key list_all_iff)
  then show ?thesis using assms(2-4) by (auto simp: pod_key_def inj_on_def)
qed

lemma go_sort_of_items:
  assumes "inj_on (\<lambda>p. (kp_Namespace p, kp_Name p)) (set items)"
    and "mset ys = mset (map toPod items)" "sorted_by pod_less ys"
  shows "ys = go_sort pod_less (map toPod items)"
proof (rule pod_order.sort_unique[OF _ assms(2,3)])
  show ok: "list_all (\<lambda>p. - 1 \<le> Ordinal p) (map toPod items)" by (simp add: list_all_iff toPod_ordinal)
  have "inj_on (\<lambda>p. (Namespace p, Name p)) (set (map toPod items))"
  proof (rule inj_onI)
    fix x y
    assume "x \<in> set (map toPod items)" "y \<in> set (map toPod items)" and eq: "(Namespace x, Name x) = (Namespace y, Name y)"
    then obtain a b where ab: "a \<in> set items" "b \<in> set items" "x = toPod a" "y = toPod b" by auto
    with eq have "(kp_Namespace a, kp_Name a) = (kp_Namespace b, kp_Name b)" by (simp add: toPod_def)
    with ab assms(1) show "x = y" by (auto dest: inj_onD)
  qed
  from pod_order_separates[OF ok this] show "x = y"
    if "x \<in> set (map toPod items)" "y \<in> set (map toPod items)" "\<not> pod_less x y" "\<not> pod_less y x" for x y
    using that by blast
qed

text \<open>
  C19. A listing depends neither on the order of the API server's answers nor on the sorting
  algorithm: if two API servers answer with the same Pods for each namespace, in whatever order, and
  no two Pods share namespace and name, both listings return the same list; and every
  permutation of the Pods that \<^verbatim>\<open>sort.Slice\<close> may leave, that is, every one in which no Pod is less than
  an earlier one, is this list.
\<close>

theorem listing_canonical:
  assumes "\<forall>ns \<in> set namespaces. \<forall>h. w_list W1 h ns selector = Inr (items1 ns) \<and> w_list W2 h ns selector = Inr (items2 ns)"
    and "\<forall>ns \<in> set namespaces. mset (items1 ns) = mset (items2 ns)"
    and "inj_on (\<lambda>p. (kp_Namespace p, kp_Name p)) (set (concat (map items1 namespaces)))"
  shows "\<exists>pods. ListRedisPods W1 namespaces selector h1 =
        (Done (Inr pods), h1 @ map (\<lambda>ns. EvList ns selector) namespaces) \<and>
      ListRedisPods W2 namespaces selector h2 =
        (Done (Inr pods), h2 @ map (\<lambda>ns. EvList ns selector) namespaces) \<and>
      (\<forall>ys. mset ys = mset (map toPod (concat (map items1 namespaces))) \<and> sorted_by pod_less ys \<longleftrightarrow> ys = pods)"
proof -
  let ?all1 = "concat (map items1 namespaces)" and ?all2 = "concat (map items2 namespaces)"
  have same: "mset (map toPod ?all2) = mset (map toPod ?all1)"
    using assms(2) by (simp add: mset_concat o_def cong: map_cong)
  have sorted: "sorted_by pod_less (go_sort pod_less (map toPod xs))" for xs
    by (rule pod_order.sorted_sort) (simp add: list_all_iff toPod_ordinal)
  note unique = go_sort_of_items[OF assms(3)]
  have "go_sort pod_less (map toPod ?all2) = go_sort pod_less (map toPod ?all1)"
    by (rule unique) (use same sorted in \<open>simp_all only: mset_go_sort\<close>)
  moreover have "ListRedisPods W1 namespaces selector h1 =
      (Done (Inr (go_sort pod_less (map toPod ?all1))), h1 @ map (\<lambda>ns. EvList ns selector) namespaces)"
    using assms(1) by (simp add: ListRedisPods_def io_simps list_namespaces_answers[where items = items1])
  moreover have "ListRedisPods W2 namespaces selector h2 =
      (Done (Inr (go_sort pod_less (map toPod ?all2))), h2 @ map (\<lambda>ns. EvList ns selector) namespaces)"
    using assms(1) by (simp add: ListRedisPods_def io_simps list_namespaces_answers[where items = items2])
  ultimately show ?thesis using unique sorted mset_go_sort by metis
qed

text \<open>
  C21. The ordinal of a Pod of a StatefulSet is read from its name: whatever the set's name is,
  the number after the last dash is found.
\<close>

theorem ordinal_roundtrip:
  assumes "0 \<le> n" "n \<le> int64_max"
  shows "ordinalFromName (base @ ''-'' @ Itoa n) = n"
  using ordinalFromName_statefulset[OF assms, of base] by simp

theorem ordinal_roundtrip_witness: "ordinalFromName (''redis-cache'' @ ''-'' @ Itoa 12) = 12"
  by (rule ordinal_roundtrip) simp_all

text \<open>
  C20. What the patches do when the API server accepts them: \<^verbatim>\<open>SetRoleLabel\<close> sets the role label of
  the named Pod and \<^verbatim>\<open>RemoveRoleLabel\<close> removes it, \<^verbatim>\<open>SetAnnotations\<close> adds the given annotations,
  and all other labels, annotations and Pods stay as they are. A patch that is refused is
  reported and changes nothing.
\<close>

theorem patches_do_what_they_say:
  fixes C :: cluster
  assumes "C (ns, name) = Some kp"
  shows "(\<exists>err ok. SetRoleLabel W ns name v h = (Done err, h @ [EvPatch ns name (label_patch (JStr v)) ok]) \<and>
      (err = None \<longleftrightarrow> ok) \<and>
      apply_event (EvPatch ns name (label_patch (JStr v)) ok) C =
        (if ok then C((ns, name) \<mapsto> kp\<lparr>kp_Labels := (kp_Labels kp)(LabelRole \<mapsto> v)\<rparr>) else C)) \<and>
    (\<exists>err ok. RemoveRoleLabel W ns name h = (Done err, h @ [EvPatch ns name (label_patch JNull) ok]) \<and>
      (err = None \<longleftrightarrow> ok) \<and>
      apply_event (EvPatch ns name (label_patch JNull) ok) C =
        (if ok then C((ns, name) \<mapsto> kp\<lparr>kp_Labels := (kp_Labels kp)(LabelRole := None)\<rparr>) else C)) \<and>
    (\<exists>err ok. SetAnnotations W ns name kvs h = (Done err, h @ [EvPatch ns name (annotation_patch kvs) ok]) \<and>
      (err = None \<longleftrightarrow> ok) \<and>
      apply_event (EvPatch ns name (annotation_patch kvs) ok) C =
        (if ok then C((ns, name) \<mapsto> kp\<lparr>kp_Annotations := kp_Annotations kp ++ map_of (rev kvs)\<rparr>) else C))"
proof -
  have patch: "\<exists>err ok. patch W ns name data h = (Done err, h @ [EvPatch ns name data ok]) \<and> (err = None \<longleftrightarrow> ok) \<and>
      apply_event (EvPatch ns name data ok) C = (if ok then C((ns, name) \<mapsto> apply_patch data kp) else C)" for data
    using assms by (auto simp: patch_def io_simps)
  from patch[of "label_patch (JStr v)"] patch[of "label_patch JNull"] patch[of "annotation_patch kvs"]
  show ?thesis
    by (simp only: SetRoleLabel_def RemoveRoleLabel_def SetAnnotations_def apply_label_patch
        apply_annotation_patch conj_assoc)
qed

end
