(* ===== verification/Config.thy ===== *)
theory Config
  imports Go_Strings
begin

text \<open>
  \<^verbatim>\<open>internal/config/config.go\<close>: the configuration read from the environment.

  The environment is a partial function (\<^verbatim>\<open>os.LookupEnv\<close>), the host name is an option
  (\<open>None\<close> when \<^verbatim>\<open>os.Hostname\<close> fails), and the Unicode case tables that
  \<^verbatim>\<open>strings.ToLower\<close> consults for non-ASCII text are the argument \<open>unicode_lower\<close>.
  Durations are nanoseconds in 64 bits, and their multiplication wraps.
\<close>

section \<open>Constants and data\<close>

definition AnnotationPreferredMaster :: string where
  "AnnotationPreferredMaster = ''redis-controller/preferred-master''"

definition AnnotationFailoverEpoch :: string where
  "AnnotationFailoverEpoch = ''redis-controller/failover-epoch''"

definition AnnotationPromotedAt :: string where
  "AnnotationPromotedAt = ''redis-controller/promoted-at''"

definition StrategyFirstHealthy :: string where
  "StrategyFirstHealthy = ''first-healthy''"

definition StrategyLowestPodOrdinal :: string where
  "StrategyLowestPodOrdinal = ''lowest-pod-ordinal''"

definition StrategyAnnotationPreferred :: string where
  "StrategyAnnotationPreferred = ''annotation-preferred''"

lemmas strategy_defs = StrategyFirstHealthy_def StrategyLowestPodOrdinal_def
  StrategyAnnotationPreferred_def

record Config =
  RedisNamespace :: string
  RedisNamespaces :: "string list"
  RedisPodLabelSelector :: string
  RedisPort :: int
  RedisWriteServiceName :: string
  ReconcileInterval :: int
  MasterFailureThreshold :: int
  RedisConnectTimeout :: int
  RedisCommandTimeout :: int
  ControllerID :: string
  EnableLeaderElection :: bool
  LeaseName :: string
  LeaseNamespace :: string
  InitialMasterStrategy :: string
  RedisSetLabelKey :: string
  DefaultSetName :: string
  ProbeConcurrency :: int
  ConfigRewrite :: bool
  HealthProbeAddr :: string

datatype config_error =
    InvalidInteger string string
  | NegativeSeconds string
  | InvalidBoolean string string
  | PortOutOfRange int
  | EmptyPodLabelSelector
  | EmptyNamespace
  | NoNamespaces
  | EmptySetLabelKey
  | EmptyDefaultSetName
  | BadProbeConcurrency
  | InvalidStrategy string
  | BadReconcileInterval
  | BadCommandTimeout

section \<open>Reading single variables\<close>

type_synonym environ = "string \<rightharpoonup> string"

definition getEnv :: "environ \<Rightarrow> string \<Rightarrow> string \<Rightarrow> string" where
  "getEnv env key dflt = (case env key of Some v \<Rightarrow> if v \<noteq> [] then v else dflt | None \<Rightarrow> dflt)"

definition getEnvInt :: "environ \<Rightarrow> string \<Rightarrow> int \<Rightarrow> config_error + int" where
  "getEnvInt env key dflt = (case env key of
      None \<Rightarrow> Inr dflt
    | Some v \<Rightarrow>
        if v = [] then Inr dflt
        else (case Atoi (trim_space v) of Inl _ \<Rightarrow> Inl (InvalidInteger key v) | Inr n \<Rightarrow> Inr n))"

definition getEnvSeconds :: "environ \<Rightarrow> string \<Rightarrow> int \<Rightarrow> config_error + int" where
  "getEnvSeconds env key dflt = (case getEnvInt env key dflt of
      Inl e \<Rightarrow> Inl e
    | Inr n \<Rightarrow> if n < 0 then Inl (NegativeSeconds key) else Inr (wrap64 (n * 1000000000)))"

definition getEnvBool :: "environ \<Rightarrow> string \<Rightarrow> bool \<Rightarrow> config_error + bool" where
  "getEnvBool env key dflt = (case env key of
      None \<Rightarrow> Inr dflt
    | Some v \<Rightarrow>
        if v = [] then Inr dflt
        else (case ParseBool (trim_space v) of Inl _ \<Rightarrow> Inl (InvalidBoolean key v) | Inr b \<Rightarrow> Inr b))"

definition defaultControllerID :: "string option \<Rightarrow> string" where
  "defaultControllerID hostname =
     (case hostname of Some h \<Rightarrow> if h \<noteq> [] then h else ''redis-replication-controller''
                     | None \<Rightarrow> ''redis-replication-controller'')"

text \<open>The loop of \<^verbatim>\<open>parseNamespaces\<close>; \<open>seen\<close> holds the names already taken.\<close>

fun collect_namespaces :: "string set \<Rightarrow> string list \<Rightarrow> string list" where
  "collect_namespaces seen [] = []"
| "collect_namespaces seen (raw # rest) =
     (let p = trim_space raw in
      if p = [] \<or> p \<in> seen then collect_namespaces seen rest
      else p # collect_namespaces (insert p seen) rest)"

definition parseNamespaces :: "string \<Rightarrow> string \<Rightarrow> string list" where
  "parseNamespaces csv fallback =
     (let out = collect_namespaces {} (split_on (CHR '','') csv)
      in if out = [] then [fallback] else out)"

section \<open>Validation and loading\<close>

definition validate :: "Config \<Rightarrow> config_error option" where
  "validate c =
     (if RedisPort c < 1 \<or> 65535 < RedisPort c then Some (PortOutOfRange (RedisPort c))
      else if trim_space (RedisPodLabelSelector c) = [] then Some EmptyPodLabelSelector
      else if trim_space (RedisNamespace c) = [] then Some EmptyNamespace
      else if RedisNamespaces c = [] then Some NoNamespaces
      else if trim_space (RedisSetLabelKey c) = [] then Some EmptySetLabelKey
      else if trim_space (DefaultSetName c) = [] then Some EmptyDefaultSetName
      else if ProbeConcurrency c < 1 then Some BadProbeConcurrency
      else if InitialMasterStrategy c \<notin>
                {StrategyFirstHealthy, StrategyLowestPodOrdinal, StrategyAnnotationPreferred}
        then Some (InvalidStrategy (InitialMasterStrategy c))
      else if ReconcileInterval c \<le> 0 then Some BadReconcileInterval
      else if RedisCommandTimeout c \<le> 0 then Some BadCommandTimeout
      else None)"

text \<open>
  \<^verbatim>\<open>Load\<close> returns no configuration when a variable cannot be read (\<open>Inl\<close>), and otherwise the
  configuration together with the verdict of \<open>validate\<close>.
\<close>

definition Load ::
  "(string \<Rightarrow> string) \<Rightarrow> environ \<Rightarrow> string option \<Rightarrow> config_error + Config \<times> config_error option" where
  "Load unicode_lower env hostname =
     (let ns = getEnv env ''REDIS_NAMESPACE'' ''default'' in
      bind_err (getEnvInt env ''REDIS_PORT'' 6379) (\<lambda>port.
      bind_err (getEnvInt env ''PROBE_CONCURRENCY'' 16) (\<lambda>conc.
      bind_err (getEnvSeconds env ''RECONCILE_INTERVAL_SECONDS'' 10) (\<lambda>interval.
      bind_err (getEnvSeconds env ''MASTER_FAILURE_THRESHOLD_SECONDS'' 15) (\<lambda>threshold.
      bind_err (getEnvSeconds env ''REDIS_CONNECT_TIMEOUT_SECONDS'' 2) (\<lambda>connect.
      bind_err (getEnvSeconds env ''REDIS_COMMAND_TIMEOUT_SECONDS'' 2) (\<lambda>command.
      bind_err (getEnvBool env ''ENABLE_LEADER_ELECTION'' True) (\<lambda>leader.
      bind_err (getEnvBool env ''ENABLE_CONFIG_REWRITE'' False) (\<lambda>rewrite.
      let c = \<lparr>RedisNamespace = ns,
               RedisNamespaces = parseNamespaces (getEnv env ''REDIS_NAMESPACES'' []) ns,
               RedisPodLabelSelector = getEnv env ''REDIS_POD_LABEL_SELECTOR'' ''app=redis'',
               RedisPort = port,
               RedisWriteServiceName = getEnv env ''REDIS_WRITE_SERVICE_NAME'' ''redis-write'',
               ReconcileInterval = interval,
               MasterFailureThreshold = threshold,
               RedisConnectTimeout = connect,
               RedisCommandTimeout = command,
               ControllerID = getEnv env ''CONTROLLER_ID'' (defaultControllerID hostname),
               EnableLeaderElection = leader,
               LeaseName = getEnv env ''LEASE_NAME'' ''redis-replication-controller'',
               LeaseNamespace = getEnv env ''LEASE_NAMESPACE'' ns,
               InitialMasterStrategy =
                 to_lower unicode_lower (getEnv env ''INITIAL_MASTER_STRATEGY'' StrategyLowestPodOrdinal),
               RedisSetLabelKey = getEnv env ''REDIS_SET_LABEL_KEY'' ''redis-set'',
               DefaultSetName = getEnv env ''DEFAULT_SET_NAME'' ''default'',
               ProbeConcurrency = conc,
               ConfigRewrite = rewrite,
               HealthProbeAddr = getEnv env ''HEALTH_PROBE_ADDR'' '':8081''\<rparr>
      in Inr (c, validate c))))))))))"

section \<open>Namespaces\<close>

text \<open>The reference: the non-blank trimmed parts, each at its first occurrence.\<close>

definition first_occurrences :: "'a list \<Rightarrow> 'a list" where
  "first_occurrences xs = rev (remdups (rev xs))"

lemma remdups_snoc: "remdups (ys @ [x]) = filter (\<lambda>y. y \<noteq> x) (remdups ys) @ [x]"
  by (induction ys) auto

lemma first_occurrences_Cons:
  "first_occurrences (x # xs) = x # filter (\<lambda>y. y \<noteq> x) (first_occurrences xs)"
  by (simp add: first_occurrences_def remdups_snoc rev_filter)

lemma collect_namespaces_eq:
  "collect_namespaces seen raws =
   filter (\<lambda>p. p \<notin> seen) (first_occurrences (filter (\<lambda>p. p \<noteq> []) (map trim_space raws)))"
proof (induction raws arbitrary: seen)
  case Nil
  then show ?case by (simp add: first_occurrences_def)
next
  case (Cons raw raws)
  then show ?case
    by (auto simp: Let_def first_occurrences_Cons intro!: filter_cong)
qed

lemma parseNamespaces_eq:
  "parseNamespaces csv fallback =
   (let parts = filter (\<lambda>p. p \<noteq> []) (map trim_space (split_on (CHR '','') csv))
    in if parts = [] then [fallback] else first_occurrences parts)"
  by (auto simp: parseNamespaces_def collect_namespaces_eq first_occurrences_def Let_def)

section \<open>Facts about loaded configurations\<close>

lemma Load_validates: "Load ul env hostname = Inr (c, err) \<Longrightarrow> err = validate c"
  by (auto simp: Load_def Let_def bind_err_eq_Inr)

lemma Load_namespaces:
  "Load ul env hostname = Inr (c, err) \<Longrightarrow>
   RedisNamespaces c = parseNamespaces (getEnv env ''REDIS_NAMESPACES'' []) (RedisNamespace c)"
  by (auto simp: Load_def Let_def bind_err_eq_Inr)

lemma getEnvSeconds_exact:
  assumes "getEnvInt env key dflt = Inr n" "0 \<le> n" "n \<le> 9223372036"
  shows "getEnvSeconds env key dflt = Inr (n * 1000000000)"
  using assms by (simp add: getEnvSeconds_def)

section \<open>Properties\<close>

lemma collect_distinct: "distinct (collect_namespaces seen raws)"
  by (simp add: collect_namespaces_eq first_occurrences_def)

lemma collect_trimmed: "p \<in> set (collect_namespaces seen raws) \<Longrightarrow> p \<noteq> [] \<and> trim_space p = p"
  by (auto simp: collect_namespaces_eq first_occurrences_def)

lemma parseNamespaces_props:
  "parseNamespaces csv fallback \<noteq> []" "distinct (parseNamespaces csv fallback)"
  "p \<in> set (parseNamespaces csv fallback) \<Longrightarrow> p = fallback \<or> p \<noteq> [] \<and> trim_space p = p"
  using collect_distinct collect_trimmed by (auto simp: parseNamespaces_def Let_def split: if_splits)

text \<open>
  A duration that \<^verbatim>\<open>getEnvSeconds\<close> has read: a number of seconds that is not negative, in
  nanoseconds as 64 bits hold them.
\<close>

definition from_seconds :: "environ \<Rightarrow> string \<Rightarrow> int \<Rightarrow> int \<Rightarrow> bool" where
  "from_seconds env key dflt duration \<longleftrightarrow>
     (\<exists>n. getEnvInt env key dflt = Inr n \<and> 0 \<le> n \<and> duration = wrap64 (n * 1000000000))"

lemma getEnvSeconds_from: "getEnvSeconds env key dflt = Inr d \<Longrightarrow> from_seconds env key dflt d"
  by (auto simp: getEnvSeconds_def from_seconds_def split: sum.splits if_splits)

lemma Load_durations:
  "Load ul env hostname = Inr (c, err) \<Longrightarrow>
     from_seconds env ''RECONCILE_INTERVAL_SECONDS'' 10 (ReconcileInterval c) \<and>
     from_seconds env ''MASTER_FAILURE_THRESHOLD_SECONDS'' 15 (MasterFailureThreshold c) \<and>
     from_seconds env ''REDIS_CONNECT_TIMEOUT_SECONDS'' 2 (RedisConnectTimeout c) \<and>
     from_seconds env ''REDIS_COMMAND_TIMEOUT_SECONDS'' 2 (RedisCommandTimeout c)"
  unfolding Load_def Let_def bind_err_eq_Inr by (auto dest!: getEnvSeconds_from)

text \<open>
  C30. What \<^verbatim>\<open>Load\<close> has checked of a configuration that it returns without an error: the port is a TCP
  port; the namespace is not blank; the namespaces to search are at least one, none twice and
  none blank; the label selector, the set label and the default set name are not blank; at
  least one Pod may be probed at a time; the strategy is one of the three known ones; the
  reconcile interval and the command timeout are positive; and each of the four durations was
  given as a number of seconds that is not negative. (That the product in nanoseconds is not
  negative is checked for the interval and the command timeout only.)
\<close>

theorem loaded_config_usable:
  assumes "Load ul env hostname = Inr (c, None)"
  shows "1 \<le> RedisPort c \<and> RedisPort c \<le> 65535 \<and> trim_space (RedisNamespace c) \<noteq> [] \<and>
    RedisNamespaces c \<noteq> [] \<and> distinct (RedisNamespaces c) \<and>
    (\<forall>ns \<in> set (RedisNamespaces c). trim_space ns \<noteq> []) \<and>
    trim_space (RedisPodLabelSelector c) \<noteq> [] \<and> trim_space (RedisSetLabelKey c) \<noteq> [] \<and>
    trim_space (DefaultSetName c) \<noteq> [] \<and> 1 \<le> ProbeConcurrency c \<and>
    InitialMasterStrategy c \<in> {StrategyFirstHealthy, StrategyLowestPodOrdinal, StrategyAnnotationPreferred} \<and>
    0 < ReconcileInterval c \<and> 0 < RedisCommandTimeout c \<and>
    from_seconds env ''RECONCILE_INTERVAL_SECONDS'' 10 (ReconcileInterval c) \<and>
    from_seconds env ''MASTER_FAILURE_THRESHOLD_SECONDS'' 15 (MasterFailureThreshold c) \<and>
    from_seconds env ''REDIS_CONNECT_TIMEOUT_SECONDS'' 2 (RedisConnectTimeout c) \<and>
    from_seconds env ''REDIS_COMMAND_TIMEOUT_SECONDS'' 2 (RedisCommandTimeout c)"
proof -
  have v: "validate c = None" using Load_validates[OF assms] by simp
  have ns: "RedisNamespaces c = parseNamespaces (getEnv env ''REDIS_NAMESPACES'' []) (RedisNamespace c)"
    using assms by (rule Load_namespaces)
  have "trim_space (RedisNamespace c) \<noteq> []" using v by (auto simp: validate_def split: if_splits)
  then have "trim_space p \<noteq> []" if "p \<in> set (RedisNamespaces c)" for p
    using parseNamespaces_props(3)[OF that[unfolded ns]] by auto
  moreover have "distinct (RedisNamespaces c)" unfolding ns by (rule parseNamespaces_props(2))
  ultimately show ?thesis
    using v Load_durations[OF assms] by (simp add: validate_def split: if_splits)
qed

text \<open>
  The namespaces that are searched: the parts of the comma-separated list with blanks
  trimmed, empty parts dropped and each name kept at its first occurrence, and the fallback
  alone when nothing is left.
\<close>

theorem parseNamespaces_reference:
  "parseNamespaces csv fallback =
   (let parts = filter (\<lambda>p. p \<noteq> []) (map trim_space (split_on (CHR '','') csv))
    in if parts = [] then [fallback] else first_occurrences parts)"
  by (rule parseNamespaces_eq)

lemma default_strategy: "to_lower ul StrategyLowestPodOrdinal = StrategyLowestPodOrdinal"
  by (simp add: to_lower_def strategy_defs ascii_lower_def less_char_def less_eq_char_def)

lemmas plain_eval = trim_space_plain plain_def less_eq_char_def

text \<open>
  Without any variable set, the configuration is valid and has the documented defaults.
\<close>

theorem load_defaults:
  "Load ul Map.empty hostname = Inr
    (\<lparr>RedisNamespace = ''default'', RedisNamespaces = [''default''], RedisPodLabelSelector = ''app=redis'',
      RedisPort = 6379, RedisWriteServiceName = ''redis-write'', ReconcileInterval = 10000000000,
      MasterFailureThreshold = 15000000000, RedisConnectTimeout = 2000000000, RedisCommandTimeout = 2000000000,
      ControllerID = defaultControllerID hostname, EnableLeaderElection = True,
      LeaseName = ''redis-replication-controller'', LeaseNamespace = ''default'',
      InitialMasterStrategy = StrategyLowestPodOrdinal, RedisSetLabelKey = ''redis-set'',
      DefaultSetName = ''default'', ProbeConcurrency = 16, ConfigRewrite = False,
      HealthProbeAddr = '':8081''\<rparr>, None)"
  by (simp add: Load_def getEnv_def getEnvInt_def getEnvSeconds_def getEnvBool_def parseNamespaces_def
      default_strategy validate_def plain_eval Let_def)

text \<open>
  A number of seconds becomes that many nanoseconds exactly up to 9223372036 seconds; a
  larger number wraps around and becomes another duration.
\<close>

theorem seconds_exact:
  assumes "getEnvInt env key dflt = Inr n" "0 \<le> n"
  shows "getEnvSeconds env key dflt = Inr (n * 1000000000) \<longleftrightarrow> n \<le> 9223372036"
proof
  show "getEnvSeconds env key dflt = Inr (n * 1000000000)" if "n \<le> 9223372036"
    using assms that by (intro getEnvSeconds_exact)
  show "n \<le> 9223372036" if "getEnvSeconds env key dflt = Inr (n * 1000000000)"
  proof -
    have "wrap64 (n * 1000000000) = n * 1000000000"
      using that assms by (simp add: getEnvSeconds_def)
    then have "n * 1000000000 \<le> int64_max" by (metis wrap64_in_int64(2))
    then show ?thesis by simp
  qed
qed

theorem seconds_exact_witness:
  "getEnvSeconds Map.empty ''K'' 15 = Inr (15 * 1000000000) \<longleftrightarrow> (15::int) \<le> 9223372036"
  by (rule seconds_exact) (simp_all add: getEnvInt_def)

lemma Itoa_trim: "trim_space (Itoa n) = Itoa n"
  by (rule trim_space_plain) (auto intro!: Itoa_plain hd_in_set last_in_set)

lemma getEnvSeconds_Itoa:
  "in_int64 n \<Longrightarrow> 0 \<le> n \<Longrightarrow> env key = Some (Itoa n) \<Longrightarrow> getEnvSeconds env key dflt = Inr (wrap64 (n * 1000000000))"
  by (simp add: getEnvSeconds_def getEnvInt_def Itoa_trim)

lemma other_variable:
  assumes "k \<noteq> key"
  shows "getEnv (env(key \<mapsto> v)) k = getEnv env k" "getEnvInt (env(key \<mapsto> v)) k = getEnvInt env k"
    "getEnvSeconds (env(key \<mapsto> v)) k = getEnvSeconds env k" "getEnvBool (env(key \<mapsto> v)) k = getEnvBool env k"
  using assms by (simp_all add: fun_eq_iff getEnv_def getEnvInt_def getEnvSeconds_def getEnvBool_def)

lemma Load_threshold:
  assumes "Load ul env hostname = Inr (c, err)" "0 \<le> n" "n \<le> int64_max"
  shows "Load ul (env(''MASTER_FAILURE_THRESHOLD_SECONDS'' \<mapsto> Itoa n)) hostname =
    Inr (c\<lparr>MasterFailureThreshold := wrap64 (n * 1000000000)\<rparr>, err)"
proof -
  have set: "getEnvSeconds (env(''MASTER_FAILURE_THRESHOLD_SECONDS'' \<mapsto> Itoa n)) ''MASTER_FAILURE_THRESHOLD_SECONDS'' 15 =
      Inr (wrap64 (n * 1000000000))"
    using assms(2,3) by (intro getEnvSeconds_Itoa) auto
  have "validate (c\<lparr>MasterFailureThreshold := t\<rparr>) = validate c" for t
    by (simp add: validate_def)
  with assms(1) show ?thesis
    unfolding Load_def Let_def bind_err_eq_Inr by (auto simp: set other_variable)
qed

text \<open>
  C31. The failure threshold is not protected against overflow: whatever the other variables
  are, if they make a valid configuration, then every number of seconds from 9223372037 to the
  largest 64-bit integer is accepted for the threshold as well, and the threshold of the
  configuration is not that many seconds; up to 18446744073 seconds it is negative.
\<close>

theorem threshold_overflow_accepted:
  assumes "Load ul env hostname = Inr (c, None)" "9223372037 \<le> n" "n \<le> int64_max"
  shows "\<exists>t. Load ul (env(''MASTER_FAILURE_THRESHOLD_SECONDS'' \<mapsto> Itoa n)) hostname =
      Inr (c\<lparr>MasterFailureThreshold := t\<rparr>, None) \<and>
    t < n * 1000000000 \<and> (n \<le> 18446744073 \<longrightarrow> t < 0)"
proof (intro exI conjI impI)
  let ?t = "wrap64 (n * 1000000000)"
  show "Load ul (env(''MASTER_FAILURE_THRESHOLD_SECONDS'' \<mapsto> Itoa n)) hostname = Inr (c\<lparr>MasterFailureThreshold := ?t\<rparr>, None)"
    using assms by (intro Load_threshold) auto
  show "?t < n * 1000000000" using wrap64_in_int64(2)[of "n * 1000000000"] assms(2) by linarith
  show "?t < 0" if "n \<le> 18446744073"
  proof -
    have "(n * 1000000000 + 9223372036854775808) mod 18446744073709551616 =
        (n * 1000000000 - 9223372036854775808) mod 18446744073709551616"
      by (simp add: mod_eq_dvd_iff)
    also have "\<dots> = n * 1000000000 - 9223372036854775808" using assms(2) that by (intro mod_pos_pos_trivial) auto
    finally show ?thesis using that by (simp add: wrap64_def)
  qed
qed

theorem threshold_overflow_accepted_witness:
  "\<exists>c t. Load id [''MASTER_FAILURE_THRESHOLD_SECONDS'' \<mapsto> Itoa 9223372037] None = Inr (c\<lparr>MasterFailureThreshold := t\<rparr>, None) \<and> t < 0"
proof -
  obtain c where "Load id Map.empty None = Inr (c, None)" using load_defaults[of id None] by blast
  from threshold_overflow_accepted[OF this, of 9223372037] show ?thesis by auto
qed

theorem loaded_config_usable_witness:
  "\<exists>c. Load id Map.empty None = Inr (c, None) \<and> 1 \<le> RedisPort c \<and> distinct (RedisNamespaces c) \<and>
     0 < ReconcileInterval c"
proof -
  obtain c where c: "Load id Map.empty None = Inr (c, None)"
    by (simp add: Load_def getEnv_def getEnvInt_def getEnvSeconds_def getEnvBool_def parseNamespaces_def
      default_strategy validate_def plain_eval Let_def)
  with loaded_config_usable[OF c] show ?thesis by simp
qed

end
