(* ===== verification/Selection.thy ===== *)
theory Selection
  imports Pods Config
begin

text \<open>
  The decisions of \<^verbatim>\<open>internal/controller/controller.go\<close>: which Pod becomes master, how
  Pods are grouped into replication sets, and which epoch comes next. A Go map of groups is
  an association list with distinct keys; the order in which Go iterates over it is shown
  not to matter.
\<close>

section \<open>Replication sets\<close>

datatype setKey = SetKey (key_namespace: string) (key_name: string)

text \<open>The order of \<^verbatim>\<open>sortedKeys\<close>: by namespace, then by set name.\<close>

definition key_less :: "setKey \<Rightarrow> setKey \<Rightarrow> bool" where
  "key_less a b = (if key_namespace a \<noteq> key_namespace b then key_namespace a < key_namespace b
                   else key_name a < key_name b)"

instantiation setKey :: linorder
begin

definition less_setKey :: "setKey \<Rightarrow> setKey \<Rightarrow> bool" where
  "less_setKey a b = key_less a b"

definition less_eq_setKey :: "setKey \<Rightarrow> setKey \<Rightarrow> bool" where
  "less_eq_setKey a b = (key_less a b \<or> a = b)"

instance
  by standard (auto simp: less_setKey_def less_eq_setKey_def key_less_def split: if_splits,
      metis not_less_iff_gr_or_eq setKey.expand)

end

record setState =
  masterMissingAt :: "int option" \<comment> \<open>None is the zero time\<close>
  failoverEpoch :: int

definition empty_setState :: setState where
  "empty_setState = \<lparr>masterMissingAt = None, failoverEpoch = 0\<rparr>"

record podInfo =
  pi_pod :: Pod
  pi_info :: ReplicationInfo

type_synonym groups = "(setKey \<times> Pod list) list"

definition set_of :: "string \<Rightarrow> string \<Rightarrow> Pod \<Rightarrow> setKey" where
  "set_of labelKey dflt p = SetKey (Namespace p) (SetName p labelKey dflt)"

text \<open>\<^verbatim>\<open>groups[k] = append(groups[k], p)\<close>\<close>

fun add_to_group :: "setKey \<Rightarrow> Pod \<Rightarrow> groups \<Rightarrow> groups" where
  "add_to_group k p [] = [(k, [p])]"
| "add_to_group k p ((k', ps) # gs) =
     (if k' = k then (k', ps @ [p]) # gs else (k', ps) # add_to_group k p gs)"

definition groupBySet :: "Pod list \<Rightarrow> string \<Rightarrow> string \<Rightarrow> groups" where
  "groupBySet pods labelKey dflt =
     foldl (\<lambda>gs p. add_to_group (set_of labelKey dflt p) p gs) [] pods"

definition sortedKeys :: "groups \<Rightarrow> setKey list" where
  "sortedKeys gs = go_sort key_less (map fst gs)"

section \<open>Epochs\<close>

definition epoch_step :: "int \<Rightarrow> Pod \<Rightarrow> int" where
  "epoch_step mx p = (let v = lookup_str (Annotations p) AnnotationFailoverEpoch in
     if v = [] then mx
     else (case Atoi v of Inl _ \<Rightarrow> mx | Inr n \<Rightarrow> if n > mx then n else mx))"

definition maxEpoch :: "Pod list \<Rightarrow> int" where
  "maxEpoch pods = foldl epoch_step 0 pods"

section \<open>Choosing a master\<close>

definition betterOrdinal :: "int \<Rightarrow> int \<Rightarrow> bool" where
  "betterOrdinal a b = (if a < 0 then False else if b < 0 then True else a < b)"

definition labeledMaster :: "podInfo list \<Rightarrow> podInfo option" where
  "labeledMaster masters = find (\<lambda>m. HasMasterLabel (pi_pod m)) masters"

definition lower_ordinal :: "podInfo \<Rightarrow> podInfo \<Rightarrow> bool" where
  "lower_ordinal c best \<longleftrightarrow> 0 \<le> Ordinal (pi_pod c) \<and>
     (Ordinal (pi_pod best) < 0 \<or> Ordinal (pi_pod c) < Ordinal (pi_pod best))"

definition higher_offset :: "podInfo \<Rightarrow> podInfo \<Rightarrow> bool" where
  "higher_offset c best \<longleftrightarrow> Offset (Some (pi_info c)) > Offset (Some (pi_info best))"

definition selectBootstrapCandidate :: "Config \<Rightarrow> podInfo list \<Rightarrow> podInfo option" where
  "selectBootstrapCandidate cfg candidates = (case candidates of
      [] \<Rightarrow> None
    | c # cs \<Rightarrow>
        if InitialMasterStrategy cfg = StrategyAnnotationPreferred then
          (case find (\<lambda>x. lookup_str (Annotations (pi_pod x)) AnnotationPreferredMaster = ''true'') candidates of
             Some x \<Rightarrow> Some x
           | None \<Rightarrow> Some c)
        else if InitialMasterStrategy cfg = StrategyLowestPodOrdinal then Some (pick_best lower_ordinal c cs)
        else if InitialMasterStrategy cfg = StrategyFirstHealthy then Some c
        else Some (pick_best higher_offset c cs))"

definition better_replica :: "podInfo \<Rightarrow> podInfo \<Rightarrow> bool" where
  "better_replica r best \<longleftrightarrow>
     Offset (Some (pi_info r)) > Offset (Some (pi_info best)) \<or>
     Offset (Some (pi_info r)) = Offset (Some (pi_info best)) \<and>
       betterOrdinal (Ordinal (pi_pod r)) (Ordinal (pi_pod best))"

definition link_ok :: "podInfo \<Rightarrow> bool" where
  "link_ok r \<longleftrightarrow> MasterLinkStatus (pi_info r) \<noteq> ''down''"

definition selectFailoverCandidate :: "podInfo list \<Rightarrow> podInfo option" where
  "selectFailoverCandidate replicas =
     (if replicas = [] then None
      else let linkUp = filter link_ok replicas;
               candidates = (if linkUp \<noteq> [] then linkUp else replicas)
           in Some (pick_best better_replica (hd candidates) (tl candidates)))"

section \<open>Grouping\<close>

lemma key_less_iff: "key_less = (<)"
  by (simp add: fun_eq_iff less_setKey_def)

interpretation key_order: strict_weak key_less "\<lambda>_. True"
  by unfold_locales (auto simp: key_less_iff)

lemma map_of_add_to_group:
  "map_of (add_to_group k p gs) k' =
   (if k' = k then Some ((case map_of gs k of None \<Rightarrow> [] | Some ps \<Rightarrow> ps) @ [p]) else map_of gs k')"
  by (induction gs) auto

lemma keys_add_to_group:
  "map fst (add_to_group k p gs) = (if k \<in> set (map fst gs) then map fst gs else map fst gs @ [k])"
proof (induction gs)
  case (Cons g gs)
  then show ?case by (cases g) force
qed simp

lemma groups_invariant:
  "distinct (map fst gs) \<Longrightarrow>
   distinct (map fst (foldl (\<lambda>gs p. add_to_group (set_of lk d p) p gs) gs pods))"
  by (induction pods arbitrary: gs) (auto simp: keys_add_to_group simp del: set_map)

lemma distinct_groups: "distinct (map fst (groupBySet pods lk d))"
  unfolding groupBySet_def by (rule groups_invariant) simp

lemma map_of_foldl_groups:
  "map_of (foldl (\<lambda>gs p. add_to_group (set_of lk d p) p gs) gs pods) k =
   (let ps = (case map_of gs k of None \<Rightarrow> [] | Some ps \<Rightarrow> ps) @ filter (\<lambda>p. set_of lk d p = k) pods
    in if map_of gs k = None \<and> filter (\<lambda>p. set_of lk d p = k) pods = [] then None else Some ps)"
  by (induction pods arbitrary: gs) (auto simp: map_of_add_to_group Let_def split: option.splits)

lemma map_of_groupBySet:
  "map_of (groupBySet pods lk d) k =
   (let ps = filter (\<lambda>p. set_of lk d p = k) pods in if ps = [] then None else Some ps)"
  by (simp add: groupBySet_def map_of_foldl_groups Let_def)

lemma set_groupBySet_keys: "set (map fst (groupBySet pods lk d)) = set_of lk d ` set pods"
proof -
  have "k \<in> set (map fst (groupBySet pods lk d)) \<longleftrightarrow> k \<in> set_of lk d ` set pods" for k
  proof -
    have "k \<in> set (map fst (groupBySet pods lk d)) \<longleftrightarrow> map_of (groupBySet pods lk d) k \<noteq> None"
      by (simp add: map_of_eq_None_iff)
    also have "\<dots> \<longleftrightarrow> k \<in> set_of lk d ` set pods"
      by (auto simp: map_of_groupBySet Let_def filter_empty_conv)
    finally show ?thesis .
  qed
  then show ?thesis by blast
qed

lemma sorted_by_key_less: "sorted_by key_less ks \<longleftrightarrow> sorted ks"
  by (simp add: key_less_iff not_less)

section \<open>Epochs grow\<close>

lemma epoch_step_ge: "mx \<le> epoch_step mx p"
  by (auto simp: epoch_step_def Let_def split: sum.splits)

lemma foldl_epoch_ge: "mx \<le> foldl epoch_step mx pods"
  by (induction pods arbitrary: mx) (auto intro: order_trans epoch_step_ge)

text \<open>The epoch recorded on a Pod, if its annotation is a number.\<close>

definition pod_epoch :: "Pod \<Rightarrow> int option" where
  "pod_epoch p = (case Annotations p AnnotationFailoverEpoch of
     None \<Rightarrow> None | Some v \<Rightarrow> (case Atoi v of Inl _ \<Rightarrow> None | Inr n \<Rightarrow> Some n))"

lemma Atoi_Nil: "Atoi [] = Inl ErrSyntax"
  by (simp add: Atoi_def ParseInt_def)

lemma epoch_step_pod_epoch:
  "epoch_step mx p = (case pod_epoch p of None \<Rightarrow> mx | Some n \<Rightarrow> max mx n)"
  by (auto simp: epoch_step_def pod_epoch_def lookup_str_def Atoi_Nil max_def split: option.splits sum.splits)

lemma finite_epochs: "finite {n. \<exists>p \<in> set ps. pod_epoch p = Some n}"
  by (rule finite_subset[of _ "(\<lambda>p. the (pod_epoch p)) ` set ps"]) force+

lemma foldl_epoch:
  "foldl epoch_step mx pods = Max (insert mx {n. \<exists>p \<in> set pods. pod_epoch p = Some n})"
proof (induction pods arbitrary: mx)
  case Nil
  then show ?case by simp
next
  case (Cons p pods)
  show ?case
  proof (cases "pod_epoch p")
    case None
    then show ?thesis by (simp add: Cons.IH epoch_step_pod_epoch[of mx p])
  next
    case (Some n)
    then have "{m. \<exists>q \<in> set (p # pods). pod_epoch q = Some m} =
               insert n {m. \<exists>q \<in> set pods. pod_epoch q = Some m}"
      by auto
    with Some finite_epochs[of pods] show ?thesis
      by (cases "{m. \<exists>q \<in> set pods. pod_epoch q = Some m} = {}")
        (simp_all add: Cons.IH epoch_step_pod_epoch[of mx p] max.assoc)
  qed
qed

lemma pod_epoch_le_maxEpoch: "p \<in> set pods \<Longrightarrow> pod_epoch p = Some n \<Longrightarrow> n \<le> maxEpoch pods"
  unfolding maxEpoch_def foldl_epoch by (rule Max_ge) (auto simp: finite_epochs)

lemma maxEpoch_eqI:
  assumes "0 \<le> n" "p \<in> set pods" "pod_epoch p = Some n"
    and "\<And>q x. q \<in> set pods \<Longrightarrow> pod_epoch q = Some x \<Longrightarrow> x \<le> n"
  shows "maxEpoch pods = n"
  unfolding maxEpoch_def foldl_epoch by (rule Max_eqI) (use assms finite_epochs in auto)

lemma maxEpoch_range: "0 \<le> maxEpoch pods" "maxEpoch pods \<le> int64_max"
proof -
  show "0 \<le> maxEpoch pods" unfolding maxEpoch_def by (rule foldl_epoch_ge)
  have "foldl epoch_step mx pods \<le> int64_max" if "mx \<le> int64_max" for mx
    using that
    by (induction pods arbitrary: mx)
      (auto simp: epoch_step_def Let_def dest!: Atoi_range split: sum.splits)
  then show "maxEpoch pods \<le> int64_max" by (simp add: maxEpoch_def)
qed

section \<open>The chosen Pod is a best one\<close>

interpretation ordinal_choice: best_choice lower_ordinal
  by unfold_locales (auto simp: lower_ordinal_def)

interpretation offset_choice: best_choice higher_offset
  by unfold_locales (auto simp: higher_offset_def)

interpretation replica_choice: best_choice better_replica
  by unfold_locales (auto simp: better_replica_def betterOrdinal_def split: if_splits)

lemma selectFailoverCandidate_cases:
  assumes "selectFailoverCandidate replicas = Some c"
  obtains "c \<in> set replicas" "link_ok c"
    "\<And>r. r \<in> set replicas \<Longrightarrow> link_ok r \<Longrightarrow> \<not> better_replica r c"
  | "c \<in> set replicas" "\<And>r. r \<in> set replicas \<Longrightarrow> \<not> link_ok r"
    "\<And>r. r \<in> set replicas \<Longrightarrow> \<not> better_replica r c"
proof (cases "filter link_ok replicas")
  case Nil
  then have nolink: "\<And>r. r \<in> set replicas \<Longrightarrow> \<not> link_ok r"
    by (auto simp: filter_empty_conv)
  obtain x xs where xs: "replicas = x # xs" and c: "c = pick_best better_replica x xs"
    using assms Nil by (cases replicas) (auto simp: selectFailoverCandidate_def Let_def split: if_splits)
  show ?thesis
    using that(2) nolink pick_best_in[of better_replica x xs] replica_choice.none_better[of _ x xs]
    by (simp add: xs c)
next
  case (Cons x xs)
  then have c: "c = pick_best better_replica x xs"
    using assms by (auto simp: selectFailoverCandidate_def Let_def split: if_splits)
  have in_pool: "r \<in> set (x # xs) \<longleftrightarrow> r \<in> set replicas \<and> link_ok r" for r
    unfolding Cons[symmetric] by auto
  show ?thesis
    using that(1) in_pool pick_best_in[of better_replica x xs] replica_choice.none_better[of _ x xs]
    by (metis c)
qed

lemma selectFailoverCandidate_in: "selectFailoverCandidate replicas = Some c \<Longrightarrow> c \<in> set replicas"
  by (erule selectFailoverCandidate_cases)

lemma selectFailoverCandidate_None: "selectFailoverCandidate replicas = None \<longleftrightarrow> replicas = []"
  by (simp add: selectFailoverCandidate_def Let_def)

lemma selectBootstrapCandidate_None: "selectBootstrapCandidate cfg cs = None \<longleftrightarrow> cs = []"
  by (auto simp: selectBootstrapCandidate_def split: list.splits option.splits)

lemma selectBootstrapCandidate_in: "selectBootstrapCandidate cfg cs = Some c \<Longrightarrow> c \<in> set cs"
  using pick_best_in
  by (fastforce simp: selectBootstrapCandidate_def find_Some_iff
      split: list.splits option.splits if_splits dest: nth_mem)

lemma labeledMaster_in: "labeledMaster ms = Some m \<Longrightarrow> m \<in> set ms \<and> HasMasterLabel (pi_pod m)"
  by (auto simp: labeledMaster_def find_Some_iff)

section \<open>Properties\<close>

abbreviation offset_of :: "podInfo \<Rightarrow> int" where
  "offset_of x \<equiv> Offset (Some (pi_info x))"

text \<open>
  C15. The replica that a failover promotes is a best one: there is one whenever a replica
  answered; it is one of the replicas that answered; if any of them has its replication link
  not down, so has the chosen one; and among the replicas that are eligible in this sense none
  has a greater replication offset, and none with the same offset a smaller ordinal.
\<close>

theorem failover_candidate_best:
  assumes "replicas \<noteq> []"
  shows "\<exists>c \<in> set replicas. selectFailoverCandidate replicas = Some c \<and>
    ((\<exists>r \<in> set replicas. link_ok r) \<longrightarrow> link_ok c) \<and>
    (\<forall>r \<in> set replicas. link_ok r \<or> \<not> link_ok c \<longrightarrow>
       offset_of r \<le> offset_of c \<and>
       (offset_of r = offset_of c \<longrightarrow> 0 \<le> Ordinal (pi_pod r) \<longrightarrow>
          0 \<le> Ordinal (pi_pod c) \<and> Ordinal (pi_pod c) \<le> Ordinal (pi_pod r)))"
proof -
  obtain c where c: "selectFailoverCandidate replicas = Some c"
    using assms selectFailoverCandidate_None[of replicas] by auto
  have best: "offset_of r \<le> offset_of c \<and> (offset_of r = offset_of c \<longrightarrow> 0 \<le> Ordinal (pi_pod r) \<longrightarrow>
      0 \<le> Ordinal (pi_pod c) \<and> Ordinal (pi_pod c) \<le> Ordinal (pi_pod r))"
    if "\<not> better_replica r c" for r
    using that by (auto simp: better_replica_def betterOrdinal_def split: if_splits)
  from c show ?thesis
  proof (cases rule: selectFailoverCandidate_cases)
    case 1
    with best c show ?thesis by blast
  next
    case 2
    with best c show ?thesis by blast
  qed
qed

text \<open>
  C16. The master that is kept when none is labelled, for each strategy: \<^verbatim>\<open>lowest-pod-ordinal\<close>
  gives a Pod whose known ordinal is smallest; \<^verbatim>\<open>first-healthy\<close> the first Pod in the order of
  the listing; \<^verbatim>\<open>annotation-preferred\<close> the first annotated Pod, or without one the first Pod.
  There is a result exactly when there is a candidate.
\<close>

theorem bootstrap_by_strategy:
  "(selectBootstrapCandidate cfg candidates = None \<longleftrightarrow> candidates = []) \<and>
   (candidates \<noteq> [] \<longrightarrow> InitialMasterStrategy cfg = StrategyFirstHealthy \<longrightarrow>
      selectBootstrapCandidate cfg candidates = Some (hd candidates)) \<and>
   (candidates \<noteq> [] \<longrightarrow> InitialMasterStrategy cfg = StrategyAnnotationPreferred \<longrightarrow>
      selectBootstrapCandidate cfg candidates =
        (case find (\<lambda>x. Annotations (pi_pod x) AnnotationPreferredMaster = Some ''true'') candidates of
           Some x \<Rightarrow> Some x | None \<Rightarrow> Some (hd candidates))) \<and>
   (candidates \<noteq> [] \<longrightarrow> InitialMasterStrategy cfg = StrategyLowestPodOrdinal \<longrightarrow>
      (\<exists>c \<in> set candidates. selectBootstrapCandidate cfg candidates = Some c \<and>
         (\<forall>x \<in> set candidates. 0 \<le> Ordinal (pi_pod x) \<longrightarrow>
            0 \<le> Ordinal (pi_pod c) \<and> Ordinal (pi_pod c) \<le> Ordinal (pi_pod x))))"
proof (intro conjI impI)
  show "selectBootstrapCandidate cfg candidates = None \<longleftrightarrow> candidates = []"
    by (rule selectBootstrapCandidate_None)
  have pref: "lookup_str m k = ''true'' \<longleftrightarrow> m k = Some ''true''" for m k
    by (simp add: lookup_str_def split: option.splits)
  show "selectBootstrapCandidate cfg candidates =
        (case find (\<lambda>x. Annotations (pi_pod x) AnnotationPreferredMaster = Some ''true'') candidates of
           Some x \<Rightarrow> Some x | None \<Rightarrow> Some (hd candidates))"
    if "candidates \<noteq> []" "InitialMasterStrategy cfg = StrategyAnnotationPreferred"
    using that by (cases candidates) (auto simp: selectBootstrapCandidate_def pref split: option.splits)
  show "\<exists>c \<in> set candidates. selectBootstrapCandidate cfg candidates = Some c \<and>
         (\<forall>x \<in> set candidates. 0 \<le> Ordinal (pi_pod x) \<longrightarrow>
            0 \<le> Ordinal (pi_pod c) \<and> Ordinal (pi_pod c) \<le> Ordinal (pi_pod x))"
    if ne: "candidates \<noteq> []" and low: "InitialMasterStrategy cfg = StrategyLowestPodOrdinal"
  proof -
    obtain x xs where cs: "candidates = x # xs" using ne by (cases candidates) auto
    let ?c = "pick_best lower_ordinal x xs"
    have "selectBootstrapCandidate cfg candidates = Some ?c"
      using low by (simp add: cs selectBootstrapCandidate_def strategy_defs)
    moreover have "0 \<le> Ordinal (pi_pod ?c) \<and> Ordinal (pi_pod ?c) \<le> Ordinal (pi_pod y)"
      if "y \<in> set candidates" "0 \<le> Ordinal (pi_pod y)" for y
      using ordinal_choice.none_better[of y x xs] that by (auto simp: cs lower_ordinal_def)
    ultimately show ?thesis using pick_best_in[of lower_ordinal x xs] cs by (intro bexI[of _ ?c]) auto
  qed
qed (auto simp: selectBootstrapCandidate_def strategy_defs split: list.splits)

text \<open>
  C17. Grouping is a partition: every replication set holds exactly the listed Pods that share
  its namespace and set name, in the order of the listing, and there is no empty set. The
  sets are then visited in ascending order, each once.
\<close>

theorem groups_partition_pods:
  "map_of (groupBySet pods labelKey dflt) k =
     (if \<exists>p \<in> set pods. set_of labelKey dflt p = k
      then Some (filter (\<lambda>p. set_of labelKey dflt p = k) pods) else None) \<and>
   set (sortedKeys (groupBySet pods labelKey dflt)) = set_of labelKey dflt ` set pods \<and>
   sorted (sortedKeys (groupBySet pods labelKey dflt)) \<and>
   distinct (sortedKeys (groupBySet pods labelKey dflt))"
proof (intro conjI)
  show "map_of (groupBySet pods labelKey dflt) k =
     (if \<exists>p \<in> set pods. set_of labelKey dflt p = k
      then Some (filter (\<lambda>p. set_of labelKey dflt p = k) pods) else None)"
    by (auto simp: map_of_groupBySet Let_def filter_empty_conv)
  show "set (sortedKeys (groupBySet pods labelKey dflt)) = set_of labelKey dflt ` set pods"
    using set_groupBySet_keys[of pods labelKey dflt] by (simp add: sortedKeys_def)
  show "sorted (sortedKeys (groupBySet pods labelKey dflt))"
    using key_order.sorted_sort[of "map fst (groupBySet pods labelKey dflt)"]
    by (simp add: sortedKeys_def sorted_by_key_less list_all_iff)
qed (simp add: sortedKeys_def distinct_groups)

text \<open>
  The order in which Go iterates over the map of groups does not matter: any two ways to
  list the same groups are visited in the same order.
\<close>

theorem visiting_order_canonical:
  assumes "mset (map fst gs1) = mset (map fst gs2)"
  shows "sortedKeys gs1 = sortedKeys gs2"
  unfolding sortedKeys_def
  by (rule key_order.sort_unique)
    (use assms key_order.sorted_sort[of "map fst gs1"] in \<open>auto simp: key_less_iff list_all_iff\<close>)

theorem visiting_order_canonical_witness:
  "sortedKeys [(SetKey ''b'' ''x'', []), (SetKey ''a'' ''y'', [])] =
   sortedKeys [(SetKey ''a'' ''y'', []), (SetKey ''b'' ''x'', [])]"
  by (rule visiting_order_canonical) simp

text \<open>
  The epoch of a set is the greatest number recorded in an epoch annotation of its Pods,
  where annotations that are not numbers are ignored, and at least 0.
\<close>

theorem maxEpoch_is_max:
  "maxEpoch pods = Max (insert 0 {n. \<exists>p \<in> set pods. pod_epoch p = Some n})"
  by (simp add: maxEpoch_def foldl_epoch)

end
