(* ===== verification/Redis_Client.thy ===== *)
theory Redis_Client
  imports World
begin

text \<open>
  \<^verbatim>\<open>internal/redis/client.go\<close>: a connection to a Redis server. A connection is its address,
  the bytes that were received and not yet decoded, and its command timeout. A context
  (\<^verbatim>\<open>context.Context\<close>) is its deadline, if it has one.
\<close>

section \<open>Connections\<close>

type_synonym ctx = "int option"

record TCPDialer =
  ConnectTimeout :: int
  CommandTimeout :: int

record tcpConn =
  conn_addr :: string
  conn_buf :: string
  cmdTimeout :: int

definition NewDialer :: "int \<Rightarrow> int \<Rightarrow> TCPDialer" where
  "NewDialer connectTimeout commandTimeout =
     \<lparr>ConnectTimeout = connectTimeout, CommandTimeout = commandTimeout\<rparr>"

definition Dial :: "world \<Rightarrow> TCPDialer \<Rightarrow> ctx \<Rightarrow> string \<Rightarrow> (io_error + tcpConn) run" where
  "Dial W d ctx addr =
     bind_io (interact (\<lambda>h. w_dial W h addr) (\<lambda>_. EvDial addr (ConnectTimeout d)))
       (\<lambda>r. case r of
              Some e \<Rightarrow> ret (Inl e)
            | None \<Rightarrow> ret (Inr \<lparr>conn_addr = addr, conn_buf = [], cmdTimeout = CommandTimeout d\<rparr>))"

definition conn_Close :: "tcpConn \<Rightarrow> unit run" where
  "conn_Close c = interact (\<lambda>_. ()) (\<lambda>_. EvClose (conn_addr c))"

text \<open>
  One exchange: set the deadline, write the command, decode one reply. What the decoder
  leaves unread stays in the connection for the next exchange.
\<close>

definition do_cmd :: "world \<Rightarrow> ctx \<Rightarrow> tcpConn \<Rightarrow> string list \<Rightarrow> ((redis_error + reply) \<times> tcpConn) run" where
  "do_cmd W ctx c args =
     bind_io (now W) (\<lambda>t.
       let timeout = t + cmdTimeout c;
           deadline = (case ctx of None \<Rightarrow> timeout | Some d \<Rightarrow> if d < timeout then d else timeout)
       in bind_io (interact (\<lambda>h. w_set_deadline W h (conn_addr c) deadline)
                            (\<lambda>_. EvDeadline (conn_addr c) deadline)) (\<lambda>r.
       case r of
         Some e \<Rightarrow> ret (Inl (IOError e), c)
       | None \<Rightarrow>
           (case writeCommand args of
              Inl e \<Rightarrow> ret (Inl e, c)
            | Inr bytes \<Rightarrow>
                bind_io (interact (\<lambda>h. w_write W h (conn_addr c) bytes)
                                  (\<lambda>_. EvWrite (conn_addr c) bytes)) (\<lambda>r.
                case r of
                  Some e \<Rightarrow> ret (Inl (IOError e), c)
                | None \<Rightarrow>
                    bind_io (interact (\<lambda>h. w_recv W h (conn_addr c)) (\<lambda>_. EvRecv (conn_addr c)))
                      (\<lambda>(bs, fin).
                        case readReply fin (conn_buf c @ bs) of
                          (Panic, _) \<Rightarrow> panic
                        | (Done r, rest) \<Rightarrow> ret (r, c\<lparr>conn_buf := rest\<rparr>))))))"

section \<open>Commands\<close>

definition conn_Ping :: "world \<Rightarrow> ctx \<Rightarrow> tcpConn \<Rightarrow> (redis_error option \<times> tcpConn) run" where
  "conn_Ping W ctx c = bind_io (do_cmd W ctx c [''PING'']) (\<lambda>(r, c'). ret (case r of
      Inl e \<Rightarrow> Some e
    | Inr v \<Rightarrow> if v = RStr ''PONG'' then None else Some (UnexpectedPingReply v), c'))"

definition conn_Role ::
  "world \<Rightarrow> ctx \<Rightarrow> tcpConn \<Rightarrow> ((RoleInfo option \<times> redis_error option) \<times> tcpConn) run" where
  "conn_Role W ctx c = bind_io (do_cmd W ctx c [''ROLE'']) (\<lambda>(r, c'). ret (case r of
      Inl e \<Rightarrow> (None, Some e)
    | Inr v \<Rightarrow> parseRoleReply v, c'))"

definition conn_InfoReplication ::
  "world \<Rightarrow> ctx \<Rightarrow> tcpConn \<Rightarrow> ((redis_error + ReplicationInfo) \<times> tcpConn) run" where
  "conn_InfoReplication W ctx c = bind_io (do_cmd W ctx c [''INFO'', ''replication'']) (\<lambda>(r, c').
     ret (case r of
        Inl e \<Rightarrow> Inl e
      | Inr (RStr s) \<Rightarrow> Inr (parseReplicationInfo s)
      | Inr v \<Rightarrow> Inl (UnexpectedInfoReply v), c'))"

definition err_of :: "'e + 'a \<Rightarrow> 'e option" where
  "err_of r = (case r of Inl e \<Rightarrow> Some e | Inr _ \<Rightarrow> None)"

definition conn_ReplicaOf ::
  "world \<Rightarrow> ctx \<Rightarrow> tcpConn \<Rightarrow> string \<Rightarrow> int \<Rightarrow> (redis_error option \<times> tcpConn) run" where
  "conn_ReplicaOf W ctx c host port =
     bind_io (do_cmd W ctx c [''REPLICAOF'', host, Itoa port]) (\<lambda>(r, c'). ret (err_of r, c'))"

definition conn_ReplicaOfNoOne :: "world \<Rightarrow> ctx \<Rightarrow> tcpConn \<Rightarrow> (redis_error option \<times> tcpConn) run" where
  "conn_ReplicaOfNoOne W ctx c =
     bind_io (do_cmd W ctx c [''REPLICAOF'', ''NO'', ''ONE'']) (\<lambda>(r, c'). ret (err_of r, c'))"

definition conn_ConfigRewrite :: "world \<Rightarrow> ctx \<Rightarrow> tcpConn \<Rightarrow> (redis_error option \<times> tcpConn) run" where
  "conn_ConfigRewrite W ctx c =
     bind_io (do_cmd W ctx c [''CONFIG'', ''REWRITE'']) (\<lambda>(r, c'). ret (err_of r, c'))"

section \<open>What an exchange sends, and that it stays on its connection\<close>

text \<open>\<open>P\<close> accepts the traffic with \<open>addr\<close> that carries no command.\<close>

definition talks :: "(event \<Rightarrow> bool) \<Rightarrow> string \<Rightarrow> bool" where
  "talks P addr \<longleftrightarrow> P EvNow \<and> P (EvRecv addr) \<and> P (EvClose addr) \<and>
     (\<forall>t. P (EvDeadline addr t) \<and> P (EvDial addr t))"

lemma talks_quiet: "(\<And>e. quiet e \<Longrightarrow> P e) \<Longrightarrow> talks P addr"
  by (simp add: talks_def)

lemma emits_Dial [emits_rules]: "talks P addr \<Longrightarrow> emits P (Dial W d ctx addr)"
  unfolding Dial_def talks_def by (auto intro!: emits_rules split: option.splits)

lemma emits_Close [emits_rules]: "talks P (conn_addr c) \<Longrightarrow> emits P (conn_Close c)"
  unfolding conn_Close_def talks_def by (blast intro: emits_rules)

lemma emits_do_cmd [emits_rules]:
  assumes "talks P (conn_addr c)" "P (sent (conn_addr c) args)"
  shows "emits P (do_cmd W ctx c args)"
  using assms unfolding do_cmd_def Let_def talks_def
  by (auto intro!: emits_rules simp: writeCommand_def
      split: option.splits sum.splits prod.splits out.splits if_splits)

lemma emits_cmds [emits_rules]:
  assumes "talks P (conn_addr c)"
  shows "P (sent (conn_addr c) [''PING'']) \<Longrightarrow> emits P (conn_Ping W ctx c)"
    and "P (sent (conn_addr c) [''ROLE'']) \<Longrightarrow> emits P (conn_Role W ctx c)"
    and "P (sent (conn_addr c) [''INFO'', ''replication'']) \<Longrightarrow> emits P (conn_InfoReplication W ctx c)"
    and "P (sent (conn_addr c) [''REPLICAOF'', host, Itoa port]) \<Longrightarrow>
           emits P (conn_ReplicaOf W ctx c host port)"
    and "P (sent (conn_addr c) [''REPLICAOF'', ''NO'', ''ONE'']) \<Longrightarrow> emits P (conn_ReplicaOfNoOne W ctx c)"
    and "P (sent (conn_addr c) [''CONFIG'', ''REWRITE'']) \<Longrightarrow> emits P (conn_ConfigRewrite W ctx c)"
  unfolding conn_Ping_def conn_Role_def conn_InfoReplication_def conn_ReplicaOf_def
    conn_ReplicaOfNoOne_def conn_ConfigRewrite_def
  using assms by (auto intro!: emits_rules split: prod.splits)

lemma Dial_addr: "wp (Dial W d ctx addr) (\<lambda>r _. \<forall>c. r = Inr c \<longrightarrow> conn_addr c = addr) h"
  by (auto simp: Dial_def split: option.splits)

lemma do_cmd_addr: "wp (do_cmd W ctx c args) (\<lambda>(r, c') _. conn_addr c' = conn_addr c) h"
  by (auto simp: do_cmd_def Let_def split: option.splits sum.splits prod.splits out.splits)

lemma cmds_addr:
  shows "wp (conn_InfoReplication W ctx c) (\<lambda>x _. conn_addr (snd x) = conn_addr c) h"
    and "wp (conn_ReplicaOf W ctx c host port) (\<lambda>x _. conn_addr (snd x) = conn_addr c) h"
    and "wp (conn_ReplicaOfNoOne W ctx c) (\<lambda>x _. conn_addr (snd x) = conn_addr c) h"
    and "wp (conn_ConfigRewrite W ctx c) (\<lambda>x _. conn_addr (snd x) = conn_addr c) h"
  unfolding conn_InfoReplication_def conn_ReplicaOf_def conn_ReplicaOfNoOne_def conn_ConfigRewrite_def
  by (auto intro!: wp_mono[OF do_cmd_addr])

section \<open>Properties\<close>

text \<open>The deadline of an exchange that starts in the history \<open>h\<close>, and the events up to its request.\<close>

definition deadline_at :: "world \<Rightarrow> ctx \<Rightarrow> tcpConn \<Rightarrow> event list \<Rightarrow> int" where
  "deadline_at W ctx c h = (let t = w_now W h + cmdTimeout c in
     case ctx of None \<Rightarrow> t | Some d \<Rightarrow> min d t)"

definition requested :: "world \<Rightarrow> ctx \<Rightarrow> tcpConn \<Rightarrow> string list \<Rightarrow> event list \<Rightarrow> event list" where
  "requested W ctx c args h =
     h @ [EvNow, EvDeadline (conn_addr c) (deadline_at W ctx c h), sent (conn_addr c) args]"

text \<open>
  The deadline in force on the connection to \<open>addr\<close>, and what \<^verbatim>\<open>net.Conn\<close> documents about it: a
  read or write does not go on after the deadline, it fails then, and at once if the
  deadline has passed already.
\<close>

definition in_force :: "string \<Rightarrow> event list \<Rightarrow> int option" where
  "in_force addr h = foldl (\<lambda>dl e. case e of
      EvDeadline a t \<Rightarrow> if a = addr then Some t else dl
    | EvDial a _ \<Rightarrow> if a = addr then None else dl
    | _ \<Rightarrow> dl) None h"

definition deadlines_kept :: "world \<Rightarrow> bool" where
  "deadlines_kept W \<longleftrightarrow> (\<forall>h addr t e. in_force addr h = Some t \<and> (e = EvRecv addr \<or> (\<exists>bytes. e = EvWrite addr bytes)) \<longrightarrow>
     w_now W (h @ [e]) \<le> max (w_now W h) t)"

lemma in_force_snoc [simp]:
  "in_force addr (h @ [EvDeadline addr t]) = Some t"
  "in_force addr (h @ [EvDeadline addr t, EvWrite a bytes]) = Some t"
  by (simp_all add: in_force_def)

lemma exchange_over:
  assumes "deadlines_kept W" "tail \<in> {[], [EvWrite addr bytes], [EvWrite addr bytes, EvRecv addr]}"
  shows "w_now W (h @ [EvDeadline addr t] @ tail) \<le> max (w_now W (h @ [EvDeadline addr t])) t"
proof -
  let ?h = "h @ [EvDeadline addr t]"
  have sent: "w_now W (?h @ [EvWrite addr bytes]) \<le> max (w_now W ?h) t"
    using assms(1) in_force_snoc(1)[of addr h t] unfolding deadlines_kept_def by blast
  moreover have "w_now W ((h @ [EvDeadline addr t, EvWrite addr bytes]) @ [EvRecv addr]) \<le>
      max (w_now W (h @ [EvDeadline addr t, EvWrite addr bytes])) t"
    using assms(1) in_force_snoc(2)[of addr h t addr bytes] unfolding deadlines_kept_def by blast
  ultimately show ?thesis using assms(2) by auto
qed

text \<open>
  C28. An exchange is bounded: before anything else it sets a deadline on its connection, the
  command timeout after its start or the deadline of the caller's context, whichever is
  sooner; if that is refused, nothing is written; otherwise it writes one command at most and
  receives at most once. With connections that keep their deadlines it is over when the deadline has
  come (or, when it had come before, as soon as it is set), whatever the outcome is.
\<close>

theorem exchange_deadline:
  "\<exists>tail. snd (do_cmd W ctx c args h) = h @ [EvNow, EvDeadline (conn_addr c) (deadline_at W ctx c h)] @ tail \<and>
     deadline_at W ctx c h = (case ctx of None \<Rightarrow> w_now W h + cmdTimeout c | Some dl \<Rightarrow> min dl (w_now W h + cmdTimeout c)) \<and>
     tail \<in> {[], [sent (conn_addr c) args], [sent (conn_addr c) args, EvRecv (conn_addr c)]} \<and>
     (\<forall>e. w_set_deadline W (h @ [EvNow]) (conn_addr c) (deadline_at W ctx c h) = Some e \<longrightarrow>
        tail = [] \<and> fst (do_cmd W ctx c args h) = Done (Inl (IOError e), c)) \<and>
     (deadlines_kept W \<longrightarrow> w_now W (snd (do_cmd W ctx c args h)) \<le>
        max (w_now W (h @ [EvNow, EvDeadline (conn_addr c) (deadline_at W ctx c h)])) (deadline_at W ctx c h))"
proof -
  let ?dl = "deadline_at W ctx c h" and ?a = "conn_addr c"
  have dl: "(case ctx of None \<Rightarrow> t | Some d \<Rightarrow> if d < t then d else t) =
            (case ctx of None \<Rightarrow> t | Some d \<Rightarrow> min d t)" for t :: int
    by (auto simp: min_def split: option.splits)
  have "\<exists>tail. snd (do_cmd W ctx c args h) = h @ [EvNow, EvDeadline ?a ?dl] @ tail \<and>
     tail \<in> {[], [sent ?a args], [sent ?a args, EvRecv ?a]} \<and>
     (\<forall>e. w_set_deadline W (h @ [EvNow]) ?a ?dl = Some e \<longrightarrow>
        tail = [] \<and> fst (do_cmd W ctx c args h) = Done (Inl (IOError e), c))"
    by (auto simp: do_cmd_def Let_def now_def io_simps writeCommand_def deadline_at_def dl
        split: option.splits prod.splits out.splits)
  then obtain tail where tail: "snd (do_cmd W ctx c args h) = h @ [EvNow, EvDeadline ?a ?dl] @ tail"
      "tail \<in> {[], [sent ?a args], [sent ?a args, EvRecv ?a]}"
      "\<forall>e. w_set_deadline W (h @ [EvNow]) ?a ?dl = Some e \<longrightarrow>
        tail = [] \<and> fst (do_cmd W ctx c args h) = Done (Inl (IOError e), c)"
    by blast
  have "w_now W (snd (do_cmd W ctx c args h)) \<le> max (w_now W (h @ [EvNow, EvDeadline ?a ?dl])) ?dl" if "deadlines_kept W"
    using exchange_over[OF that tail(2), of "h @ [EvNow]" ?dl] by (simp add: tail(1))
  with tail show ?thesis by (auto simp: deadline_at_def Let_def)
qed

lemma do_cmd_answered:
  assumes "\<And>h t. w_set_deadline W h (conn_addr c) t = None" "\<And>h bytes. w_write W h (conn_addr c) bytes = None"
    and "conn_buf c @ fst (w_recv W (requested W ctx c args h) (conn_addr c)) = encodeReply v @ later"
    and "encodable v" "args \<noteq> []"
  shows "do_cmd W ctx c args h =
    (Done (Inr v, c\<lparr>conn_buf := later\<rparr>), requested W ctx c args h @ [EvRecv (conn_addr c)])"
proof -
  obtain bs fin where recv: "w_recv W (requested W ctx c args h) (conn_addr c) = (bs, fin)" by fastforce
  have read: "readReply fin (conn_buf c @ bs) = (Done (Inr v), later)"
    using assms(3) readReply_encodeReply[OF assms(4), of fin later] by (simp add: recv)
  have dl: "(case ctx of None \<Rightarrow> t | Some d \<Rightarrow> if d < t then d else t) =
            (case ctx of None \<Rightarrow> t | Some d \<Rightarrow> min d t)" for t :: int
    by (auto simp: min_def split: option.splits)
  show ?thesis
    using assms(1,2,5) recv read
    by (simp add: do_cmd_def Let_def now_def io_simps writeCommand_def requested_def deadline_at_def dl)
qed

text \<open>
  C29. The state of a server as the controller sees it: if the server answers \<^verbatim>\<open>INFO replication\<close>
  with a bulk string, the result is what \<^verbatim>\<open>parseReplicationInfo\<close> makes of that string, and bytes
  that follow the reply stay in the connection for the next exchange.
\<close>

theorem info_exchange:
  assumes "\<forall>h t. w_set_deadline W h (conn_addr c) t = None" "\<forall>h bytes. w_write W h (conn_addr c) bytes = None"
    and "conn_buf c @ fst (w_recv W (requested W ctx c [''INFO'', ''replication''] h) (conn_addr c)) =
         encodeReply (RStr s) @ later"
    and "encodable (RStr s)"
  shows "conn_InfoReplication W ctx c h =
    (Done (Inr (parseReplicationInfo s), c\<lparr>conn_buf := later\<rparr>),
     requested W ctx c [''INFO'', ''replication''] h @ [EvRecv (conn_addr c)])"
proof -
  have "do_cmd W ctx c [''INFO'', ''replication''] h =
    (Done (Inr (RStr s), c\<lparr>conn_buf := later\<rparr>),
     requested W ctx c [''INFO'', ''replication''] h @ [EvRecv (conn_addr c)])"
    using assms by (intro do_cmd_answered) auto
  then show ?thesis by (simp add: conn_InfoReplication_def io_simps)
qed

end
