(* ===== verification/Reconcile.thy ===== *)
theory Reconcile
  imports Selection Redis_Client Go_Time
begin

text \<open>
  The effects of \<^verbatim>\<open>internal/controller/controller.go\<close>: probing the Pods of a replication
  set, promoting and demoting them, keeping their labels in step, and one pass over all sets.
  Log output is not modelled. The per-set state that the Go code mutates through a pointer is
  returned beside the result. The probes, which the Go code runs in parallel, are run one
  after the other here, in the order of the Pods, which is the order of the results.
\<close>

section \<open>Errors and addresses\<close>

datatype ctl_error =
    ConnectError string io_error
  | ReplicaOfError string redis_error
  | ConnectCandidateError string io_error
  | PromoteError string redis_error
  | ListError kube_error

text \<open>\<^verbatim>\<open>fmt.Sprintf("%s:%d", pod.IP, c.cfg.RedisPort)\<close>\<close>

definition pod_addr :: "Config \<Rightarrow> Pod \<Rightarrow> string" where
  "pod_addr cfg p = IP p @ CHR '':'' # Itoa (RedisPort cfg)"

section \<open>Probing\<close>

definition probe_pod :: "world \<Rightarrow> Config \<Rightarrow> TCPDialer \<Rightarrow> ctx \<Rightarrow> Pod \<Rightarrow> podInfo option run" where
  "probe_pod W cfg d ctx p =
     (if IP p = [] \<or> Phase p \<noteq> ''Running'' then ret None
      else bind_io (Dial W d ctx (pod_addr cfg p)) (\<lambda>r. case r of
             Inl e \<Rightarrow> ret None
           | Inr c \<Rightarrow>
               bind_io (conn_InfoReplication W ctx c) (\<lambda>(r, c').
               bind_io (conn_Close c') (\<lambda>_.
               ret (case r of Inl e \<Rightarrow> None | Inr i \<Rightarrow> Some \<lparr>pi_pod = p, pi_info = i\<rparr>)))))"

definition probe :: "world \<Rightarrow> Config \<Rightarrow> TCPDialer \<Rightarrow> ctx \<Rightarrow> Pod list \<Rightarrow> podInfo list run" where
  "probe W cfg d ctx pods =
     bind_io (map_io (probe_pod W cfg d ctx) pods) (\<lambda>rs. ret (List.map_filter id rs))"

section \<open>Changing roles and labels\<close>

definition rewrite_if :: "world \<Rightarrow> Config \<Rightarrow> ctx \<Rightarrow> tcpConn \<Rightarrow> tcpConn run" where
  "rewrite_if W cfg ctx c =
     (if ConfigRewrite cfg then bind_io (conn_ConfigRewrite W ctx c) (\<lambda>(r, c'). ret c') else ret c)"

definition replicateOf ::
  "world \<Rightarrow> Config \<Rightarrow> TCPDialer \<Rightarrow> ctx \<Rightarrow> Pod \<Rightarrow> string \<Rightarrow> ctl_error option run" where
  "replicateOf W cfg d ctx p masterIP =
     bind_io (Dial W d ctx (pod_addr cfg p)) (\<lambda>r. case r of
        Inl e \<Rightarrow> ret (Some (ConnectError (Name p) e))
      | Inr c \<Rightarrow>
          bind_io (conn_ReplicaOf W ctx c masterIP (RedisPort cfg)) (\<lambda>(r, c'). case r of
             Some e \<Rightarrow> bind_io (conn_Close c') (\<lambda>_. ret (Some (ReplicaOfError (Name p) e)))
           | None \<Rightarrow>
               bind_io (rewrite_if W cfg ctx c') (\<lambda>c''.
               bind_io (conn_Close c'') (\<lambda>_. ret None))))"

text \<open>The two loops that demote or redirect Pods; an error is logged and the loop goes on.\<close>

definition redirect_others ::
  "world \<Rightarrow> Config \<Rightarrow> TCPDialer \<Rightarrow> ctx \<Rightarrow> Pod \<Rightarrow> podInfo list \<Rightarrow> unit run" where
  "redirect_others W cfg d ctx master others =
     for_each others (\<lambda>x.
       if Name (pi_pod x) = Name master then ret ()
       else bind_io (replicateOf W cfg d ctx (pi_pod x) (IP master)) (\<lambda>_. ret ()))"

definition wanted_role :: "string \<Rightarrow> Pod \<Rightarrow> string" where
  "wanted_role masterName p = (if Name p = masterName then kube_RoleMaster else kube_RoleReplica)"

definition syncLabels :: "world \<Rightarrow> Pod list \<Rightarrow> string \<Rightarrow> unit run" where
  "syncLabels W pods masterName =
     for_each pods (\<lambda>p.
       if RoleLabel p = wanted_role masterName p then ret ()
       else bind_io (SetRoleLabel W (Namespace p) (Name p) (wanted_role masterName p)) (\<lambda>_. ret ()))"

section \<open>Failover\<close>

definition nextEpoch :: "Pod list \<Rightarrow> setState \<Rightarrow> int" where
  "nextEpoch pods st =
     (let epoch = wrap64 (maxEpoch pods + 1)
      in if failoverEpoch st \<ge> epoch then wrap64 (failoverEpoch st + 1) else epoch)"

definition failover ::
  "world \<Rightarrow> Config \<Rightarrow> TCPDialer \<Rightarrow> ctx \<Rightarrow> Pod list \<Rightarrow> podInfo list \<Rightarrow> setState
     \<Rightarrow> ((ctl_error + podInfo option) \<times> setState) run" where
  "failover W cfg d ctx pods replicas st = (case selectFailoverCandidate replicas of
      None \<Rightarrow> ret (Inr None, st)
    | Some candidate \<Rightarrow>
        let cpod = pi_pod candidate; epoch = nextEpoch pods st; st' = st\<lparr>failoverEpoch := epoch\<rparr> in
        bind_io (Dial W d ctx (pod_addr cfg cpod)) (\<lambda>r. case r of
           Inl e \<Rightarrow> ret (Inl (ConnectCandidateError (Name cpod) e), st')
         | Inr c \<Rightarrow>
             bind_io (conn_ReplicaOfNoOne W ctx c) (\<lambda>(r, c1). case r of
                Some e \<Rightarrow> bind_io (conn_Close c1) (\<lambda>_. ret (Inl (PromoteError (Name cpod) e), st'))
              | None \<Rightarrow>
                  bind_io (rewrite_if W cfg ctx c1) (\<lambda>c2.
                  bind_io (now W) (\<lambda>t.
                  bind_io (SetAnnotations W (Namespace cpod) (Name cpod)
                             [(AnnotationFailoverEpoch, Itoa epoch), (AnnotationPromotedAt, rfc3339 t)]) (\<lambda>_.
                  bind_io (redirect_others W cfg d ctx cpod replicas) (\<lambda>_.
                  bind_io (conn_Close c2) (\<lambda>_.
                  ret (Inr (Some candidate), st')))))))))"

section \<open>One replication set\<close>

text \<open>The case of several masters: keep the labelled one or bootstrap, and demote the rest.\<close>

definition converge_masters ::
  "world \<Rightarrow> Config \<Rightarrow> TCPDialer \<Rightarrow> ctx \<Rightarrow> podInfo list \<Rightarrow> podInfo run" where
  "converge_masters W cfg d ctx masters =
     bind_io (case labeledMaster masters of
                Some m \<Rightarrow> ret m
              | None \<Rightarrow> (case selectBootstrapCandidate cfg masters of None \<Rightarrow> panic | Some m \<Rightarrow> ret m))
       (\<lambda>picked. bind_io (redirect_others W cfg d ctx (pi_pod picked) masters) (\<lambda>_. ret picked))"

text \<open>The case of no master: start or read the failure timer, and fail over when it is due.\<close>

definition handle_missing ::
  "world \<Rightarrow> Config \<Rightarrow> TCPDialer \<Rightarrow> ctx \<Rightarrow> Pod list \<Rightarrow> podInfo list \<Rightarrow> setState
     \<Rightarrow> ((ctl_error + podInfo option) \<times> setState) run" where
  "handle_missing W cfg d ctx pods replicas st =
     bind_io (case masterMissingAt st of None \<Rightarrow> now W | Some t \<Rightarrow> ret t) (\<lambda>since.
     let st1 = st\<lparr>masterMissingAt := Some since\<rparr> in
     bind_io (now W) (\<lambda>t.
       if t - since < MasterFailureThreshold cfg then ret (Inr None, st1)
       else failover W cfg d ctx pods replicas st1))"

definition is_master :: "podInfo \<Rightarrow> bool" where
  "is_master x \<longleftrightarrow> IsMaster (Some (pi_info x))"

definition reconcileSet ::
  "world \<Rightarrow> Config \<Rightarrow> TCPDialer \<Rightarrow> ctx \<Rightarrow> Pod list \<Rightarrow> setState \<Rightarrow> (ctl_error option \<times> setState) run" where
  "reconcileSet W cfg d ctx pods st =
     bind_io (probe W cfg d ctx pods) (\<lambda>reached.
     let masters = filter is_master reached;
         replicas = filter (\<lambda>x. \<not> is_master x) reached
     in if length masters = 1 then
          bind_io (syncLabels W pods (Name (pi_pod (hd masters)))) (\<lambda>_.
          ret (None, st\<lparr>masterMissingAt := None\<rparr>))
        else if length masters > 1 then
          bind_io (converge_masters W cfg d ctx masters) (\<lambda>master.
          bind_io (syncLabels W pods (Name (pi_pod master))) (\<lambda>_.
          ret (None, st\<lparr>masterMissingAt := None\<rparr>)))
        else
          bind_io (handle_missing W cfg d ctx pods replicas st) (\<lambda>(r, st1). case r of
             Inl e \<Rightarrow> ret (Some e, st1)
           | Inr None \<Rightarrow> ret (None, st1)
           | Inr (Some promoted) \<Rightarrow>
               bind_io (syncLabels W pods (Name (pi_pod promoted))) (\<lambda>_.
               ret (None, st1\<lparr>masterMissingAt := None\<rparr>))))"

section \<open>All sets\<close>

type_synonym sets = "setKey \<rightharpoonup> setState"

definition stateFor :: "sets \<Rightarrow> setKey \<Rightarrow> setState" where
  "stateFor sets key = (case sets key of None \<Rightarrow> empty_setState | Some st \<Rightarrow> st)"

definition pruneVanishedSets :: "groups \<Rightarrow> sets \<Rightarrow> sets" where
  "pruneVanishedSets gs sets = sets |` set (map fst gs)"

fun reconcile_keys ::
  "world \<Rightarrow> Config \<Rightarrow> TCPDialer \<Rightarrow> ctx \<Rightarrow> groups \<Rightarrow> setKey list \<Rightarrow> sets \<Rightarrow> sets run" where
  "reconcile_keys W cfg d ctx gs [] sets = ret sets"
| "reconcile_keys W cfg d ctx gs (key # keys) sets =
     bind_io (reconcileSet W cfg d ctx (case map_of gs key of None \<Rightarrow> [] | Some ps \<Rightarrow> ps) (stateFor sets key))
       (\<lambda>(err, st). reconcile_keys W cfg d ctx gs keys (sets(key \<mapsto> st)))"

definition reconcile ::
  "world \<Rightarrow> Config \<Rightarrow> TCPDialer \<Rightarrow> ctx \<Rightarrow> sets \<Rightarrow> (ctl_error option \<times> sets) run" where
  "reconcile W cfg d ctx sets =
     bind_io (ListRedisPods W (RedisNamespaces cfg) (RedisPodLabelSelector cfg)) (\<lambda>r. case r of
        Inl e \<Rightarrow> ret (Some (ListError e), sets)
      | Inr pods \<Rightarrow>
          let gs = groupBySet pods (RedisSetLabelKey cfg) (DefaultSetName cfg) in
          bind_io (reconcile_keys W cfg d ctx gs (sortedKeys gs) sets) (\<lambda>sets'.
          ret (None, pruneVanishedSets gs sets')))"

end
