(* ===== verification/Reconcile_Safety.thy ===== *)
theory Reconcile_Safety
  imports Reconcile
begin

text \<open>
  What a reconcile pass can do to the cluster, whatever the servers and the API answer: the
  commands it sends and the patches it requests stay within the replication set, and a
  promotion is sent only when it is due, to the selected replica, and at most once.
\<close>

section \<open>The events of each operation\<close>

abbreviation info_cmd :: "string list" where
  "info_cmd \<equiv> [''INFO'', ''replication'']"

abbreviation promote_cmd :: "string list" where
  "promote_cmd \<equiv> [''REPLICAOF'', ''NO'', ''ONE'']"

abbreviation rewrite_cmd :: "string list" where
  "rewrite_cmd \<equiv> [''CONFIG'', ''REWRITE'']"

definition follow_cmd :: "Config \<Rightarrow> Pod \<Rightarrow> string list" where
  "follow_cmd cfg master = [''REPLICAOF'', IP master, Itoa (RedisPort cfg)]"

lemma emits_close_ret: "talks P (conn_addr c) \<Longrightarrow> emits P (bind_io (conn_Close c) (\<lambda>_. ret x))"
  by (intro emits_rules)

lemma emits_probe_pod [emits_rules]:
  assumes "talks P (pod_addr cfg p)" "P (sent (pod_addr cfg p) info_cmd)"
  shows "emits P (probe_pod W cfg d ctx p)"
proof -
  have info: "emits P (bind_io (conn_InfoReplication W ctx c) (\<lambda>(r, c').
               bind_io (conn_Close c') (\<lambda>_. ret (f r))))" if "conn_addr c = pod_addr cfg p"
    for c and f :: "redis_error + ReplicationInfo \<Rightarrow> podInfo option"
    by (rule emits_bind_wp[OF _ cmds_addr(1)])
      (auto intro!: emits_cmds emits_close_ret simp: that assms)
  have "emits P (bind_io (Dial W d ctx (pod_addr cfg p)) (\<lambda>r. case r of Inl e \<Rightarrow> ret None
      | Inr c \<Rightarrow> bind_io (conn_InfoReplication W ctx c) (\<lambda>(r, c').
               bind_io (conn_Close c') (\<lambda>_.
               ret (case r of Inl e \<Rightarrow> None | Inr i \<Rightarrow> Some \<lparr>pi_pod = p, pi_info = i\<rparr>)))))"
    by (rule emits_bind_wp[OF _ Dial_addr]) (auto intro!: emits_Dial emits_ret info assms split: sum.splits)
  then show ?thesis by (simp add: probe_pod_def emits_ret)
qed

lemma emits_probe [emits_rules]:
  "(\<And>p. p \<in> set pods \<Longrightarrow> talks P (pod_addr cfg p) \<and> P (sent (pod_addr cfg p) info_cmd)) \<Longrightarrow>
   emits P (probe W cfg d ctx pods)"
  unfolding probe_def by (intro emits_rules) auto

lemma emits_rewrite_if [emits_rules]:
  "talks P (conn_addr c) \<Longrightarrow> P (sent (conn_addr c) rewrite_cmd) \<Longrightarrow> emits P (rewrite_if W cfg ctx c)"
  unfolding rewrite_if_def by (auto intro!: emits_rules)

lemma rewrite_if_addr: "wp (rewrite_if W cfg ctx c) (\<lambda>c' _. conn_addr c' = conn_addr c) h"
  unfolding rewrite_if_def by (auto intro!: wp_mono[OF cmds_addr(4)])

lemma emits_replicateOf [emits_rules]:
  assumes "talks P (pod_addr cfg p)" "P (sent (pod_addr cfg p) [''REPLICAOF'', ip, Itoa (RedisPort cfg)])"
    "P (sent (pod_addr cfg p) rewrite_cmd)"
  shows "emits P (replicateOf W cfg d ctx p ip)"
proof -
  have rew: "emits P (bind_io (rewrite_if W cfg ctx c) (\<lambda>c''. bind_io (conn_Close c'') (\<lambda>_. ret x)))"
    if "conn_addr c = pod_addr cfg p" for c and x :: "ctl_error option"
    by (rule emits_bind_wp[OF _ rewrite_if_addr])
      (auto intro!: emits_rewrite_if emits_close_ret simp: that assms)
  have rep: "emits P (bind_io (conn_ReplicaOf W ctx c ip (RedisPort cfg)) (\<lambda>(r, c'). case r of
             Some e \<Rightarrow> bind_io (conn_Close c') (\<lambda>_. ret (Some (ReplicaOfError (Name p) e)))
           | None \<Rightarrow> bind_io (rewrite_if W cfg ctx c') (\<lambda>c''. bind_io (conn_Close c'') (\<lambda>_. ret None))))"
    if "conn_addr c = pod_addr cfg p" for c
    by (rule emits_bind_wp[OF _ cmds_addr(2)])
      (auto intro!: emits_cmds emits_close_ret rew simp: that assms split: option.splits)
  show ?thesis
    unfolding replicateOf_def
    by (rule emits_bind_wp[OF _ Dial_addr]) (auto intro!: emits_Dial emits_ret rep assms split: sum.splits)
qed

lemma emits_redirect_others [emits_rules]:
  assumes "\<And>x. x \<in> set others \<Longrightarrow> talks P (pod_addr cfg (pi_pod x))"
    "\<And>x. x \<in> set others \<Longrightarrow> P (sent (pod_addr cfg (pi_pod x)) (follow_cmd cfg master))"
    "\<And>x. x \<in> set others \<Longrightarrow> P (sent (pod_addr cfg (pi_pod x)) rewrite_cmd)"
  shows "emits P (redirect_others W cfg d ctx master others)"
  unfolding redirect_others_def
  using assms unfolding follow_cmd_def by (auto intro!: emits_rules)

lemma emits_syncLabels [emits_rules]:
  "(\<And>p ok. p \<in> set pods \<Longrightarrow>
      P (EvPatch (Namespace p) (Name p) (label_patch (JStr (wanted_role m p))) ok)) \<Longrightarrow>
   emits P (syncLabels W pods m)"
  unfolding syncLabels_def SetRoleLabel_def by (auto intro!: emits_rules)

lemma emits_promotion:
  fixes st' :: setState and candidate :: podInfo
  assumes "talks P (pod_addr cfg cpod)" "P (sent (pod_addr cfg cpod) promote_cmd)"
    "P (sent (pod_addr cfg cpod) rewrite_cmd)"
    "\<And>t ok. P (EvPatch (Namespace cpod) (Name cpod) (annotation_patch (ann t)) ok)"
    "emits P (redirect_others W cfg d ctx cpod replicas)"
    "conn_addr c = pod_addr cfg cpod"
  shows "emits P (bind_io (conn_ReplicaOfNoOne W ctx c) (\<lambda>(r, c1). case r of
                Some e \<Rightarrow> bind_io (conn_Close c1) (\<lambda>_. ret (Inl (PromoteError (Name cpod) e), st'))
              | None \<Rightarrow>
                  bind_io (rewrite_if W cfg ctx c1) (\<lambda>c2.
                  bind_io (now W) (\<lambda>t.
                  bind_io (SetAnnotations W (Namespace cpod) (Name cpod) (ann t)) (\<lambda>_.
                  bind_io (redirect_others W cfg d ctx cpod replicas) (\<lambda>_.
                  bind_io (conn_Close c2) (\<lambda>_.
                  ret (Inr (Some candidate), st'))))))))"
proof -
  have P_now: "P EvNow" using assms(1) by (simp add: talks_def)
  have rew: "emits P (bind_io (rewrite_if W cfg ctx c1) (\<lambda>c2. bind_io (now W) (\<lambda>t.
      bind_io (SetAnnotations W (Namespace cpod) (Name cpod) (ann t)) (\<lambda>_.
      bind_io (redirect_others W cfg d ctx cpod replicas) (\<lambda>_.
      bind_io (conn_Close c2) (\<lambda>_. ret x))))))" if "conn_addr c1 = pod_addr cfg cpod"
    for c1 and x :: "(ctl_error + podInfo option) \<times> setState"
    by (rule emits_bind_wp[OF _ rewrite_if_addr])
      (auto intro!: emits_rewrite_if emits_bind emits_now emits_patch emits_close_ret emits_Close
        emits_ret assms(4,5) P_now simp: that assms(1-3) SetAnnotations_def)
  show ?thesis
    by (rule emits_bind_wp[OF _ cmds_addr(3)])
      (auto intro!: emits_cmds emits_close_ret rew simp: assms(1-3,6) split: option.splits)
qed

text \<open>The patch that records a failover.\<close>

definition epoch_patch :: "int \<Rightarrow> int \<Rightarrow> json" where
  "epoch_patch n t = annotation_patch [(AnnotationFailoverEpoch, Itoa n), (AnnotationPromotedAt, rfc3339 t)]"

lemma emits_failover:
  assumes "\<And>x. x \<in> set replicas \<Longrightarrow> talks P (pod_addr cfg (pi_pod x))"
    "\<And>x. x \<in> set replicas \<Longrightarrow> P (sent (pod_addr cfg (pi_pod x)) rewrite_cmd)"
    "\<And>x m. x \<in> set replicas \<Longrightarrow> m \<in> set replicas \<Longrightarrow>
       P (sent (pod_addr cfg (pi_pod x)) (follow_cmd cfg (pi_pod m)))"
    "\<And>x t ok. x \<in> set replicas \<Longrightarrow>
       P (EvPatch (Namespace (pi_pod x)) (Name (pi_pod x)) (epoch_patch (nextEpoch pods st) t) ok)"
    "\<And>c. selectFailoverCandidate replicas = Some c \<Longrightarrow> P (sent (pod_addr cfg (pi_pod c)) promote_cmd)"
  shows "emits P (failover W cfg d ctx pods replicas st)"
proof (cases "selectFailoverCandidate replicas")
  case None
  then show ?thesis by (simp add: failover_def emits_ret)
next
  case (Some c)
  have c: "c \<in> set replicas" using Some by (rule selectFailoverCandidate_in)
  have red: "emits P (redirect_others W cfg d ctx (pi_pod c) replicas)"
    using assms c by (auto intro!: emits_rules)
  show ?thesis
    unfolding failover_def Some Let_def option.case
    by (rule emits_bind_wp[OF _ Dial_addr])
      (auto intro!: emits_Dial emits_ret emits_promotion red assms[unfolded epoch_patch_def] c Some split: sum.splits)
qed

section \<open>A pass stays within its replication set\<close>

text \<open>
  The events a pass over the Pods \<open>pods\<close> may cause: reads of the clock, traffic with those
  Pods' addresses (one of four commands, where a master named in \<^verbatim>\<open>REPLICAOF\<close> is again one
  of those Pods), and patches of those Pods.
\<close>

fun set_event :: "Config \<Rightarrow> Pod list \<Rightarrow> event \<Rightarrow> bool" where
  "set_event cfg pods EvNow \<longleftrightarrow> True"
| "set_event cfg pods (EvList ns sel) \<longleftrightarrow> False"
| "set_event cfg pods (EvSlices ns sel) \<longleftrightarrow> False"
| "set_event cfg pods (EvSleep t) \<longleftrightarrow> False"
| "set_event cfg pods (EvPatch ns name data ok) \<longleftrightarrow> (\<exists>p \<in> set pods. ns = Namespace p \<and> name = Name p)"
| "set_event cfg pods (EvDial addr t) \<longleftrightarrow> (\<exists>p \<in> set pods. addr = pod_addr cfg p)"
| "set_event cfg pods (EvDeadline addr t) \<longleftrightarrow> (\<exists>p \<in> set pods. addr = pod_addr cfg p)"
| "set_event cfg pods (EvRecv addr) \<longleftrightarrow> (\<exists>p \<in> set pods. addr = pod_addr cfg p)"
| "set_event cfg pods (EvClose addr) \<longleftrightarrow> (\<exists>p \<in> set pods. addr = pod_addr cfg p)"
| "set_event cfg pods (EvWrite addr bytes) \<longleftrightarrow>
     (\<exists>p \<in> set pods. addr = pod_addr cfg p) \<and>
     (bytes \<in> encodeCommand ` {info_cmd, promote_cmd, rewrite_cmd} \<or>
      (\<exists>m \<in> set pods. bytes = encodeCommand (follow_cmd cfg m)))"

lemma probe_pod_result:
  "wp (probe_pod W cfg d ctx p) (\<lambda>r _. \<forall>x. r = Some x \<longrightarrow> pi_pod x = p \<and> IP p \<noteq> [] \<and> Phase p = ''Running'') h"
  unfolding probe_pod_def wp_def
  by (auto simp: io_simps split: prod.splits out.splits sum.splits)

lemma map_io_probe_result:
  "wp (map_io (probe_pod W cfg d ctx) pods)
     (\<lambda>rs _. list_all2 (\<lambda>p r. \<forall>x. r = Some x \<longrightarrow> pi_pod x = p) pods rs) h"
proof (induction pods arbitrary: h)
  case Nil
  then show ?case by simp
next
  case (Cons p pods)
  show ?case
    by (auto intro!: wp_mono[OF probe_pod_result] wp_mono[OF Cons.IH])
qed

lemma map_filter_result:
  "list_all2 (\<lambda>p r. \<forall>x. r = Some x \<longrightarrow> pi_pod x = p) pods rs \<Longrightarrow>
   \<forall>x \<in> set (List.map_filter id rs). pi_pod x \<in> set pods"
  by (induction pods rs rule: list_all2_induct) (auto simp: List.map_filter_def)

lemma probe_result: "wp (probe W cfg d ctx pods) (\<lambda>reached _. \<forall>x \<in> set reached. pi_pod x \<in> set pods) h"
  unfolding probe_def by (auto intro!: wp_mono[OF map_io_probe_result] map_filter_result[rule_format])

lemma converge_result:
  "wp (converge_masters W cfg d ctx masters) (\<lambda>m _. m \<in> set masters) h"
  unfolding converge_masters_def wp_def
  by (auto simp: io_simps split: option.splits prod.splits out.splits
      dest: labeledMaster_in selectBootstrapCandidate_in)

lemma emits_converge:
  assumes "\<And>x. x \<in> set masters \<Longrightarrow> talks P (pod_addr cfg (pi_pod x))"
    "\<And>x. x \<in> set masters \<Longrightarrow> P (sent (pod_addr cfg (pi_pod x)) rewrite_cmd)"
    "\<And>x m. x \<in> set masters \<Longrightarrow> m \<in> set masters \<Longrightarrow>
       P (sent (pod_addr cfg (pi_pod x)) (follow_cmd cfg (pi_pod m)))"
  shows "emits P (converge_masters W cfg d ctx masters)"
proof -
  have red: "emits P (bind_io (redirect_others W cfg d ctx (pi_pod m) masters) (\<lambda>_. ret m))"
    if "m \<in> set masters" for m
    using assms that by (auto intro!: emits_rules)
  show ?thesis
    unfolding converge_masters_def
    by (cases "labeledMaster masters"; cases "selectBootstrapCandidate cfg masters")
      (auto intro!: red emits_panic dest: labeledMaster_in selectBootstrapCandidate_in)
qed

lemma emits_handle_missing:
  assumes "P EvNow" "\<And>st. emits P (failover W cfg d ctx pods replicas st)"
  shows "emits P (handle_missing W cfg d ctx pods replicas st)"
  unfolding handle_missing_def Let_def
  by (auto intro!: emits_rules assms split: option.splits)

lemma emits_reconcileSet:
  assumes "\<And>p. p \<in> set pods \<Longrightarrow> talks P (pod_addr cfg p)"
    "\<And>p cmd. p \<in> set pods \<Longrightarrow> cmd \<in> {info_cmd, promote_cmd, rewrite_cmd} \<Longrightarrow> P (sent (pod_addr cfg p) cmd)"
    "\<And>p m. p \<in> set pods \<Longrightarrow> m \<in> set pods \<Longrightarrow> P (sent (pod_addr cfg p) (follow_cmd cfg m))"
    "\<And>p data ok. p \<in> set pods \<Longrightarrow> P (EvPatch (Namespace p) (Name p) data ok)"
    "P EvNow"
  shows "emits P (reconcileSet W cfg d ctx pods st)"
proof -
  have fo: "emits P (failover W cfg d ctx pods (filter (\<lambda>x. \<not> is_master x) reached) st')"
    if "\<forall>x \<in> set reached. pi_pod x \<in> set pods" for reached st'
    using that assms by (intro emits_failover) (auto dest: selectFailoverCandidate_in)
  have cv: "emits P (converge_masters W cfg d ctx (filter is_master reached))"
    if "\<forall>x \<in> set reached. pi_pod x \<in> set pods" for reached
    using that assms by (intro emits_converge) auto
  have sl: "emits P (syncLabels W pods m)" for m
    using assms by (intro emits_syncLabels) auto
  show ?thesis
    unfolding reconcileSet_def Let_def
    using assms
    by (intro emits_bind_wp[OF _ probe_result])
      (auto intro!: emits_probe emits_bind emits_ret emits_handle_missing fo cv sl
        split: sum.splits option.splits)
qed

lemma set_event_talks: "p \<in> set pods \<Longrightarrow> talks (set_event cfg pods) (pod_addr cfg p)"
  by (auto simp: talks_def)

lemma emits_set_event: "emits (set_event cfg pods) (reconcileSet W cfg d ctx pods st)"
  by (rule emits_reconcileSet) (auto simp: set_event_talks)

lemma emits_reconcile_keys:
  assumes "\<And>k. k \<in> set keys \<Longrightarrow>
     map_of gs k = Some (filter (\<lambda>p. set_of lk dflt p = k) pods)"
  shows "emits (\<lambda>e. \<exists>k. set_event cfg (filter (\<lambda>p. set_of lk dflt p = k) pods) e)
           (reconcile_keys W cfg d ctx gs keys sets)"
  using assms
proof (induction keys arbitrary: sets)
  case Nil
  then show ?case by (simp add: emits_ret)
next
  case (Cons k keys)
  have "emits (\<lambda>e. \<exists>k. set_event cfg (filter (\<lambda>p. set_of lk dflt p = k) pods) e)
          (reconcileSet W cfg d ctx (filter (\<lambda>p. set_of lk dflt p = k) pods) st)" for st
    by (rule emits_mono[OF emits_set_event]) blast
  with Cons show ?case by (auto intro!: emits_bind)
qed

lemma group_lookup:
  assumes "k \<in> set (sortedKeys (groupBySet pods lk dflt))"
  shows "map_of (groupBySet pods lk dflt) k = Some (filter (\<lambda>p. set_of lk dflt p = k) pods)"
proof -
  have "k \<in> set_of lk dflt ` set pods"
    using assms set_groupBySet_keys[of pods lk dflt] by (simp add: sortedKeys_def)
  then show ?thesis by (auto simp: map_of_groupBySet Let_def filter_empty_conv)
qed

text \<open>
  C2. Whatever the API server, the clock and the Redis servers answer, every event of a
  reconcile pass is either the listing of Pods or belongs to one replication set of the
  listed Pods (the Pods that share a namespace and a set name): commands go to addresses of
  that set's Pods only, a \<^verbatim>\<open>REPLICAOF\<close> names a Pod of the same set as master, and patches
  touch Pods of that set only.
\<close>

theorem reconcile_isolation:
  "emits_at (\<lambda>e.
     (\<exists>ns \<in> set (RedisNamespaces cfg). e = EvList ns (RedisPodLabelSelector cfg)) \<or>
     (\<exists>pods h1 k.
        ListRedisPods W (RedisNamespaces cfg) (RedisPodLabelSelector cfg) h = (Done (Inr pods), h1) \<and>
        set_event cfg (filter (\<lambda>p. set_of (RedisSetLabelKey cfg) (DefaultSetName cfg) p = k) pods) e))
   (reconcile W cfg d ctx sets) h"
    (is "emits_at ?P _ h")
  unfolding reconcile_def
proof (rule emits_at_bind)
  show "emits_at ?P (ListRedisPods W (RedisNamespaces cfg) (RedisPodLabelSelector cfg)) h"
    by (rule emits_atI, rule emits_ListRedisPods) blast
next
  fix x h1
  assume run: "ListRedisPods W (RedisNamespaces cfg) (RedisPodLabelSelector cfg) h = (Done x, h1)"
  show "emits_at ?P (case x of Inl e \<Rightarrow> ret (Some (ListError e), sets)
    | Inr pods \<Rightarrow> let gs = groupBySet pods (RedisSetLabelKey cfg) (DefaultSetName cfg) in
        bind_io (reconcile_keys W cfg d ctx gs (sortedKeys gs) sets) (\<lambda>sets'.
        ret (None, pruneVanishedSets gs sets'))) h1"
  proof (cases x)
    case (Inl e)
    then show ?thesis by (simp add: emits_atI emits_ret)
  next
    case (Inr pods)
    have "emits ?P (reconcile_keys W cfg d ctx
        (groupBySet pods (RedisSetLabelKey cfg) (DefaultSetName cfg))
        (sortedKeys (groupBySet pods (RedisSetLabelKey cfg) (DefaultSetName cfg))) sets)"
      by (rule emits_mono[OF emits_reconcile_keys[OF group_lookup]]) (use run Inr in blast)+
    then show ?thesis
      by (simp add: Inr Let_def) (intro emits_atI emits_bind emits_ret)
  qed
qed

section \<open>Promotions\<close>

lemma follow_not_promote: "follow_cmd cfg m \<noteq> promote_cmd"
proof -
  have "CHR ''O'' \<notin> set (Itoa n)" for n
    by (auto simp: is_digit_def less_eq_char_def dest!: Itoa_chars)
  then have "Itoa (RedisPort cfg) \<noteq> ''ONE''" by (metis list.set_intros(1))
  then show ?thesis by (simp add: follow_cmd_def)
qed

definition promotes :: "event \<Rightarrow> bool" where
  "promotes e \<longleftrightarrow> (\<exists>addr. e = sent addr promote_cmd)"

lemma promotes_simps [simp]:
  "\<not> promotes EvNow" "\<not> promotes (EvPatch ns name data ok)" "\<not> promotes (EvList ns sel)"
  "promotes (sent addr cmd) \<longleftrightarrow> cmd = promote_cmd"
  by (auto simp: promotes_def)

lemma talks_no_promotion: "talks (\<lambda>e. \<not> promotes e) addr"
  by (auto simp: talks_def promotes_def)

lemma no_promotion:
  shows "emits (\<lambda>e. \<not> promotes e) (probe W cfg d ctx pods)"
    and "emits (\<lambda>e. \<not> promotes e) (syncLabels W pods m)"
    and "emits (\<lambda>e. \<not> promotes e) (converge_masters W cfg d ctx masters)"
    and "emits (\<lambda>e. \<not> promotes e) (redirect_others W cfg d ctx master others)"
    and "emits (\<lambda>e. \<not> promotes e) (rewrite_if W cfg ctx c)"
  by (auto intro!: emits_probe emits_syncLabels emits_converge emits_redirect_others emits_rewrite_if
      simp: talks_no_promotion follow_not_promote)

lemma budget_ret: "budget Q n (ret x)"
  by (rule budget_mono[OF budget_0]) (simp_all add: emits_ret)

lemma emits_at_now:
  "P EvNow \<Longrightarrow> emits_at P (f (w_now W h)) (h @ [EvNow]) \<Longrightarrow> emits_at P (bind_io (now W) f) h"
  by (rule emits_at_bind[OF emits_atI[OF emits_now]]) (auto simp: now_def io_simps)

lemma budget_failover: "budget promotes (Suc 0) (failover W cfg d ctx pods replicas st)"
proof -
  have zero: "budget promotes 0 (bind_io (rewrite_if W cfg ctx c1) (\<lambda>c2. bind_io (now W) (\<lambda>t.
      bind_io (SetAnnotations W ns name (ann t)) (\<lambda>_. bind_io (redirect_others W cfg d ctx cpod replicas) (\<lambda>_.
      bind_io (conn_Close c2) (\<lambda>_. ret x))))))" for c1 ns name ann cpod
      and x :: "(ctl_error + podInfo option) \<times> setState"
    by (intro budget_0 emits_bind no_promotion emits_now emits_close_ret)
      (auto intro: emits_patch simp: talks_no_promotion SetAnnotations_def)
  have close: "budget promotes 0 (bind_io (conn_Close c1) (\<lambda>_. ret x))" for c1
      and x :: "(ctl_error + podInfo option) \<times> setState"
    by (intro budget_0 emits_close_ret talks_no_promotion)
  have one: "budget promotes (Suc 0) (conn_ReplicaOfNoOne W ctx c)" for c
  proof -
    have "budget promotes (Suc 0) (do_cmd W ctx c promote_cmd)"
      by (auto simp: budget_def do_cmd_def Let_def now_def io_simps writeCommand_def promotes_def
          split: option.splits prod.splits out.splits)
    then show ?thesis
      unfolding conn_ReplicaOfNoOne_def
      by (intro budget_bind[where k = "Suc 0" and n = 0, simplified]) (auto simp: budget_ret)
  qed
  have dial: "budget promotes 0 (Dial W d ctx addr)" for addr
    by (intro budget_0 emits_Dial talks_no_promotion)
  have rest: "budget promotes (Suc 0 + 0) (bind_io (conn_ReplicaOfNoOne W ctx c) f)"
    if "\<And>x. budget promotes 0 (f x)" for c and f :: "_ \<Rightarrow> ((ctl_error + podInfo option) \<times> setState) run"
    using one that by (rule budget_bind)
  show ?thesis
    unfolding failover_def Let_def
    by (cases "selectFailoverCandidate replicas")
      (auto intro!: budget_ret budget_bind[OF dial, where n = "Suc 0", simplified] rest[simplified] zero close
        split: sum.splits option.splits)
qed

lemma budget_reconcileSet: "budget promotes (Suc 0) (reconcileSet W cfg d ctx pods st)"
proof -
  have sl: "budget promotes 0 (bind_io (syncLabels W pods m) (\<lambda>_. ret x))" for m
      and x :: "ctl_error option \<times> setState"
    by (intro budget_0 emits_bind no_promotion emits_ret)
  have hm: "budget promotes (Suc 0) (handle_missing W cfg d ctx pods replicas st)" for replicas
    unfolding handle_missing_def Let_def
    by (cases "masterMissingAt st")
      (auto intro!: budget_bind[where k = 0 and n = "Suc 0", simplified] budget_failover budget_ret budget_0 emits_now)
  have cv: "budget promotes 0 (bind_io (converge_masters W cfg d ctx ms)
      (\<lambda>m. bind_io (syncLabels W pods (Name (pi_pod m))) (\<lambda>_. ret x)))" for ms
      and x :: "ctl_error option \<times> setState"
    by (intro budget_0 emits_bind no_promotion emits_ret)
  have "budget promotes (0 + Suc 0) (reconcileSet W cfg d ctx pods st)"
    unfolding reconcileSet_def Let_def
    by (intro budget_bind budget_0 no_promotion)
      (auto intro!: budget_bind[where k = "Suc 0" and n = 0, simplified] hm sl budget_ret
        budget_mono[OF sl] budget_mono[OF cv] split: sum.splits option.splits)
  then show ?thesis by simp
qed

text \<open>How long the master has been missing, as the pass over the set measures it after its probes.\<close>

definition missing_for :: "world \<Rightarrow> setState \<Rightarrow> event list \<Rightarrow> int" where
  "missing_for W st h1 = (case masterMissingAt st of
      Some since \<Rightarrow> w_now W h1 - since
    | None \<Rightarrow> w_now W (h1 @ [EvNow]) - w_now W h1)"

text \<open>The address that a pass from the history \<open>h\<close> may promote.\<close>

definition promotion_due ::
  "world \<Rightarrow> Config \<Rightarrow> TCPDialer \<Rightarrow> ctx \<Rightarrow> Pod list \<Rightarrow> setState \<Rightarrow> event list \<Rightarrow> string \<Rightarrow> bool" where
  "promotion_due W cfg d ctx pods st h addr \<longleftrightarrow>
     (\<exists>reached h1 c. probe W cfg d ctx pods h = (Done reached, h1) \<and>
        (\<forall>x \<in> set reached. \<not> is_master x) \<and>
        selectFailoverCandidate reached = Some c \<and> addr = pod_addr cfg (pi_pod c) \<and>
        MasterFailureThreshold cfg \<le> missing_for W st h1)"

abbreviation only_due ::
  "world \<Rightarrow> Config \<Rightarrow> TCPDialer \<Rightarrow> ctx \<Rightarrow> Pod list \<Rightarrow> setState \<Rightarrow> event list \<Rightarrow> event \<Rightarrow> bool" where
  "only_due W cfg d ctx pods st h e \<equiv>
     \<forall>addr. e = sent addr promote_cmd \<longrightarrow> promotion_due W cfg d ctx pods st h addr"

lemma emits_only_due:
  "emits (\<lambda>e. \<not> promotes e) m \<Longrightarrow> emits (only_due W cfg d ctx pods st h) m"
  by (erule emits_mono) (auto simp: promotes_def)

lemma failover_only_due:
  assumes "probe W cfg d ctx pods h = (Done reached, h1)" "\<forall>x \<in> set reached. \<not> is_master x"
    "MasterFailureThreshold cfg \<le> missing_for W st h1"
  shows "emits (only_due W cfg d ctx pods st h) (failover W cfg d ctx pods reached st1)"
  by (rule emits_failover)
    (use assms in \<open>auto simp: talks_def follow_not_promote promotion_due_def\<close>)

lemma handle_missing_only_due:
  assumes "probe W cfg d ctx pods h = (Done reached, h1)" "\<forall>x \<in> set reached. \<not> is_master x"
  shows "emits_at (only_due W cfg d ctx pods st h) (handle_missing W cfg d ctx pods reached st) h1"
  unfolding handle_missing_def Let_def
  by (cases "masterMissingAt st")
    (auto intro!: emits_at_now emits_atI[OF failover_only_due[OF assms]] emits_atI[OF emits_ret]
      simp: missing_for_def)

lemma reconcileSet_only_due:
  "emits_at (only_due W cfg d ctx pods st h) (reconcileSet W cfg d ctx pods st) h"
  unfolding reconcileSet_def Let_def
proof (rule emits_at_bind[OF emits_atI[OF emits_only_due[OF no_promotion(1)]]], goal_cases)
  case (1 reached h1)
  note sl = emits_only_due[OF no_promotion(2), of W cfg d ctx pods st h]
  note cv = emits_only_due[OF no_promotion(3), of W cfg d ctx pods st h]
  consider "length (filter is_master reached) = 1" | "length (filter is_master reached) > 1"
    | "filter is_master reached = []" by (cases "filter is_master reached") auto
  then show ?case
  proof cases
    case 3
    then have none: "\<forall>x \<in> set reached. \<not> is_master x" by (simp add: filter_empty_conv)
    then have all: "filter (\<lambda>x. \<not> is_master x) reached = reached" by simp
    from handle_missing_only_due[OF 1 none, of st] show ?thesis
      unfolding all using 3 by simp (erule emits_at_bind,
          auto intro!: emits_atI emits_bind sl emits_ret split: sum.splits option.splits)
  qed (auto intro!: emits_atI emits_bind sl cv emits_ret)
qed

text \<open>
  C3. A pass over a replication set sends \<^verbatim>\<open>REPLICAOF NO ONE\<close> at most once, and only when
  none of the Pods that answered reports the role master, the failure timer shows that the
  master has been missing for at least the failure threshold, and the receiver is the replica
  that \<^verbatim>\<open>selectFailoverCandidate\<close> chose among the Pods that answered.
\<close>

theorem promotion_only_when_due:
  assumes "reconcileSet W cfg d ctx pods st h = (r, h @ es)"
  shows "length (filter promotes es) \<le> 1 \<and>
    (\<forall>addr. sent addr promote_cmd \<in> set es \<longrightarrow> promotion_due W cfg d ctx pods st h addr)"
proof
  obtain es' where "snd (reconcileSet W cfg d ctx pods st h) = h @ es'" "length (filter promotes es') \<le> 1"
    using budget_reconcileSet[of W cfg d ctx pods st] unfolding budget_def by auto
  with assms show "length (filter promotes es) \<le> 1" by simp
  show "\<forall>addr. sent addr promote_cmd \<in> set es \<longrightarrow> promotion_due W cfg d ctx pods st h addr"
    using emits_atD[OF reconcileSet_only_due assms] by blast
qed

end
