(* ===== verification/Reconcile_Labels.thy ===== *)
theory Reconcile_Labels
  imports Reconcile_Safety
begin

text \<open>
  What a reconcile pass achieves: the labels of a set after a pass whose patches are accepted,
  the failover epoch, the failure timer, and the state kept for each set.
\<close>

section \<open>The patches of syncLabels\<close>

definition label_event :: "string \<Rightarrow> Pod \<Rightarrow> bool \<Rightarrow> event" where
  "label_event m p ok = EvPatch (Namespace p) (Name p) (label_patch (JStr (wanted_role m p))) ok"

definition mislabeled :: "string \<Rightarrow> Pod list \<Rightarrow> Pod list" where
  "mislabeled m pods = filter (\<lambda>p. RoleLabel p \<noteq> wanted_role m p) pods"

lemma syncLabels_trace:
  "\<exists>oks. length oks = length (mislabeled m pods) \<and>
     syncLabels W pods m h = (Done (), h @ map2 (label_event m) (mislabeled m pods) oks)"
proof (induction pods arbitrary: h)
  case Nil
  then show ?case by (simp add: syncLabels_def mislabeled_def io_simps)
next
  case (Cons p pods)
  show ?case
  proof (cases "RoleLabel p = wanted_role m p")
    case True
    with Cons show ?thesis by (simp add: syncLabels_def mislabeled_def)
  next
    case False
    define ok where "ok \<longleftrightarrow> w_patch W h (Namespace p) (Name p) (label_patch (JStr (wanted_role m p))) = None"
    obtain oks where oks: "length oks = length (mislabeled m pods)"
      "syncLabels W pods m (h @ [label_event m p ok]) =
        (Done (), (h @ [label_event m p ok]) @ map2 (label_event m) (mislabeled m pods) oks)"
      using Cons by blast
    have "syncLabels W (p # pods) m h = syncLabels W pods m (h @ [label_event m p ok])"
      using False
      by (simp add: syncLabels_def SetRoleLabel_def patch_def io_simps label_event_def ok_def)
    with oks False show ?thesis
      by (intro exI[of _ "ok # oks"]) (simp add: mislabeled_def)
  qed
qed

text \<open>The API server accepted the patch, if the event is one.\<close>

fun accepted :: "event \<Rightarrow> bool" where
  "accepted (EvPatch ns name data ok) \<longleftrightarrow> ok"
| "accepted _ \<longleftrightarrow> True"

text \<open>The cluster has the listed Pods, with the labels they were listed with.\<close>

definition reflects :: "cluster \<Rightarrow> Pod list \<Rightarrow> bool" where
  "reflects C pods \<longleftrightarrow>
     (\<forall>p \<in> set pods. \<exists>kp. C (Namespace p, Name p) = Some kp \<and> kp_Labels kp = Labels p)"

abbreviation pod_id :: "Pod \<Rightarrow> string \<times> string" where
  "pod_id p \<equiv> (Namespace p, Name p)"

lemma cluster_role_label_event:
  "C (pod_id p) \<noteq> None \<Longrightarrow> cluster_role (apply_event (label_event m p True) C) (pod_id p) = wanted_role m p"
  by (auto simp: label_event_def cluster_role_def apply_label_patch lookup_str_def)

lemma apply_label_event_other:
  "k \<noteq> pod_id p \<Longrightarrow> apply_event (label_event m p ok) C k = C k"
  by (cases k) (auto intro!: apply_event_other simp: label_event_def)

lemma replay_label_events_other:
  "k \<notin> pod_id ` set ps \<Longrightarrow> replay C (map (\<lambda>p. label_event m p True) ps) k = C k"
  by (cases k) (auto intro!: replay_other simp: label_event_def)

lemma replay_labels:
  assumes "distinct (map pod_id pods)" "reflects C pods" "p \<in> set pods"
  shows "cluster_role (replay C (map (\<lambda>p. label_event m p True) (mislabeled m pods))) (pod_id p) = wanted_role m p"
  using assms
proof (induction pods arbitrary: C)
  case Nil
  then show ?case by simp
next
  case (Cons q pods)
  define C1 where "C1 = (if RoleLabel q = wanted_role m q then C else apply_event (label_event m q True) C)"
  have step: "replay C (map (\<lambda>p. label_event m p True) (mislabeled m (q # pods))) =
              replay C1 (map (\<lambda>p. label_event m p True) (mislabeled m pods))"
    by (simp add: C1_def mislabeled_def replay_def)
  have other: "C1 (pod_id x) = C (pod_id x)" if "x \<in> set pods" for x
    using Cons.prems(1) that by (auto simp: C1_def image_iff intro!: apply_label_event_other)
  have "reflects C1 pods"
    using Cons.prems(2) other by (auto simp: reflects_def)
  show ?case
  proof (cases "p = q")
    case True
    have "cluster_role C1 (pod_id q) = wanted_role m q"
      using Cons.prems(2) cluster_role_label_event[of C q m]
      by (auto simp: C1_def reflects_def cluster_role_def RoleLabel_def)
    moreover have "pod_id q \<notin> pod_id ` set (mislabeled m pods)"
      using Cons.prems(1) by (auto simp: mislabeled_def)
    ultimately show ?thesis
      using True by (simp add: step cluster_role_def replay_label_events_other)
  next
    case False
    with Cons \<open>reflects C1 pods\<close> show ?thesis by (simp add: step)
  qed
qed

lemma syncLabels_outcome:
  assumes run: "syncLabels W pods m h = (Done (), h @ es)"
    and ok: "list_all accepted es"
    and "distinct (map pod_id pods)" "reflects C pods" "p \<in> set pods"
  shows "cluster_role (replay C es) (pod_id p) = wanted_role m p"
proof -
  obtain oks where len: "length oks = length (mislabeled m pods)"
    and es: "es = map2 (label_event m) (mislabeled m pods) oks"
    using syncLabels_trace[of m pods W h] run by auto
  have "x \<in> set oks \<Longrightarrow> x" for x
  proof -
    assume "x \<in> set oks"
    then obtain i where "i < length oks" "oks ! i = x" by (auto simp: in_set_conv_nth)
    then have "i < length es" "es ! i = label_event m (mislabeled m pods ! i) x"
      using len by (simp_all add: es)
    then have "label_event m (mislabeled m pods ! i) x \<in> set es" by (metis nth_mem)
    then have "accepted (label_event m (mislabeled m pods ! i) x)" using ok by (simp add: list_all_iff)
    then show x by (simp add: label_event_def)
  qed
  then have "oks = replicate (length (mislabeled m pods)) True"
    using len by (metis (full_types) replicate_eqI)
  then have "es = map (\<lambda>p. label_event m p True) (mislabeled m pods)"
    unfolding es by (simp add: zip_replicate2 o_def)
  then show ?thesis using replay_labels assms(3-5) by simp
qed

section \<open>A designated master\<close>

text \<open>Events that leave every label as it is: the only patches are of annotations.\<close>

definition keeps_labels :: "event \<Rightarrow> bool" where
  "keeps_labels e \<longleftrightarrow> (\<forall>ns name data ok. e = EvPatch ns name data ok \<longrightarrow> (\<exists>kvs. data = annotation_patch kvs))"

lemma talks_keeps_labels: "talks keeps_labels addr"
  by (simp add: talks_def keeps_labels_def)

lemma keeps_labels_write [simp]: "keeps_labels (EvWrite a b)" "keeps_labels EvNow"
  by (simp_all add: keeps_labels_def)

lemma reflects_event:
  assumes "keeps_labels e" "reflects C pods"
  shows "reflects (apply_event e C) pods"
proof (cases "\<exists>ns name data. e = EvPatch ns name data True")
  case True
  then obtain ns name kvs where "e = EvPatch ns name (annotation_patch kvs) True"
    using assms(1) by (auto simp: keeps_labels_def)
  with assms(2) show ?thesis
    by (fastforce simp: reflects_def apply_annotation_patch split: option.splits)
next
  case False
  then have "apply_event e C = C"
    by (cases "(e, C)" rule: apply_event.cases) auto
  with assms(2) show ?thesis by simp
qed

lemma reflects_replay: "list_all keeps_labels es \<Longrightarrow> reflects C pods \<Longrightarrow> reflects (replay C es) pods"
  by (induction es arbitrary: C) (auto simp: replay_def reflects_event)

lemma emits_keeps_labels:
  shows "emits keeps_labels (probe W cfg d ctx pods)"
    and "emits keeps_labels (converge_masters W cfg d ctx masters)"
    and "emits keeps_labels (redirect_others W cfg d ctx master others)"
  by (auto intro!: emits_probe emits_converge emits_redirect_others simp: talks_keeps_labels)

lemma failover_result:
  "wp (failover W cfg d ctx pods replicas st)
     (\<lambda>(r, st') _. masterMissingAt st' = masterMissingAt st \<and>
        failoverEpoch st' = (if replicas = [] then failoverEpoch st else nextEpoch pods st) \<and>
        (\<forall>c. r = Inr (Some c) \<longrightarrow> selectFailoverCandidate replicas = Some c)) h"
  using selectFailoverCandidate_None[of replicas] unfolding failover_def Let_def
  by (auto simp del: wp_bind intro!: wp_bind_any split: sum.splits option.splits)

lemma handle_missing_result:
  "wp (handle_missing W cfg d ctx pods replicas st)
     (\<lambda>(r, st') _. masterMissingAt st' \<noteq> None \<and>
        (\<forall>c. r = Inr (Some c) \<longrightarrow> selectFailoverCandidate replicas = Some c)) h"
proof -
  have "wp (failover W cfg d ctx pods replicas (st\<lparr>masterMissingAt := Some since\<rparr>))
     (\<lambda>(r, st') _. masterMissingAt st' \<noteq> None \<and>
        (\<forall>c. r = Inr (Some c) \<longrightarrow> selectFailoverCandidate replicas = Some c)) h'" for since h'
    by (rule wp_mono[OF failover_result]) auto
  then show ?thesis
    unfolding handle_missing_def Let_def
    by (cases "masterMissingAt st") auto
qed

lemma emits_keeps_failover: "emits keeps_labels (failover W cfg d ctx pods replicas st)"
  by (rule emits_failover) (auto simp: talks_keeps_labels keeps_labels_def epoch_patch_def)

lemma emits_keeps_handle_missing: "emits keeps_labels (handle_missing W cfg d ctx pods replicas st)"
  by (intro emits_handle_missing emits_keeps_failover) simp

section \<open>A promotion that is reported was sent\<close>

lemma emits_True [intro!]:
  shows "emits (\<lambda>_. True) (Dial W d ctx addr)" "emits (\<lambda>_. True) (rewrite_if W cfg ctx c)"
    "emits (\<lambda>_. True) (conn_Close c)" "emits (\<lambda>_. True) (redirect_others W cfg d ctx m others)"
    "emits (\<lambda>_. True) (patch W ns name data)" "emits (\<lambda>_. True) (now W)"
  by (auto intro!: emits_rules simp: talks_def)

lemma ReplicaOfNoOne_sends:
  "wp (conn_ReplicaOfNoOne W ctx c)
     (\<lambda>(r, c') h'. r = None \<longrightarrow> (\<exists>es. h' = h @ es \<and> sent (conn_addr c) promote_cmd \<in> set es)) h"
  by (auto simp: conn_ReplicaOfNoOne_def do_cmd_def Let_def err_of_def writeCommand_def
      split: option.splits sum.splits prod.splits out.splits)

abbreviation promoted_in :: "Config \<Rightarrow> podInfo \<Rightarrow> event list \<Rightarrow> bool" where
  "promoted_in cfg x es \<equiv> sent (pod_addr cfg (pi_pod x)) promote_cmd \<in> set es"

lemma wp_extends:
  assumes "emits (\<lambda>_. True) m" "Q es"
    "\<And>es'. Q es \<Longrightarrow> Q (es @ es')"
  shows "wp m (\<lambda>_ h'. \<exists>es. h' = h @ es \<and> Q es) (h @ es)"
  using emits_wp[OF assms(1), of "h @ es"] by (rule wp_mono) (use assms(2,3) in auto)

lemma failover_sends:
  assumes sel: "selectFailoverCandidate replicas = Some c"
  shows "wp (failover W cfg d ctx pods replicas st)
     (\<lambda>(r, st') h'. (\<forall>e. r \<noteq> Inl e) \<longrightarrow> (\<exists>es. h' = h @ es \<and> promoted_in cfg c es)) h"
    (is "wp _ ?post h")
proof -
  let ?st' = "st\<lparr>failoverEpoch := nextEpoch pods st\<rparr>"
  let ?rest = "\<lambda>c1. bind_io (rewrite_if W cfg ctx c1) (\<lambda>c2. bind_io (now W) (\<lambda>t.
      bind_io (SetAnnotations W (Namespace (pi_pod c)) (Name (pi_pod c))
         [(AnnotationFailoverEpoch, Itoa (nextEpoch pods st)), (AnnotationPromotedAt, rfc3339 t)]) (\<lambda>_.
      bind_io (redirect_others W cfg d ctx (pi_pod c) replicas) (\<lambda>_.
      bind_io (conn_Close c2) (\<lambda>_. ret (Inr (Some c) :: ctl_error + podInfo option, ?st'))))))"
  have tail: "wp (?rest c1) ?post (h @ es)" if "promoted_in cfg c es" for c1 es
  proof -
    have "emits (\<lambda>_. True) (?rest c1)"
      unfolding SetAnnotations_def by (intro emits_bind emits_ret emits_True)
    from wp_extends[OF this, of "promoted_in cfg c" es h] that show ?thesis
      by (simp del: wp_bind) (erule wp_mono, auto)
  qed
  have prom: "wp (bind_io (conn_ReplicaOfNoOne W ctx k) (\<lambda>x. case x of (r, c1) \<Rightarrow> (case r of
        Some e \<Rightarrow> bind_io (conn_Close c1) (\<lambda>_. ret (Inl (PromoteError (Name (pi_pod c)) e), ?st'))
      | None \<Rightarrow> ?rest c1))) ?post (h @ es)"
    if addr: "conn_addr k = pod_addr cfg (pi_pod c)" for k es
    unfolding wp_bind
  proof (rule wp_mono[OF ReplicaOfNoOne_sends], goal_cases)
    case (1 x h')
    obtain r c1 where x: "x = (r, c1)" by fastforce
    show ?case
    proof (cases r)
      case None
      then obtain es' where "h' = h @ (es @ es')" "promoted_in cfg c (es @ es')"
        using 1 x addr by auto
      with x None tail[of "es @ es'" c1] show ?thesis by simp
    qed (simp add: x wp_all)
  qed
  show ?thesis
    unfolding failover_def sel Let_def option.case
    by (rule wp_bind_trace[OF emits_True(1)])
      (auto simp del: wp_bind intro!: prom dest: wpD[OF Dial_addr] split: sum.splits)
qed

lemma handle_missing_sends:
  assumes sel: "selectFailoverCandidate replicas = Some c"
  shows "wp (handle_missing W cfg d ctx pods replicas st)
     (\<lambda>(r, st') h'. \<forall>p. r = Inr (Some p) \<longrightarrow> (\<exists>es. h' = h @ es \<and> promoted_in cfg c es)) h"
    (is "wp _ ?post h")
proof -
  have "wp (failover W cfg d ctx pods replicas st1) ?post (h @ es)" for st1 es
    by (rule wp_mono[OF failover_sends[OF sel]]) force
  from this[where es = "[EvNow]"] this[where es = "[EvNow, EvNow]"] show ?thesis
    unfolding handle_missing_def Let_def by (cases "masterMissingAt st") auto
qed

section \<open>The master of a pass\<close>

text \<open>
  A pass settles on \<open>x\<close>: it answered the probe as a master, or it was promoted in the pass.
\<close>

definition settles_on ::
  "world \<Rightarrow> Config \<Rightarrow> TCPDialer \<Rightarrow> ctx \<Rightarrow> Pod list \<Rightarrow> event list \<Rightarrow> event list \<Rightarrow> podInfo \<Rightarrow> bool" where
  "settles_on W cfg d ctx pods h es x \<longleftrightarrow>
     (\<exists>reached h1. probe W cfg d ctx pods h = (Done reached, h1) \<and> x \<in> set reached) \<and>
     (is_master x \<or> promoted_in cfg x es)"

lemma settle_by_sync:
  assumes "list_all keeps_labels pre" "settles_on W cfg d ctx pods h pre x"
  shows "wp (bind_io (syncLabels W pods (Name (pi_pod x))) (\<lambda>_. ret y))
    (\<lambda>_ h'. \<exists>x pre. list_all keeps_labels pre \<and> settles_on W cfg d ctx pods h pre x \<and>
        syncLabels W pods (Name (pi_pod x)) (h @ pre) = (Done (), h')) (h @ pre)"
  unfolding wp_bind wp_ret by (rule wp_mono[OF wp_self]) (use assms in auto)

lemma reconcileSet_settles:
  "wp (reconcileSet W cfg d ctx pods st) (\<lambda>(err, st') h'. masterMissingAt st' = None \<longrightarrow>
     (\<exists>x pre. list_all keeps_labels pre \<and> settles_on W cfg d ctx pods h pre x \<and>
        syncLabels W pods (Name (pi_pod x)) (h @ pre) = (Done (), h'))) h"
    (is "wp _ ?post h")
  unfolding reconcileSet_def Let_def
proof (rule wp_bind_trace[OF emits_keeps_labels(1)], goal_cases)
  case (1 reached es)
  let ?ms = "filter is_master reached" and ?rs = "filter (\<lambda>x. \<not> is_master x) reached"
  have sync: "wp (bind_io (syncLabels W pods (Name (pi_pod x))) (\<lambda>_. ret (e, st'))) ?post (h @ pre)"
    if "list_all keeps_labels pre" "x \<in> set reached" "is_master x \<or> promoted_in cfg x pre" for x pre e st'
    using settle_by_sync[of pre W cfg d ctx pods h x "(e, st')"] that 1(1)
    by (auto simp: settles_on_def elim!: wp_mono)
  consider (one) m where "?ms = [m]" | (many) "length ?ms > 1" | (none) "?ms = []"
    by (cases ?ms; cases "tl ?ms") auto
  then show ?case
  proof cases
    case one
    then have "m \<in> set reached" "is_master m" by (auto simp: filter_eq_Cons_iff)
    with one 1 sync[of es m] show ?thesis by (simp del: wp_bind)
  next
    case many
    have "wp (bind_io (converge_masters W cfg d ctx ?ms) (\<lambda>m. bind_io (syncLabels W pods (Name (pi_pod m))) (\<lambda>_.
          ret (None, st\<lparr>masterMissingAt := None\<rparr>)))) ?post (h @ es)"
    proof (rule wp_bind_trace[OF emits_keeps_labels(2)], goal_cases)
      case (1 m es')
      then have "m \<in> set ?ms" using converge_result by (metis wpD)
      then show ?case
        using sync[of "es @ es'" m] 1 \<open>list_all keeps_labels es\<close> by (simp del: wp_bind)
    qed
    with many show ?thesis by (simp del: wp_bind)
  next
    case none
    have "wp (bind_io (handle_missing W cfg d ctx pods ?rs st) (\<lambda>(r, st1). case r of
             Inl e \<Rightarrow> ret (Some e, st1)
           | Inr None \<Rightarrow> ret (None, st1)
           | Inr (Some promoted) \<Rightarrow>
               bind_io (syncLabels W pods (Name (pi_pod promoted))) (\<lambda>_.
               ret (None, st1\<lparr>masterMissingAt := None\<rparr>)))) ?post (h @ es)"
    proof (rule wp_bind_trace[OF emits_keeps_handle_missing], goal_cases)
      case (1 y es')
      obtain r st1 where y: "y = (r, st1)" by fastforce
      note res = wpD[OF handle_missing_result 1(1)] wpD[OF handle_missing_sends 1(1)]
      show ?case
      proof (cases "\<exists>c. r = Inr (Some c)")
        case True
        then obtain c where c: "r = Inr (Some c)" "selectFailoverCandidate ?rs = Some c"
          using res(1) y by auto
        then have "c \<in> set reached" "promoted_in cfg c (es @ es')"
          using selectFailoverCandidate_in[OF c(2)] res(2)[OF c(2)] y by auto
        then show ?thesis
          using sync[of "es @ es'" c] 1 \<open>list_all keeps_labels es\<close> y c by (simp del: wp_bind)
      next
        case False
        with res(1) y show ?thesis by (auto split: sum.splits option.splits)
      qed
    qed
    with none show ?thesis by (simp del: wp_bind)
  qed
qed

text \<open>
  C4. A pass that ends with the master present labels its set correctly: if the Pods of the
  set have different names, the cluster holds the labels they were listed with, and the API
  server accepts the patches, then exactly one Pod \<open>m\<close> of the set ends with the label
  \<^verbatim>\<open>master\<close> and all others with \<^verbatim>\<open>replica\<close>; and \<open>m\<close> answered this pass's probe, as a
  master or as the replica that the pass promoted.
\<close>

theorem pass_labels_one_master:
  assumes run: "reconcileSet W cfg d ctx pods st h = (Done (err, st'), h @ es)"
    and "masterMissingAt st' = None"
    and names: "distinct (map Name pods)"
    and "reflects C pods"
    and "list_all accepted es"
  shows "\<exists>x. pi_pod x \<in> set pods \<and> settles_on W cfg d ctx pods h es x \<and>
    (\<forall>p \<in> set pods. cluster_role (replay C es) (Namespace p, Name p) =
       (if p = pi_pod x then kube_RoleMaster else kube_RoleReplica))"
proof -
  obtain x pre where pre: "list_all keeps_labels pre" "settles_on W cfg d ctx pods h pre x"
    and sync: "syncLabels W pods (Name (pi_pod x)) (h @ pre) = (Done (), h @ es)"
    using wpD[OF reconcileSet_settles run] assms(2) by auto
  then obtain es2 where es: "es = pre @ es2"
    using syncLabels_trace[of "Name (pi_pod x)" pods W "h @ pre"] by auto
  have x: "pi_pod x \<in> set pods"
    using pre(2) wpD[OF probe_result] unfolding settles_on_def by blast
  have ids: "distinct (map pod_id pods)"
    using names by (auto simp: distinct_map inj_on_def)
  have "cluster_role (replay C es) (pod_id p) = wanted_role (Name (pi_pod x)) p" if "p \<in> set pods" for p
    unfolding es replay_append
    by (rule syncLabels_outcome[of W pods _ "h @ pre"])
      (use sync es assms(5) ids that reflects_replay[OF pre(1) assms(4)] in auto)
  moreover have "Name p = Name (pi_pod x) \<longleftrightarrow> p = pi_pod x" if "p \<in> set pods" for p
    using names that x by (auto simp: distinct_map inj_on_def)
  ultimately show ?thesis
    using x pre(2) unfolding settles_on_def es by (intro exI[of _ x]) (auto simp: wanted_role_def)
qed

end
