(* ===== verification/Failover_Timer.thy ===== *)
theory Failover_Timer
  imports Reconcile_Labels
begin

text \<open>
  The failure timer and the failover epoch of a replication set, over a sequence of reconcile
  passes. Between two passes over a set other things happen (other sets, other passes), so
  the history may grow by anything in between.
\<close>

section \<open>The timer across passes\<close>

text \<open>
  A log has an entry for each pass that returned: the history right after the probes of the
  pass, and whether one of the Pods that answered was a master.
\<close>

type_synonym pass_log = "(event list \<times> bool) list"

inductive passes :: "world \<Rightarrow> Config \<Rightarrow> TCPDialer \<Rightarrow> pass_log \<Rightarrow> setState \<Rightarrow> event list \<Rightarrow> bool"
  for W cfg d where
  start: "passes W cfg d [] empty_setState h"
| pass: "passes W cfg d log st h \<Longrightarrow>
     probe W cfg d ctx pods (h @ gap) = (Done reached, h1) \<Longrightarrow>
     reconcileSet W cfg d ctx pods st (h @ gap) = (Done (err, st'), h') \<Longrightarrow>
     passes W cfg d (log @ [(h1, list_ex is_master reached)]) st' h'"

inductive_cases passes_snocE: "passes W cfg d (log @ [entry]) st h"

text \<open>The passes from the one logged at \<open>hs\<close> on have all found no master.\<close>

definition outage_since :: "pass_log \<Rightarrow> event list \<Rightarrow> bool" where
  "outage_since log hs \<longleftrightarrow>
     (\<exists>log1 log2. log = log1 @ (hs, False) # log2 \<and> (\<forall>entry \<in> set log2. \<not> snd entry))"

lemma outage_since_snoc: "outage_since log hs \<Longrightarrow> outage_since (log @ [(h1, False)]) hs"
  by (fastforce simp: outage_since_def)

lemma outage_since_now: "outage_since (log @ [(h1, False)]) h1"
  by (force simp: outage_since_def)

lemma handle_missing_timer:
  "wp (handle_missing W cfg d ctx pods replicas st)
     (\<lambda>(r, st') _. masterMissingAt st' =
        Some (case masterMissingAt st of None \<Rightarrow> w_now W h | Some t \<Rightarrow> t)) h"
proof -
  have "wp (failover W cfg d ctx pods replicas (st\<lparr>masterMissingAt := Some t\<rparr>))
     (\<lambda>(r, st') _. masterMissingAt st' = Some t) h'" for t h'
    by (rule wp_mono[OF failover_result]) auto
  then show ?thesis
    unfolding handle_missing_def Let_def by (cases "masterMissingAt st") auto
qed

lemma reconcileSet_timer:
  assumes "probe W cfg d ctx pods h = (Done reached, h1)"
  shows "wp (reconcileSet W cfg d ctx pods st) (\<lambda>(err, st') _.
     masterMissingAt st' \<in> (if list_ex is_master reached then {None}
       else {None, Some (case masterMissingAt st of None \<Rightarrow> w_now W h1 | Some t \<Rightarrow> t)})) h"
proof -
  have probe: "wp (bind_io (probe W cfg d ctx pods) f) Q h = wp (f reached) Q h1"
    for f :: "podInfo list \<Rightarrow> (ctl_error option \<times> setState) run" and Q
    using assms by (simp add: wp_def io_simps)
  have masters: "list_ex is_master reached \<longleftrightarrow> filter is_master reached \<noteq> []"
    by (auto simp: list_ex_iff filter_empty_conv)
  show ?thesis
  proof (cases "filter is_master reached = []")
    case True
    then show ?thesis
      unfolding reconcileSet_def probe Let_def
      by (auto intro!: wp_mono[OF handle_missing_timer] simp: masters wp_all split: sum.splits option.splits)
  next
    case False
    then have "length (filter is_master reached) = 1 \<or> length (filter is_master reached) > 1"
      by (cases "filter is_master reached") auto
    with False show ?thesis
      unfolding reconcileSet_def probe Let_def by (auto intro!: wp_all simp: masters)
  qed
qed

text \<open>The timer of a set holds the clock reading of the first pass of the present outage.\<close>

lemma timer_honest:
  assumes "passes W cfg d log st h" "masterMissingAt st = Some t"
  shows "\<exists>hs. outage_since log hs \<and> t = w_now W hs"
  using assms
proof (induction arbitrary: t rule: passes.induct)
  case (start h)
  then show ?case by (simp add: empty_setState_def)
next
  case (pass log st h ctx pods gap reached h1 err st' h')
  have none: "\<not> list_ex is_master reached"
    and t: "t = (case masterMissingAt st of None \<Rightarrow> w_now W h1 | Some t \<Rightarrow> t)"
    using wpD[OF reconcileSet_timer[OF pass.hyps(2)] pass.hyps(3)] pass.prems by (auto split: if_splits)
  show ?case
  proof (cases "masterMissingAt st")
    case None
    with t none show ?thesis by (auto intro: outage_since_now)
  next
    case (Some t0)
    with pass.IH t none show ?thesis by (auto intro: outage_since_snoc)
  qed
qed

lemma watched_outage:
  assumes "passes W cfg d log st h" "MasterFailureThreshold cfg \<le> missing_for W st h1"
  shows "\<exists>hs. outage_since (log @ [(h1, False)]) hs \<and>
    (\<exists>hn \<in> {h1, h1 @ [EvNow]}. MasterFailureThreshold cfg \<le> w_now W hn - w_now W hs)"
proof (cases "masterMissingAt st")
  case None
  with assms(2) show ?thesis
    by (auto simp: missing_for_def intro!: exI[of _ h1] outage_since_now)
next
  case (Some t)
  then obtain hs where "outage_since log hs" "t = w_now W hs"
    using timer_honest assms(1) by blast
  with Some assms(2) show ?thesis
    by (auto simp: missing_for_def intro!: exI[of _ hs] outage_since_snoc)
qed

text \<open>
  C5. Over any sequence of passes over a replication set, whatever happens in between, a pass
  promotes a replica only at the end of an outage that the controller has watched for the
  whole failure threshold: there is an earlier pass (or this one) such that it and every pass
  since found no master, and the clock has advanced by at least the threshold from that
  pass's probes to this one's.
\<close>

theorem promotion_after_watched_outage:
  assumes "passes W cfg d log st h"
    and "probe W cfg d ctx pods (h @ gap) = (Done reached, h1)"
    and "reconcileSet W cfg d ctx pods st (h @ gap) = (r, (h @ gap) @ es)"
    and "sent addr promote_cmd \<in> set es"
  shows "\<exists>hs. outage_since (log @ [(h1, list_ex is_master reached)]) hs \<and>
    (\<exists>hn \<in> {h1, h1 @ [EvNow]}. MasterFailureThreshold cfg \<le> w_now W hn - w_now W hs)"
proof -
  have due: "promotion_due W cfg d ctx pods st (h @ gap) addr"
    using emits_atD[OF reconcileSet_only_due assms(3) assms(4)] by blast
  then have none: "\<not> list_ex is_master reached" and miss: "MasterFailureThreshold cfg \<le> missing_for W st h1"
    using assms(2) by (auto simp: promotion_due_def list_ex_iff)
  from watched_outage[OF assms(1) miss] none show ?thesis by simp
qed

section \<open>Epochs\<close>


lemma nextEpoch_timer [simp]: "nextEpoch pods (st\<lparr>masterMissingAt := t\<rparr>) = nextEpoch pods st"
  by (simp add: nextEpoch_def Let_def)

text \<open>The only patches are of role labels, and of annotations that record one of the epochs \<open>N\<close>.\<close>

definition stamps :: "int set \<Rightarrow> event \<Rightarrow> bool" where
  "stamps N e \<longleftrightarrow> (\<forall>ns name data ok. e = EvPatch ns name data ok \<longrightarrow>
     (\<exists>role. data = label_patch (JStr role)) \<or> (\<exists>n \<in> N. \<exists>t. data = epoch_patch n t))"

lemma stamps_simps [simp]:
  "stamps N EvNow" "stamps N (EvWrite a b)" "stamps N (EvPatch ns name (label_patch (JStr role)) ok)"
  "n \<in> N \<Longrightarrow> stamps N (EvPatch ns name (epoch_patch n t) ok)"
  by (auto simp: stamps_def)


lemma talks_stamps: "talks (stamps N) addr"
  by (simp add: talks_def stamps_def)

lemma emits_stamps:
  shows "emits (stamps N) (probe W cfg d ctx pods)"
    and "emits (stamps N) (converge_masters W cfg d ctx masters)"
    and "emits (stamps N) (syncLabels W pods m)"
    and "emits (stamps {nextEpoch pods st}) (failover W cfg d ctx pods replicas st)"
  by (auto intro!: emits_probe emits_converge emits_syncLabels emits_failover simp: talks_stamps)

text \<open>How a pass moves the epoch of its set, and what it records.\<close>

definition epoch_moved :: "Pod list \<Rightarrow> setState \<Rightarrow> setState \<Rightarrow> event list \<Rightarrow> bool" where
  "epoch_moved pods st st' es \<longleftrightarrow> list_all (stamps {nextEpoch pods st}) es \<and>
     (failoverEpoch st' = nextEpoch pods st \<or> failoverEpoch st' = failoverEpoch st \<and> list_all (stamps {}) es)"





lemma epoch_moved_timer [simp]: "epoch_moved pods st (st'\<lparr>masterMissingAt := t\<rparr>) es \<longleftrightarrow> epoch_moved pods st st' es"
  by (simp add: epoch_moved_def)



lemma reconcileSet_after_probe:
  assumes probe: "probe W cfg d ctx pods h = (Done reached, h1)" and run: "reconcileSet W cfg d ctx pods st h = (r, h')"
  shows "\<exists>es. h' = h1 @ es"
proof -
  have any: "emits (\<lambda>_. True) (failover W cfg d ctx pods rs st1)" for rs st1
    by (rule emits_mono[OF emits_stamps(4)]) simp
  have "emits (\<lambda>_. True) (handle_missing W cfg d ctx pods rs st)" for rs
    by (rule emits_handle_missing) (simp_all add: any)
  moreover note emits_mono[OF emits_stamps(2), where Q = "\<lambda>_. True"] emits_mono[OF emits_stamps(3), where Q = "\<lambda>_. True"]
  ultimately have "emits (\<lambda>_. True) (let masters = filter is_master reached; replicas = filter (\<lambda>x. \<not> is_master x) reached
     in if length masters = 1 then
          bind_io (syncLabels W pods (Name (pi_pod (hd masters)))) (\<lambda>_. ret (None, st\<lparr>masterMissingAt := None\<rparr>))
        else if length masters > 1 then
          bind_io (converge_masters W cfg d ctx masters) (\<lambda>master.
          bind_io (syncLabels W pods (Name (pi_pod master))) (\<lambda>_. ret (None, st\<lparr>masterMissingAt := None\<rparr>)))
        else
          bind_io (handle_missing W cfg d ctx pods replicas st) (\<lambda>(r, st1). case r of
             Inl e \<Rightarrow> ret (Some e, st1)
           | Inr None \<Rightarrow> ret (None, st1)
           | Inr (Some promoted) \<Rightarrow>
               bind_io (syncLabels W pods (Name (pi_pod promoted))) (\<lambda>_.
               ret (None, st1\<lparr>masterMissingAt := None\<rparr>))))"
    unfolding Let_def by (auto intro!: emits_bind emits_ret split: sum.splits option.splits)
  moreover have "\<dots> h1 = (r, h')"
    using run probe by (simp add: reconcileSet_def io_simps)
  ultimately show ?thesis by (blast elim: emitsD)
qed













end
