(* ===== verification/Reconcile_Progress.thy ===== *)
theory Reconcile_Progress
  imports Failover_Timer
begin

text \<open>
  What a reconcile pass gets done: it returns, and where the network lets it, it demotes the
  surplus masters of a set and replaces a lost one.
\<close>

section \<open>A pass returns\<close>

abbreviation fresh :: "tcpConn \<Rightarrow> bool" where
  "fresh c \<equiv> conn_buf c = []"

lemma returns_Dial [returns_rules]: "returns (Dial W d ctx addr) (\<lambda>r. \<forall>c. r = Inr c \<longrightarrow> fresh c)"
  by (auto simp: returns_def Dial_def io_simps split: option.splits)

lemma returns_Close [returns_rules]: "returns (conn_Close c) (\<lambda>_. True)"
  unfolding conn_Close_def by (rule returns_rules) simp

lemma returns_do_cmd:
  assumes "clean_recv W" "fresh c"
  shows "returns (do_cmd W ctx c args) (\<lambda>x. fresh (snd x))"
proof -
  have recv: "returns (bind_io (interact (\<lambda>h. w_recv W h (conn_addr c)) (\<lambda>_. EvRecv (conn_addr c)))
      (\<lambda>(bs, fin). case readReply fin (conn_buf c @ bs) of
          (Panic, _) \<Rightarrow> panic | (Done r, rest) \<Rightarrow> ret (r, c\<lparr>conn_buf := rest\<rparr>))) (\<lambda>x. fresh (snd x))"
    unfolding returns_def
  proof
    fix h
    obtain r where "readReply (snd (w_recv W h (conn_addr c))) (fst (w_recv W h (conn_addr c))) = (Done r, [])"
      using assms(1) unfolding clean_recv_def by blast
    then show "\<exists>x h'. bind_io (interact (\<lambda>h. w_recv W h (conn_addr c)) (\<lambda>_. EvRecv (conn_addr c)))
      (\<lambda>(bs, fin). case readReply fin (conn_buf c @ bs) of
          (Panic, _) \<Rightarrow> panic | (Done r, rest) \<Rightarrow> ret (r, c\<lparr>conn_buf := rest\<rparr>)) h = (Done x, h') \<and>
       fresh (snd x)"
      using assms(2) by (simp add: io_simps case_prod_beta)
  qed
  show ?thesis
    unfolding do_cmd_def Let_def writeCommand_def
    by (rule returns_bind[OF returns_now])
      (auto intro!: returns_interact returns_bind[where P = "\<lambda>_. True"] returns_ret recv assms(2)
        split: option.splits)
qed

lemma returns_cmds:
  assumes "clean_recv W" "fresh c"
  shows "returns (conn_InfoReplication W ctx c) (\<lambda>x. fresh (snd x))"
    and "returns (conn_ReplicaOf W ctx c host port) (\<lambda>x. fresh (snd x))"
    and "returns (conn_ReplicaOfNoOne W ctx c) (\<lambda>x. fresh (snd x))"
    and "returns (conn_ConfigRewrite W ctx c) (\<lambda>x. fresh (snd x))"
  unfolding conn_InfoReplication_def conn_ReplicaOf_def conn_ReplicaOfNoOne_def conn_ConfigRewrite_def
  by (auto intro!: returns_bind[OF returns_do_cmd[OF assms]] returns_ret)

lemma returns_patch [returns_rules]: "returns (patch W ns name data) (\<lambda>_. True)"
  by (simp add: returns_def patch_def io_simps)

lemma returns_close_ret: "Q x \<Longrightarrow> returns (bind_io (conn_Close c) (\<lambda>_. ret x)) Q"
  by (blast intro: returns_rules)

lemma returns_probe_pod:
  assumes "clean_recv W"
  shows "returns (probe_pod W cfg d ctx p) (\<lambda>_. True)"
  unfolding probe_pod_def
  by (auto intro!: returns_ret returns_bind[OF returns_Dial] returns_bind[OF returns_cmds(1)[OF assms]]
      returns_close_ret split: sum.splits)

lemma returns_probe: "clean_recv W \<Longrightarrow> returns (probe W cfg d ctx pods) (\<lambda>_. True)"
  unfolding probe_def by (blast intro: returns_bind returns_map_io returns_probe_pod returns_ret)

lemma returns_rewrite_if: "clean_recv W \<Longrightarrow> fresh c \<Longrightarrow> returns (rewrite_if W cfg ctx c) (\<lambda>_. True)"
  unfolding rewrite_if_def by (auto intro!: returns_bind[OF returns_cmds(4)] returns_ret)

lemma returns_replicateOf:
  assumes "clean_recv W"
  shows "returns (replicateOf W cfg d ctx p ip) (\<lambda>_. True)"
  unfolding replicateOf_def
  by (auto intro!: returns_ret returns_bind[OF returns_Dial] returns_bind[OF returns_cmds(2)[OF assms]]
      returns_bind[OF returns_rewrite_if[OF assms]] returns_close_ret split: sum.splits option.splits)

lemma returns_redirect_others:
  "clean_recv W \<Longrightarrow> returns (redirect_others W cfg d ctx m others) (\<lambda>_. True)"
  unfolding redirect_others_def
  by (auto intro!: returns_for_each returns_ret returns_bind[OF returns_replicateOf])

lemma returns_syncLabels: "returns (syncLabels W pods m) (\<lambda>_. True)"
  unfolding syncLabels_def SetRoleLabel_def
  by (auto intro!: returns_for_each returns_ret returns_bind[OF returns_patch])

lemma returns_failover:
  assumes "clean_recv W"
  shows "returns (failover W cfg d ctx pods replicas st) (\<lambda>_. True)"
  unfolding failover_def Let_def SetAnnotations_def
  by (auto intro!: returns_ret returns_bind[OF returns_Dial] returns_bind[OF returns_cmds(3)[OF assms]]
      returns_bind[OF returns_rewrite_if[OF assms]] returns_bind[OF returns_now] returns_bind[OF returns_patch]
      returns_bind[OF returns_redirect_others[OF assms]] returns_close_ret split: sum.splits option.splits)

lemma returns_converge:
  assumes "clean_recv W" "masters \<noteq> []"
  shows "returns (converge_masters W cfg d ctx masters) (\<lambda>_. True)"
  using assms(2) selectBootstrapCandidate_None[of cfg masters]
  unfolding converge_masters_def
  by (auto intro!: returns_bind[where P = "\<lambda>_. True"] returns_ret returns_redirect_others[OF assms(1)]
      split: option.splits)

lemma returns_handle_missing:
  assumes "clean_recv W"
  shows "returns (handle_missing W cfg d ctx pods replicas st) (\<lambda>_. True)"
  unfolding handle_missing_def Let_def
  by (auto intro!: returns_bind[where P = "\<lambda>_. True"] returns_ret returns_now returns_failover[OF assms]
      split: option.splits)

lemma returns_reconcileSet:
  assumes "clean_recv W"
  shows "returns (reconcileSet W cfg d ctx pods st) (\<lambda>_. True)"
  unfolding reconcileSet_def Let_def
  by (rule returns_bind[OF returns_probe[OF assms]])
    (auto intro!: returns_bind[where P = "\<lambda>_. True"] returns_ret returns_syncLabels
      returns_converge[OF assms] returns_handle_missing[OF assms] split: sum.splits option.splits)

lemma returns_reconcile_keys:
  "clean_recv W \<Longrightarrow> returns (reconcile_keys W cfg d ctx gs keys sets) (\<lambda>_. True)"
  by (induction keys arbitrary: sets) (auto intro!: returns_ret returns_bind[OF returns_reconcileSet])

lemma returns_list_namespaces: "returns (list_namespaces W sel nss) (\<lambda>_. True)"
  by (induction nss)
    (auto intro!: returns_ret returns_interact returns_bind[where P = "\<lambda>_. True"] split: sum.splits)

lemma returns_reconcile:
  "clean_recv W \<Longrightarrow> returns (reconcile W cfg d ctx sets) (\<lambda>_. True)"
  unfolding reconcile_def ListRedisPods_def Let_def
  by (auto intro!: returns_bind[where P = "\<lambda>_. True"] returns_ret returns_list_namespaces
      returns_reconcile_keys split: sum.splits)

section \<open>Commands that are sent\<close>

text \<open>Connections to \<open>addr\<close> are established and accept a deadline.\<close>

definition connects :: "world \<Rightarrow> string \<Rightarrow> bool" where
  "connects W addr \<longleftrightarrow> (\<forall>h. w_dial W h addr = None \<and> (\<forall>t. w_set_deadline W h addr t = None))"

abbreviation sends :: "event \<Rightarrow> event list \<Rightarrow> 'a \<Rightarrow> event list \<Rightarrow> bool" where
  "sends e h x h' \<equiv> \<exists>es. h' = h @ es \<and> e \<in> set es"

lemma do_cmd_sends:
  "connects W (conn_addr c) \<Longrightarrow> args \<noteq> [] \<Longrightarrow>
   wp (do_cmd W ctx c args) (sends (sent (conn_addr c) args) h) h"
  by (auto simp: do_cmd_def Let_def writeCommand_def connects_def split: option.splits prod.splits out.splits)

lemma wp_sends_bind:
  assumes "wp m (sends e h) h" "\<And>x. emits (\<lambda>_. True) (f x)"
  shows "wp (bind_io m f) (sends e h) h"
  unfolding wp_bind
proof (rule wp_mono[OF assms(1)])
  fix x h'
  assume "sends e h x h'"
  then obtain es where "h' = h @ es" "e \<in> set es" by blast
  then show "wp (f x) (sends e h) h'"
    using wp_extends[OF assms(2), of "\<lambda>es. e \<in> set es" es x h] by auto
qed

lemma wp_Dial_connects:
  "connects W addr \<Longrightarrow>
   wp (bind_io (Dial W d ctx addr) f) Q h =
   wp (f (Inr \<lparr>conn_addr = addr, conn_buf = [], cmdTimeout = CommandTimeout d\<rparr>)) Q
      (h @ [EvDial addr (ConnectTimeout d)])"
  by (simp add: Dial_def connects_def)

lemma sends_prefix: "wp m (sends e (h @ es)) h1 \<Longrightarrow> wp m (sends e h) h1"
  by (erule wp_mono) auto

lemma replicateOf_sends:
  assumes "connects W (pod_addr cfg p)"
  shows "wp (replicateOf W cfg d ctx p ip)
           (sends (sent (pod_addr cfg p) [''REPLICAOF'', ip, Itoa (RedisPort cfg)]) h) h"
proof -
  let ?c = "\<lparr>conn_addr = pod_addr cfg p, conn_buf = [], cmdTimeout = CommandTimeout d\<rparr>"
  have cmd: "wp (do_cmd W ctx ?c [''REPLICAOF'', ip, Itoa (RedisPort cfg)])
      (sends (sent (pod_addr cfg p) [''REPLICAOF'', ip, Itoa (RedisPort cfg)]) h1) h1" for h1
    using do_cmd_sends[of W ?c] assms by simp
  show ?thesis
    unfolding replicateOf_def wp_Dial_connects[OF assms] sum.case conn_ReplicaOf_def
    by (rule sends_prefix[where es = "[EvDial (pod_addr cfg p) (ConnectTimeout d)]"],
        intro wp_sends_bind cmd)
      (auto intro!: emits_bind emits_ret emits_True split: option.splits)
qed

lemma redirect_others_sends:
  assumes "\<And>x. x \<in> set others \<Longrightarrow> connects W (pod_addr cfg (pi_pod x))"
  shows "wp (redirect_others W cfg d ctx master others) (\<lambda>_ h'. \<exists>es. h' = h @ es \<and>
     (\<forall>x \<in> set others. Name (pi_pod x) \<noteq> Name master \<longrightarrow>
        sent (pod_addr cfg (pi_pod x)) (follow_cmd cfg master) \<in> set es)) h"
  unfolding redirect_others_def
proof (rule wp_for_each[where I = "\<lambda>xs h'. \<exists>es. h' = h @ es \<and> (\<forall>x \<in> set xs. Name (pi_pod x) \<noteq> Name master \<longrightarrow>
        sent (pod_addr cfg (pi_pod x)) (follow_cmd cfg master) \<in> set es)"], goal_cases)
  case 1
  then show ?case by simp
next
  case (2 pre x rest h1)
  then obtain es where es: "h1 = h @ es" "\<forall>x \<in> set pre. Name (pi_pod x) \<noteq> Name master \<longrightarrow>
        sent (pod_addr cfg (pi_pod x)) (follow_cmd cfg master) \<in> set es" by blast
  have "wp (replicateOf W cfg d ctx (pi_pod x) (IP master))
          (sends (sent (pod_addr cfg (pi_pod x)) (follow_cmd cfg master)) h1) h1"
    unfolding follow_cmd_def by (rule replicateOf_sends) (use assms 2 in auto)
  then show ?case
    using es by (auto intro!: exI[of _ es]) (erule wp_mono, fastforce)
qed

abbreviation told_to_follow :: "Config \<Rightarrow> Pod \<Rightarrow> podInfo list \<Rightarrow> event list \<Rightarrow> bool" where
  "told_to_follow cfg master others es \<equiv>
     \<forall>x \<in> set others. Name (pi_pod x) \<noteq> Name master \<longrightarrow>
        sent (pod_addr cfg (pi_pod x)) (follow_cmd cfg master) \<in> set es"

section \<open>Several masters\<close>

definition kept_master :: "Config \<Rightarrow> podInfo list \<Rightarrow> podInfo option" where
  "kept_master cfg masters = (case labeledMaster masters of
      None \<Rightarrow> selectBootstrapCandidate cfg masters | Some m \<Rightarrow> Some m)"

lemma converge_outcome:
  assumes "\<And>x. x \<in> set masters \<Longrightarrow> connects W (pod_addr cfg (pi_pod x))"
  shows "wp (converge_masters W cfg d ctx masters) (\<lambda>m h'. kept_master cfg masters = Some m \<and>
     (\<exists>es. h' = h @ es \<and> told_to_follow cfg (pi_pod m) masters es)) h"
  unfolding converge_masters_def kept_master_def
  by (auto split: option.splits intro!: wp_mono[OF redirect_others_sends[OF assms]])

lemma wp_after_probe:
  "probe W cfg d ctx pods h = (Done reached, h1) \<Longrightarrow>
   wp (bind_io (probe W cfg d ctx pods) f) Q h = wp (f reached) Q h1"
  by (simp add: wp_def io_simps)

lemma returnsE:
  assumes "returns m P" "wp m Q h"
  obtains x h' where "m h = (Done x, h')" "Q x h'"
proof -
  obtain x h' where "m h = (Done x, h')" using assms(1) unfolding returns_def by blast
  with assms(2) that show ?thesis by (blast dest: wpD)
qed

lemma wp_sync_extends:
  assumes "Q es" "\<And>es es'. Q es \<Longrightarrow> Q (es @ es')"
  shows "wp (bind_io (syncLabels W pods m) (\<lambda>_. ret y)) (\<lambda>x h'. x = y \<and> (\<exists>es. h' = h @ es \<and> Q es)) (h @ es)"
proof -
  have "emits (\<lambda>_. True) (syncLabels W pods m)" by (rule emits_syncLabels) simp
  from wp_extends[OF this, where Q = Q and es = es and h = h] assms show ?thesis by simp
qed

lemma split_brain_outcome:
  assumes probe: "probe W cfg d ctx pods h = (Done reached, h @ es)"
    and many: "length (filter is_master reached) > 1"
    and net: "\<And>x. x \<in> set (filter is_master reached) \<Longrightarrow> connects W (pod_addr cfg (pi_pod x))"
  shows "wp (reconcileSet W cfg d ctx pods st) (\<lambda>y h'. y = (None, st\<lparr>masterMissingAt := None\<rparr>) \<and>
     (\<exists>m es. kept_master cfg (filter is_master reached) = Some m \<and> h' = h @ es \<and>
        told_to_follow cfg (pi_pod m) (filter is_master reached) es)) h"
    (is "wp _ ?post h")
proof -
  let ?ms = "filter is_master reached"
  have sync: "wp (bind_io (syncLabels W pods (Name (pi_pod m))) (\<lambda>_. ret (None, st\<lparr>masterMissingAt := None\<rparr>)))
      ?post (h @ es2)" if "kept_master cfg ?ms = Some m" "told_to_follow cfg (pi_pod m) ?ms es2" for m es2
    by (rule wp_mono[OF wp_sync_extends[of "told_to_follow cfg (pi_pod m) ?ms" es2]]) (use that in auto)
  have "wp (converge_masters W cfg d ctx ?ms) (\<lambda>m h'. wp (bind_io (syncLabels W pods (Name (pi_pod m)))
      (\<lambda>_. ret (None, st\<lparr>masterMissingAt := None\<rparr>))) ?post h') (h @ es)"
  proof (rule wp_mono[OF converge_outcome[OF net]], assumption)
    fix m h'
    assume "kept_master cfg ?ms = Some m \<and> (\<exists>es'. h' = (h @ es) @ es' \<and> told_to_follow cfg (pi_pod m) ?ms es')"
    then obtain es' where "kept_master cfg ?ms = Some m" "h' = h @ (es @ es')"
      "told_to_follow cfg (pi_pod m) ?ms (es @ es')" by auto
    then show "wp (bind_io (syncLabels W pods (Name (pi_pod m)))
      (\<lambda>_. ret (None, st\<lparr>masterMissingAt := None\<rparr>))) ?post h'" using sync by blast
  qed
  then show ?thesis
    unfolding reconcileSet_def wp_after_probe[OF probe] Let_def using many by simp
qed

lemma probe_extends:
  assumes "probe W cfg d ctx pods h = (r, h1)"
  obtains es where "h1 = h @ es"
  using emits_keeps_labels(1) assms by (blast elim: emitsD)

lemma find_filter: "find P xs = (case filter P xs of [] \<Rightarrow> None | x # _ \<Rightarrow> Some x)"
  by (induction xs) auto

lemma kept_master_cases:
  "kept_master cfg masters = Some m \<longleftrightarrow> (case filter (\<lambda>x. HasMasterLabel (pi_pod x)) masters of
     [] \<Rightarrow> selectBootstrapCandidate cfg masters = Some m | x # _ \<Rightarrow> m = x)"
  unfolding kept_master_def labeledMaster_def find_filter by (auto split: list.splits)

text \<open>
  C7. What a pass does when several masters answer its probes, for each number of them that
  carry the master label. It returns without an error and with the failure timer reset. With
  one labelled master it keeps that one, with several the first of them in the order of the Pods,
  with none the one that the bootstrap strategy picks; and it sends to every other master, as far as
  a connection can be made, the command to follow the one that was kept. The case of one labelled
  master is what the README describes; where none or several are labelled the README says that the
  controller makes no destructive change (except for a new cluster), and the code demotes
  all the same.
\<close>

theorem split_brain_resolved:
  assumes "clean_recv W"
    and "probe W cfg d ctx pods h = (Done reached, h1)"
    and "length (filter is_master reached) > 1"
    and "\<forall>x \<in> set (filter is_master reached). connects W (pod_addr cfg (pi_pod x))"
  shows "\<exists>m es. reconcileSet W cfg d ctx pods st h = (Done (None, st\<lparr>masterMissingAt := None\<rparr>), h @ es) \<and>
    (case filter (\<lambda>x. HasMasterLabel (pi_pod x)) (filter is_master reached) of
       [] \<Rightarrow> selectBootstrapCandidate cfg (filter is_master reached) = Some m
     | [x] \<Rightarrow> m = x
     | x # _ \<Rightarrow> m = x) \<and>
    (\<forall>x \<in> set (filter is_master reached). Name (pi_pod x) \<noteq> Name (pi_pod m) \<longrightarrow>
       sent (pod_addr cfg (pi_pod x)) (follow_cmd cfg (pi_pod m)) \<in> set es)"
proof -
  obtain es0 where "h1 = h @ es0" using assms(2) by (rule probe_extends)
  with assms have "wp (reconcileSet W cfg d ctx pods st) (\<lambda>y h'. y = (None, st\<lparr>masterMissingAt := None\<rparr>) \<and>
     (\<exists>m es. kept_master cfg (filter is_master reached) = Some m \<and> h' = h @ es \<and>
        told_to_follow cfg (pi_pod m) (filter is_master reached) es)) h"
    by (intro split_brain_outcome) auto
  from returnsE[OF returns_reconcileSet[OF assms(1)] this]
  obtain m es where "reconcileSet W cfg d ctx pods st h = (Done (None, st\<lparr>masterMissingAt := None\<rparr>), h @ es)"
    and m: "kept_master cfg (filter is_master reached) = Some m"
    and "told_to_follow cfg (pi_pod m) (filter is_master reached) es" by blast
  then show ?thesis using m[unfolded kept_master_cases] by (intro exI[of _ m] exI[of _ es]) (auto split: list.splits)
qed

section \<open>No master\<close>

text \<open>The promotion of \<open>c\<close> is complete: the other replicas follow it, and the epoch is recorded.\<close>

definition completes :: "Config \<Rightarrow> podInfo list \<Rightarrow> int \<Rightarrow> podInfo \<Rightarrow> event list \<Rightarrow> bool" where
  "completes cfg replicas epoch c es \<longleftrightarrow>
     told_to_follow cfg (pi_pod c) replicas es \<and>
     (\<exists>t ok. EvPatch (Namespace (pi_pod c)) (Name (pi_pod c)) (annotation_patch
        [(AnnotationFailoverEpoch, Itoa epoch), (AnnotationPromotedAt, rfc3339 t)]) ok \<in> set es)"

lemma completes_append:
  shows "completes cfg replicas n c es \<Longrightarrow> completes cfg replicas n c (es @ es')"
    and "completes cfg replicas n c es \<Longrightarrow> completes cfg replicas n c (es' @ es)"
  unfolding completes_def set_append by blast+

lemma wp_patch: "wp (patch W ns name data) Q h = Q (map_option (PatchPodError ns name) (w_patch W h ns name data))
    (h @ [EvPatch ns name data (w_patch W h ns name data = None)])"
  by (simp add: patch_def)

lemma promotion_rest:
  fixes x :: "(ctl_error + podInfo option) \<times> setState"
  assumes "\<And>x. x \<in> set replicas \<Longrightarrow> connects W (pod_addr cfg (pi_pod x))"
  shows "wp (bind_io (rewrite_if W cfg ctx c1) (\<lambda>c2. bind_io (now W) (\<lambda>t.
      bind_io (SetAnnotations W (Namespace (pi_pod c)) (Name (pi_pod c))
         [(AnnotationFailoverEpoch, Itoa n), (AnnotationPromotedAt, rfc3339 t)]) (\<lambda>_.
      bind_io (redirect_others W cfg d ctx (pi_pod c) replicas) (\<lambda>_.
      bind_io (conn_Close c2) (\<lambda>_. ret x))))))
    (\<lambda>y h'. y = x \<and> (\<exists>es. h' = h @ es \<and> completes cfg replicas n c es)) h"
proof (rule wp_bind_trace[OF emits_True(2)], goal_cases)
  case (1 c2 es)
  have "wp (redirect_others W cfg d ctx (pi_pod c) replicas)
      (\<lambda>_ h'. \<exists>es. h' @ [EvClose (conn_addr c2)] = h @ es \<and> completes cfg replicas n c es) (h @ es @ [EvNow,
        EvPatch (Namespace (pi_pod c)) (Name (pi_pod c)) (annotation_patch
          [(AnnotationFailoverEpoch, Itoa n), (AnnotationPromotedAt, rfc3339 t)]) ok])" for t ok
    by (rule wp_mono[OF redirect_others_sends[OF assms]]) (force simp: completes_def)+
  then show ?case by (simp add: SetAnnotations_def wp_patch conn_Close_def)
qed

lemma failover_outcome:
  assumes sel: "selectFailoverCandidate replicas = Some c"
    and net: "\<And>x. x \<in> set replicas \<Longrightarrow> connects W (pod_addr cfg (pi_pod x))"
  shows "wp (failover W cfg d ctx pods replicas st) (\<lambda>(r, st') h'. \<exists>es. h' = h @ es \<and> promoted_in cfg c es \<and>
     failoverEpoch st' = nextEpoch pods st \<and>
     ((\<exists>e. r = Inl (PromoteError (Name (pi_pod c)) e)) \<or>
      r = Inr (Some c) \<and> completes cfg replicas (nextEpoch pods st) c es)) h"
    (is "wp _ ?post h")
proof -
  let ?a = "pod_addr cfg (pi_pod c)" and ?n = "nextEpoch pods st"
  let ?k = "\<lparr>conn_addr = ?a, conn_buf = [], cmdTimeout = CommandTimeout d\<rparr>"
  have conn: "connects W ?a" using net selectFailoverCandidate_in[OF sel] by blast
  have prom: "wp (conn_ReplicaOfNoOne W ctx ?k) (sends (sent ?a promote_cmd) h1) h1" for h1
    unfolding conn_ReplicaOfNoOne_def using conn
    by (intro wp_sends_bind) (use do_cmd_sends[of W ?k promote_cmd] in \<open>auto intro!: emits_ret\<close>)
  have rest: "wp (case r of
         Some e \<Rightarrow> bind_io (conn_Close c1) (\<lambda>_. ret (Inl (PromoteError (Name (pi_pod c)) e), st\<lparr>failoverEpoch := ?n\<rparr>))
       | None \<Rightarrow> bind_io (rewrite_if W cfg ctx c1) (\<lambda>c2. bind_io (now W) (\<lambda>t.
           bind_io (SetAnnotations W (Namespace (pi_pod c)) (Name (pi_pod c))
              [(AnnotationFailoverEpoch, Itoa ?n), (AnnotationPromotedAt, rfc3339 t)]) (\<lambda>_.
           bind_io (redirect_others W cfg d ctx (pi_pod c) replicas) (\<lambda>_.
           bind_io (conn_Close c2) (\<lambda>_. ret (Inr (Some c), st\<lparr>failoverEpoch := ?n\<rparr>)))))))
       ?post (h @ es)" if "promoted_in cfg c es" for r c1 es
  proof (cases r)
    case None
    show ?thesis
      unfolding None option.case
      by (rule wp_mono[OF promotion_rest[OF net]]) (use that in \<open>auto intro: completes_append\<close>)
  qed (use that in \<open>simp add: conn_Close_def\<close>)
  show ?thesis
    unfolding failover_def sel Let_def option.case wp_Dial_connects[OF conn] sum.case
    unfolding wp_bind[of "conn_ReplicaOfNoOne W ctx ?k"]
    by (rule wp_mono[OF prom]) (use rest[of "EvDial ?a (ConnectTimeout d) # _"] in auto)
qed

abbreviation replaces ::
  "Config \<Rightarrow> Pod list \<Rightarrow> setState \<Rightarrow> podInfo list \<Rightarrow> podInfo \<Rightarrow> ctl_error option \<Rightarrow> setState \<Rightarrow> event list \<Rightarrow> bool" where
  "replaces cfg pods st reached c err st' es \<equiv>
     promoted_in cfg c es \<and> failoverEpoch st' = nextEpoch pods st \<and>
     (case err of None \<Rightarrow> masterMissingAt st' = None \<and> completes cfg reached (nextEpoch pods st) c es
        | Some e \<Rightarrow> \<exists>e'. e = PromoteError (Name (pi_pod c)) e')"

lemma handle_missing_due:
  assumes "MasterFailureThreshold cfg \<le> missing_for W st h1"
  shows "\<exists>since nows. set nows \<subseteq> {EvNow} \<and> handle_missing W cfg d ctx pods replicas st h1 =
     failover W cfg d ctx pods replicas (st\<lparr>masterMissingAt := Some since\<rparr>) (h1 @ nows)"
proof (cases "masterMissingAt st")
  case None
  with assms show ?thesis
    by (intro exI[of _ "w_now W h1"] exI[of _ "[EvNow, EvNow]"])
      (simp add: handle_missing_def Let_def now_def io_simps missing_for_def)
next
  case (Some t)
  with assms show ?thesis
    by (intro exI[of _ t] exI[of _ "[EvNow]"])
      (simp add: handle_missing_def Let_def now_def io_simps missing_for_def)
qed

lemma lost_master_outcome:
  assumes probe: "probe W cfg d ctx pods h = (Done reached, h @ es0)"
    and none: "\<forall>x \<in> set reached. \<not> is_master x"
    and due: "MasterFailureThreshold cfg \<le> missing_for W st (h @ es0)"
    and sel: "selectFailoverCandidate reached = Some c"
    and net: "\<And>x. x \<in> set reached \<Longrightarrow> connects W (pod_addr cfg (pi_pod x))"
  shows "wp (reconcileSet W cfg d ctx pods st)
     (\<lambda>(err, st') h'. \<exists>es. h' = h @ es \<and> replaces cfg pods st reached c err st' es) h"
    (is "wp _ ?post h")
proof -
  obtain since nows where hm: "handle_missing W cfg d ctx pods reached st (h @ es0) =
     failover W cfg d ctx pods reached (st\<lparr>masterMissingAt := Some since\<rparr>) ((h @ es0) @ nows)"
    using handle_missing_due[OF due] by blast
  have filters: "filter is_master reached = []" "filter (\<lambda>x. \<not> is_master x) reached = reached"
    using none by (simp_all add: filter_empty_conv)
  have epoch: "nextEpoch pods (st\<lparr>masterMissingAt := Some since\<rparr>) = nextEpoch pods st"
    by (simp add: nextEpoch_def Let_def)
  have sync: "wp (bind_io (syncLabels W pods (Name (pi_pod c))) (\<lambda>_. ret (None, st1\<lparr>masterMissingAt := None\<rparr>)))
      ?post (h @ es)" if "promoted_in cfg c es" "failoverEpoch st1 = nextEpoch pods st"
        "completes cfg reached (nextEpoch pods st) c es" for st1 es
    by (rule wp_mono[OF wp_sync_extends[of "\<lambda>es. promoted_in cfg c es \<and> completes cfg reached (nextEpoch pods st) c es" es]])
      (use that in \<open>auto intro: completes_append\<close>)
  have "wp (handle_missing W cfg d ctx pods reached st) (\<lambda>y h'. wp (case y of (r, st1) \<Rightarrow> (case r of
             Inl e \<Rightarrow> ret (Some e, st1)
           | Inr None \<Rightarrow> ret (None, st1)
           | Inr (Some promoted) \<Rightarrow>
               bind_io (syncLabels W pods (Name (pi_pod promoted))) (\<lambda>_.
               ret (None, st1\<lparr>masterMissingAt := None\<rparr>)))) ?post h') (h @ es0)"
    unfolding wp_def[of "handle_missing _ _ _ _ _ _ _"] hm
    unfolding wp_def[of "failover _ _ _ _ _ _ _", symmetric]
  proof (rule wp_mono[OF failover_outcome[OF sel net]], assumption, goal_cases)
    case (1 y h')
    then obtain r st1 es1 where y: "y = (r, st1)" and h': "h' = h @ (es0 @ nows @ es1)"
      and p: "promoted_in cfg c (es0 @ nows @ es1)" "failoverEpoch st1 = nextEpoch pods st"
      and r: "(\<exists>e. r = Inl (PromoteError (Name (pi_pod c)) e)) \<or>
              r = Inr (Some c) \<and> completes cfg reached (nextEpoch pods st) c es1"
      by (auto simp: epoch)
    from r show ?case
    proof
      assume "r = Inr (Some c) \<and> completes cfg reached (nextEpoch pods st) c es1"
      then have "completes cfg reached (nextEpoch pods st) c (es0 @ nows @ es1)" "r = Inr (Some c)"
        by (auto intro: completes_append)
      with sync[OF p] show ?thesis by (simp add: y h' del: wp_bind)
    qed (use y h' p in auto)
  qed
  then show ?thesis
    unfolding reconcileSet_def wp_after_probe[OF probe] Let_def filters by simp
qed

text \<open>
  C8. A lost master is replaced. If the probes reach at least one Pod and no master, the
  failure timer has run for the threshold and connections can be made, the pass returns, and
  it sends \<^verbatim>\<open>REPLICAOF NO ONE\<close> to the selected replica and takes the next epoch. Either the
  server did not confirm the promotion and the pass reports that error; or the pass ends
  without an error, with the timer reset, after it has sent every other replica that answered
  the command to follow the new master and has asked to record the epoch on it.
\<close>

theorem lost_master_replaced:
  assumes "clean_recv W"
    and "probe W cfg d ctx pods h = (Done reached, h1)"
    and "reached \<noteq> []" "\<forall>x \<in> set reached. \<not> is_master x"
    and "MasterFailureThreshold cfg \<le> missing_for W st h1"
    and "\<forall>x \<in> set reached. connects W (pod_addr cfg (pi_pod x))"
  shows "\<exists>c err st' es. reconcileSet W cfg d ctx pods st h = (Done (err, st'), h @ es) \<and>
    selectFailoverCandidate reached = Some c \<and>
    sent (pod_addr cfg (pi_pod c)) promote_cmd \<in> set es \<and>
    failoverEpoch st' = nextEpoch pods st \<and>
    (case err of
       None \<Rightarrow> masterMissingAt st' = None \<and> completes cfg reached (nextEpoch pods st) c es
     | Some e \<Rightarrow> \<exists>e'. e = PromoteError (Name (pi_pod c)) e')"
proof -
  obtain es0 where h1: "h1 = h @ es0" using assms(2) by (rule probe_extends)
  obtain c where c: "selectFailoverCandidate reached = Some c"
    using assms(3) selectFailoverCandidate_None[of reached] by auto
  have "wp (reconcileSet W cfg d ctx pods st)
     (\<lambda>(err, st') h'. \<exists>es. h' = h @ es \<and> replaces cfg pods st reached c err st' es) h"
    using assms h1 c by (intro lost_master_outcome) auto
  then obtain err st' es where "reconcileSet W cfg d ctx pods st h = (Done (err, st'), h @ es)"
    "replaces cfg pods st reached c err st' es"
    by (rule returnsE[OF returns_reconcileSet[OF assms(1)]]) auto
  with c show ?thesis by (intro exI conjI) auto
qed

end
