(* ===== verification/Reconcile_All.thy ===== *)
theory Reconcile_All
  imports Reconcile_Progress "HOL-Library.Sublist"
begin

text \<open>
  One pass over everything: all replication sets get their turn and keep their own state, a
  failed listing changes nothing, and a healthy, correctly labelled set is left alone.
\<close>

section \<open>Every set gets its turn\<close>

lemma emits_any_reconcileSet: "emits (\<lambda>_. True) (reconcileSet W cfg d ctx pods st)"
  by (rule emits_mono[OF emits_set_event]) simp

lemma emits_any_keys: "emits (\<lambda>_. True) (reconcile_keys W cfg d ctx gs keys sets)"
  by (induction keys arbitrary: sets) (auto intro!: emits_ret emits_bind emits_any_reconcileSet)

lemma stateFor_other: "k \<noteq> k' \<Longrightarrow> stateFor (sets(k' \<mapsto> st)) k = stateFor sets k"
  by (simp add: stateFor_def)

text \<open>The pass over the set \<open>k\<close>, somewhere between the histories \<open>h1\<close> and \<open>h2\<close>.\<close>

definition set_turn ::
  "world \<Rightarrow> Config \<Rightarrow> TCPDialer \<Rightarrow> ctx \<Rightarrow> Pod list \<Rightarrow> setState \<Rightarrow> event list \<Rightarrow> event list \<Rightarrow> setState \<Rightarrow> bool" where
  "set_turn W cfg d ctx pods st h1 h2 st' \<longleftrightarrow>
     (\<exists>h h' err. reconcileSet W cfg d ctx pods st h = (Done (err, st'), h') \<and> prefix h1 h \<and> prefix h' h2)"

lemma set_turn_widen:
  "set_turn W cfg d ctx pods st h1 h2 st' \<Longrightarrow> prefix h0 h1 \<Longrightarrow> prefix h2 h3 \<Longrightarrow>
   set_turn W cfg d ctx pods st h0 h3 st'"
  unfolding set_turn_def by (meson prefix_order.trans)

lemma emits_prefix: "emits P m \<Longrightarrow> m h = (r, h') \<Longrightarrow> prefix h h'"
  by (auto elim!: emitsD)

lemma reconcile_keys_turns:
  assumes "reconcile_keys W cfg d ctx gs keys sets h = (Done sets', h')" "distinct keys"
  shows "(\<forall>k \<in> set keys. \<exists>st'. sets' k = Some st' \<and>
       set_turn W cfg d ctx (case map_of gs k of None \<Rightarrow> [] | Some ps \<Rightarrow> ps) (stateFor sets k) h h' st') \<and>
    (\<forall>k. k \<notin> set keys \<longrightarrow> sets' k = sets k)"
  using assms
proof (induction keys arbitrary: sets h)
  case Nil
  then show ?case by (simp add: io_simps)
next
  case (Cons k keys)
  let ?pods = "\<lambda>k. case map_of gs k of None \<Rightarrow> [] | Some ps \<Rightarrow> ps"
  obtain err st h1 where set: "reconcileSet W cfg d ctx (?pods k) (stateFor sets k) h = (Done (err, st), h1)"
    and rest: "reconcile_keys W cfg d ctx gs keys (sets(k \<mapsto> st)) h1 = (Done sets', h')"
    using Cons.prems(1) by (auto simp: io_simps split: prod.splits out.splits)
  note pre = emits_prefix[OF emits_any_reconcileSet set] emits_prefix[OF emits_any_keys rest]
  have IH: "(\<forall>k' \<in> set keys. \<exists>st'. sets' k' = Some st' \<and>
       set_turn W cfg d ctx (?pods k') (stateFor (sets(k \<mapsto> st)) k') h1 h' st') \<and>
    (\<forall>k'. k' \<notin> set keys \<longrightarrow> sets' k' = (sets(k \<mapsto> st)) k')"
    using Cons.IH[OF rest] Cons.prems(2) by (simp del: fun_upd_apply)
  have "set_turn W cfg d ctx (?pods k) (stateFor sets k) h h' st"
    using set pre unfolding set_turn_def by blast
  moreover have "set_turn W cfg d ctx (?pods k') (stateFor sets k') h h' st'"
    if "k' \<in> set keys" "set_turn W cfg d ctx (?pods k') (stateFor (sets(k \<mapsto> st)) k') h1 h' st'" for k' st'
  proof -
    have "stateFor (sets(k \<mapsto> st)) k' = stateFor sets k'"
      using that(1) Cons.prems(2) by (intro stateFor_other) auto
    then show ?thesis using set_turn_widen[OF that(2) pre(1) prefix_order.refl] by (simp del: fun_upd_apply)
  qed
  ultimately show ?case
    using IH Cons.prems(2) by auto
qed

text \<open>
  C12. A pass whose listing succeeds returns without an error, and every replication set of
  the listed Pods gets its turn in it, whether or not another set fails: the state kept for a
  set afterwards is the result of \<^verbatim>\<open>reconcileSet\<close> on exactly the Pods of that set and the
  state that was kept for it before (a zero state for a new set). Sets that are no longer
  listed are forgotten.
\<close>

theorem every_set_gets_its_turn:
  assumes "clean_recv W"
    and "ListRedisPods W (RedisNamespaces cfg) (RedisPodLabelSelector cfg) h = (Done (Inr pods), h1)"
  shows "\<exists>sets' es. reconcile W cfg d ctx sets h = (Done (None, sets'), h @ es) \<and>
    dom sets' = set_of (RedisSetLabelKey cfg) (DefaultSetName cfg) ` set pods \<and>
    (\<forall>k st'. sets' k = Some st' \<longrightarrow>
       set_turn W cfg d ctx (filter (\<lambda>p. set_of (RedisSetLabelKey cfg) (DefaultSetName cfg) p = k) pods)
         (stateFor sets k) h1 (h @ es) st')"
proof -
  let ?key = "set_of (RedisSetLabelKey cfg) (DefaultSetName cfg)"
  let ?gs = "groupBySet pods (RedisSetLabelKey cfg) (DefaultSetName cfg)"
  obtain sets1 h2 where keys: "reconcile_keys W cfg d ctx ?gs (sortedKeys ?gs) sets h1 = (Done sets1, h2)"
    using returns_reconcile_keys[OF assms(1)] unfolding returns_def by blast
  have "prefix h h1" using assms(2) emits_ListRedisPods[of _ "\<lambda>_. True"] by (blast intro: emits_prefix)
  with emits_prefix[OF emits_any_keys keys] obtain es where es: "h2 = h @ es"
    by (meson prefix_order.trans prefix_def)
  have dist: "distinct (sortedKeys ?gs)"
    by (simp add: sortedKeys_def distinct_groups)
  have key_set: "set (map fst ?gs) = ?key ` set pods" by (rule set_groupBySet_keys)
  note turns = reconcile_keys_turns[OF keys dist]
  have "set (sortedKeys ?gs) = ?key ` set pods" using key_set by (simp add: sortedKeys_def)
  then have "sets1 k \<noteq> None" if "k \<in> ?key ` set pods" for k
    using turns that by fastforce
  then have dom: "dom (pruneVanishedSets ?gs sets1) = ?key ` set pods"
    unfolding pruneVanishedSets_def key_set by (auto simp: restrict_map_def split: if_splits)
  have turn: "set_turn W cfg d ctx (filter (\<lambda>p. ?key p = k) pods) (stateFor sets k) h1 h2 st'"
    if "pruneVanishedSets ?gs sets1 k = Some st'" for k st'
  proof -
    have k: "k \<in> set (sortedKeys ?gs)" and "sets1 k = Some st'"
      using that by (auto simp: pruneVanishedSets_def sortedKeys_def restrict_map_def split: if_splits)
    with turns show ?thesis using group_lookup[OF k] by fastforce
  qed
  have "reconcile W cfg d ctx sets h = (Done (None, pruneVanishedSets ?gs sets1), h @ es)"
    unfolding reconcile_def using assms(2) keys es by (simp add: io_simps Let_def)
  with dom turn es show ?thesis by blast
qed

section \<open>A failed listing changes nothing\<close>

lemma list_namespaces_fails:
  assumes "ns \<in> set nss" "\<And>h. \<exists>e. w_list W h ns sel = Inl e"
  shows "wp (list_namespaces W sel nss) (\<lambda>r _. \<exists>e. r = Inl e) h"
  using assms(1)
proof (induction nss arbitrary: h)
  case (Cons n nss h)
  show ?case
  proof (cases "n = ns")
    case True
    with assms(2)[of h] show ?thesis by auto
  next
    case False
    with Cons have "wp (list_namespaces W sel nss) (\<lambda>r _. \<exists>e. bind_err r f = Inl e) h'"
      for h' and f :: "Pod list \<Rightarrow> kube_error + Pod list"
      by (intro wp_mono[OF Cons.IH]) auto
    then show ?thesis by (auto split: sum.splits)
  qed
qed simp

text \<open>
  C13. If one of the namespaces cannot be listed, the pass reports the error and does nothing
  else: no command is sent, no Pod is patched, and the state of every replication set, its
  failure timer included, stays as it was.
\<close>

theorem failed_listing_changes_nothing:
  assumes "ns \<in> set (RedisNamespaces cfg)"
    and "\<forall>h. \<exists>e. w_list W h ns (RedisPodLabelSelector cfg) = Inl e"
  shows "\<exists>e es. reconcile W cfg d ctx sets h = (Done (Some (ListError e), sets), h @ es) \<and>
    (\<forall>ev \<in> set es. \<exists>n \<in> set (RedisNamespaces cfg). ev = EvList n (RedisPodLabelSelector cfg))"
proof -
  let ?m = "list_namespaces W (RedisPodLabelSelector cfg) (RedisNamespaces cfg)"
  have "wp ?m (\<lambda>r _. \<exists>e. r = Inl e) h"
    using assms by (intro list_namespaces_fails) auto
  then obtain e h1 where run: "?m h = (Done (Inl e), h1)"
    by (rule returnsE[OF returns_list_namespaces]) auto
  have "emits (\<lambda>ev. \<exists>n \<in> set (RedisNamespaces cfg). ev = EvList n (RedisPodLabelSelector cfg)) ?m"
    by (rule emits_list_namespaces) blast
  then obtain es where "h1 = h @ es"
    "list_all (\<lambda>ev. \<exists>n \<in> set (RedisNamespaces cfg). ev = EvList n (RedisPodLabelSelector cfg)) es"
    using run by (rule emitsD)
  with run show ?thesis
    by (intro exI[of _ e] exI[of _ es]) (simp add: reconcile_def ListRedisPods_def io_simps list_all_iff)
qed

section \<open>A set with one master\<close>

lemma syncLabels_idle:
  "\<forall>p \<in> set pods. RoleLabel p = wanted_role m p \<Longrightarrow> syncLabels W pods m h = (Done (), h)"
  using syncLabels_trace[of m pods W h] by (auto simp: mislabeled_def)

text \<open>
  C14. A set with one master whose Pods are all labelled correctly is only probed: the pass
  ends right after the probes, with the failure timer reset, and all it sent are \<^verbatim>\<open>INFO\<close>
  commands; no label is written again. This holds whatever the replicas answered: also a
  replica that follows another server is left as it is, where the README says that every Pod that does not
  follow the master is sent \<^verbatim>\<open>REPLICAOF\<close>.
\<close>

theorem single_master_only_probed:
  assumes "probe W cfg d ctx pods h = (Done reached, h1)"
    and "filter is_master reached = [m]"
    and "\<forall>p \<in> set pods. RoleLabel p = wanted_role (Name (pi_pod m)) p"
  shows "\<exists>es. reconcileSet W cfg d ctx pods st h = (Done (None, st\<lparr>masterMissingAt := None\<rparr>), h @ es) \<and>
    (\<forall>e \<in> set es. quiet e \<or> (\<exists>p \<in> set pods. e = sent (pod_addr cfg p) info_cmd))"
proof -
  have "emits (\<lambda>e. quiet e \<or> (\<exists>p \<in> set pods. e = sent (pod_addr cfg p) info_cmd)) (probe W cfg d ctx pods)"
    by (rule emits_probe) (auto intro!: talks_quiet)
  then obtain es where es: "h1 = h @ es"
    "list_all (\<lambda>e. quiet e \<or> (\<exists>p \<in> set pods. e = sent (pod_addr cfg p) info_cmd)) es"
    using assms(1) by (rule emitsD)
  have "reconcileSet W cfg d ctx pods st h = (Done (None, st\<lparr>masterMissingAt := None\<rparr>), h1)"
    using assms(1,2) syncLabels_idle[OF assms(3), of W h1]
    by (simp add: reconcileSet_def io_simps Let_def)
  with es show ?thesis by (simp add: list_all_iff)
qed

section \<open>Nodes whose role is unknown\<close>

text \<open>
  C32. A server whose answer to \<^verbatim>\<open>INFO\<close> does not tell its role is not treated as unverified, as
  the comment of \<^verbatim>\<open>parseReplicationInfo\<close> demands, but as a replica: if it is the only one that
  answers and the failure timer has run out, it is promoted.
\<close>

theorem unknown_role_promoted:
  assumes "clean_recv W"
    and "probe W cfg d ctx pods h = (Done [x], h1)" "Role (pi_info x) = []"
    and "MasterFailureThreshold cfg \<le> missing_for W st h1" "connects W (pod_addr cfg (pi_pod x))"
  shows "\<exists>err st' es. reconcileSet W cfg d ctx pods st h = (Done (err, st'), h @ es) \<and>
    sent (pod_addr cfg (pi_pod x)) promote_cmd \<in> set es"
proof -
  obtain es0 where h1: "h1 = h @ es0" using assms(2) by (rule probe_extends)
  have "\<not> is_master x" using assms(3) by (simp add: is_master_def IsMaster_def RoleMaster_def)
  moreover have "selectFailoverCandidate [x] = Some x"
    by (auto simp: selectFailoverCandidate_def Let_def pick_best_def)
  ultimately have "wp (reconcileSet W cfg d ctx pods st)
     (\<lambda>(err, st') h'. \<exists>es. h' = h @ es \<and> replaces cfg pods st [x] x err st' es) h"
    using assms h1 by (intro lost_master_outcome) auto
  then show ?thesis by (rule returnsE[OF returns_reconcileSet[OF assms(1)]]) auto
qed

end
