(* ===== verification/Scenarios.thy ===== *)
theory Scenarios
  imports Reconcile_All
begin

text \<open>
  A small concrete world, in which the theorems about reconcile passes are applied: two Pods
  of one replication set, an API server that accepts every patch, a clock that advances by
  one second with every event, and servers that answer \<^verbatim>\<open>INFO\<close> with a given text for each
  address and everything else with \<^verbatim>\<open>+OK\<close>.
\<close>

definition demo_kpod :: "string \<Rightarrow> string \<Rightarrow> string \<Rightarrow> k8s_pod" where
  "demo_kpod name ip role =
     \<lparr>kp_Name = name, kp_Namespace = ''n'', kp_PodIP = ip, kp_Phase = ''Running'',
      kp_Conditions = [], kp_Labels = [LabelRole \<mapsto> role], kp_Annotations = Map.empty\<rparr>"

definition demo_kpods :: "string \<Rightarrow> string \<Rightarrow> k8s_pod list" where
  "demo_kpods role0 role1 = [demo_kpod ''r-0'' ''a'' role0, demo_kpod ''r-1'' ''b'' role1]"

definition demo_p0 :: "string \<Rightarrow> Pod" where
  "demo_p0 role = toPod (demo_kpod ''r-0'' ''a'' role)"

definition demo_p1 :: "string \<Rightarrow> Pod" where
  "demo_p1 role = toPod (demo_kpod ''r-1'' ''b'' role)"

abbreviation demo_pods :: "string \<Rightarrow> string \<Rightarrow> Pod list" where
  "demo_pods role0 role1 \<equiv> [demo_p0 role0, demo_p1 role1]"

text \<open>The labels are right, and exchanged.\<close>

abbreviation right_pods :: "Pod list" where
  "right_pods \<equiv> demo_pods ''master'' ''replica''"

abbreviation swapped_pods :: "Pod list" where
  "swapped_pods \<equiv> demo_pods ''replica'' ''master''"

definition swapped_cluster :: cluster where
  "swapped_cluster = map_of (map (\<lambda>kp. ((kp_Namespace kp, kp_Name kp), kp)) (demo_kpods ''replica'' ''master''))"

definition demo_env :: environ where
  "demo_env = [''REDIS_NAMESPACE'' \<mapsto> ''n'', ''REDIS_POD_LABEL_SELECTOR'' \<mapsto> ''s'', ''REDIS_PORT'' \<mapsto> ''1'',
     ''MASTER_FAILURE_THRESHOLD_SECONDS'' \<mapsto> ''5'', ''REDIS_SET_LABEL_KEY'' \<mapsto> ''k'',
     ''DEFAULT_SET_NAME'' \<mapsto> ''d'']"

text \<open>What \<^verbatim>\<open>Load\<close> makes of this environment.\<close>

definition demo_config :: Config where
  "demo_config = \<lparr>RedisNamespace = ''n'', RedisNamespaces = [''n''], RedisPodLabelSelector = ''s'',
     RedisPort = 1, RedisWriteServiceName = ''redis-write'', ReconcileInterval = 10000000000,
     MasterFailureThreshold = 5000000000, RedisConnectTimeout = 2000000000, RedisCommandTimeout = 2000000000,
     ControllerID = ''redis-replication-controller'', EnableLeaderElection = True,
     LeaseName = ''redis-replication-controller'', LeaseNamespace = ''n'',
     InitialMasterStrategy = StrategyLowestPodOrdinal, RedisSetLabelKey = ''k'', DefaultSetName = ''d'',
     ProbeConcurrency = 16, ConfigRewrite = False, HealthProbeAddr = '':8081''\<rparr>"

lemma demo_load: "Load id demo_env None = Inr (demo_config, None)"
  by (simp add: Load_def demo_env_def demo_config_def getEnv_def getEnvInt_def getEnvSeconds_def getEnvBool_def
      parseNamespaces_def default_strategy validate_def plain_eval Let_def defaultControllerID_def
      Atoi_def ParseInt_def ParseUint_def is_digit_def digit_val_def)

definition demo_dialer :: TCPDialer where
  "demo_dialer = NewDialer 2000000000 2000000000"

definition demo_answer :: "(string \<Rightarrow> string) \<Rightarrow> event list \<Rightarrow> string \<Rightarrow> string \<times> io_error" where
  "demo_answer info h addr =
     (if h \<noteq> [] \<and> last h = sent addr info_cmd then encodeReply (RStr (info addr)) else ''+OK'' @ crlf, EOF)"

definition demo_world :: "(string \<Rightarrow> string) \<Rightarrow> world" where
  "demo_world info = \<lparr>w_now = \<lambda>h. 1000000000 * int (length h), w_list = \<lambda>_ _ _. Inr (demo_kpods ''master'' ''replica''),
     w_slices = \<lambda>_ _ _. Inr [], w_patch = \<lambda>_ _ _ _. None, w_dial = \<lambda>_ _. None,
     w_set_deadline = \<lambda>_ _ _. None, w_write = \<lambda>_ _ _. None, w_recv = demo_answer info\<rparr>"

text \<open>Both Pods are masters; neither is; the labelled one is.\<close>

definition two_masters :: "string \<Rightarrow> string" where
  "two_masters addr = ''role:master''"

definition no_masters :: "string \<Rightarrow> string" where
  "no_masters addr = ''role:slave''"

definition one_master :: "string \<Rightarrow> string" where
  "one_master addr = (if addr = ''a:1'' then ''role:master'' else ''role:slave'')"

section \<open>Running the scenarios\<close>

named_theorems demo "running the operations in the concrete world"

lemma demo_world_simps [simp]:
  "w_now (demo_world info) h = 1000000000 * int (length h)"
  "w_list (demo_world info) h ns sel = Inr (demo_kpods ''master'' ''replica'')"
  "w_patch (demo_world info) h ns name data = None"
  "w_dial (demo_world info) h addr = None"
  "w_set_deadline (demo_world info) h addr t = None"
  "w_write (demo_world info) h addr bytes = None"
  "w_recv (demo_world info) = demo_answer info"
  by (simp_all add: demo_world_def)

lemma readReply_OK: "readReply fin (''+OK'' @ crlf) = (Done (Inr (RStr ''OK'')), [])"
  by (simp add: readReply.simps readLine_def)

abbreviation brief :: "(string \<Rightarrow> string) \<Rightarrow> bool" where
  "brief info \<equiv> \<forall>addr. int (length (info addr)) + 2 \<le> max_alloc"

lemma short_demo [simp]: "brief two_masters" "brief no_masters" "brief one_master"
  by (simp_all add: two_masters_def no_masters_def one_master_def max_alloc_def)

lemma readReply_demo:
  "brief info \<Longrightarrow> readReply fin (encodeReply (RStr (info addr))) = (Done (Inr (RStr (info addr))), [])"
  using readReply_encodeReply[of "RStr (info addr)" fin "[]"] by simp

lemma demo_clean: "brief info \<Longrightarrow> clean_recv (demo_world info)"
  using readReply_OK readReply_demo
  by (auto simp: clean_recv_def demo_answer_def simp del: encodeReply.simps)

lemma demo_connects: "connects (demo_world info) addr"
  by (simp add: connects_def)

definition exchange :: "tcpConn \<Rightarrow> string list \<Rightarrow> event list \<Rightarrow> event list" where
  "exchange c args h = h @ [EvNow, EvDeadline (conn_addr c) (1000000000 * int (length h) + cmdTimeout c),
     sent (conn_addr c) args, EvRecv (conn_addr c)]"

lemma demo_info:
  assumes "brief info" "fresh c"
  shows "do_cmd (demo_world info) None c info_cmd h =
    (Done (Inr (RStr (info (conn_addr c))), c), exchange c info_cmd h)"
  using readReply_demo[OF assms(1), of EOF "conn_addr c"] assms(2)
  by (simp add: do_cmd_def now_def io_simps writeCommand_def demo_answer_def exchange_def del: encodeReply.simps)


definition connection :: "Pod \<Rightarrow> tcpConn" where
  "connection p = \<lparr>conn_addr = pod_addr demo_config p, conn_buf = [], cmdTimeout = 2000000000\<rparr>"

lemma connection_simps [simp]: "conn_addr (connection p) = pod_addr demo_config p" "fresh (connection p)"
  by (simp_all add: connection_def)

lemma demo_dial:
  "Dial (demo_world info) demo_dialer None (pod_addr demo_config p) h =
   (Done (Inr (connection p)), h @ [EvDial (pod_addr demo_config p) 2000000000])"
  by (simp add: Dial_def io_simps demo_dialer_def NewDialer_def connection_def)

definition demo_reached :: "(string \<Rightarrow> string) \<Rightarrow> Pod \<Rightarrow> podInfo" where
  "demo_reached info p = \<lparr>pi_pod = p, pi_info = parseReplicationInfo (info (pod_addr demo_config p))\<rparr>"

definition probed :: "Pod \<Rightarrow> event list \<Rightarrow> event list" where
  "probed p h = exchange (connection p) info_cmd (h @ [EvDial (pod_addr demo_config p) 2000000000]) @
     [EvClose (pod_addr demo_config p)]"

lemma demo_probe_pod:
  assumes "brief info" "IP p \<noteq> []" "Phase p = ''Running''"
  shows "probe_pod (demo_world info) demo_config demo_dialer None p h =
     (Done (Some (demo_reached info p)), probed p h)"
  using assms
  by (simp add: probe_pod_def io_simps demo_dial conn_InfoReplication_def demo_info conn_Close_def
      demo_reached_def probed_def)

lemma Itoa_demo: "Itoa 0 = ''0''" "Itoa 1 = ''1''"
  by code_simp+

lemma ordinal_demo: "ordinalFromName ''r-0'' = 0" "ordinalFromName ''r-1'' = 1"
  using ordinalFromName_statefulset[of 0 "''r''"] ordinalFromName_statefulset[of 1 "''r''"]
  by (simp_all add: Itoa_demo)

lemma demo_fields [simp]:
  "Name (demo_p0 r) = ''r-0''" "Namespace (demo_p0 r) = ''n''" "IP (demo_p0 r) = ''a''"
  "Phase (demo_p0 r) = ''Running''" "RoleLabel (demo_p0 r) = r" "Ordinal (demo_p0 r) = 0"
  "Annotations (demo_p0 r) = Map.empty" "Labels (demo_p0 r) = [LabelRole \<mapsto> r]"
  "Name (demo_p1 r) = ''r-1''" "Namespace (demo_p1 r) = ''n''" "IP (demo_p1 r) = ''b''"
  "Phase (demo_p1 r) = ''Running''" "RoleLabel (demo_p1 r) = r" "Ordinal (demo_p1 r) = 1"
  "Annotations (demo_p1 r) = Map.empty" "Labels (demo_p1 r) = [LabelRole \<mapsto> r]"
  by (simp_all add: demo_p0_def demo_p1_def toPod_def demo_kpod_def copyMap_def RoleLabel_def lookup_str_def
      ordinal_demo)

lemma demo_addr [simp]: "pod_addr demo_config (demo_p0 r) = ''a:1''" "pod_addr demo_config (demo_p1 r) = ''b:1''"
  by (simp_all add: pod_addr_def demo_config_def Itoa_demo)

lemma demo_probe:
  assumes "brief info"
  shows "probe (demo_world info) demo_config demo_dialer None (demo_pods r0 r1) h =
    (Done [demo_reached info (demo_p0 r0), demo_reached info (demo_p1 r1)],
     probed (demo_p1 r1) (probed (demo_p0 r0) h))"
  by (simp add: probe_def io_simps demo_probe_pod[OF assms] List.map_filter_def)

lemma demo_role_lines: "Role (parseReplicationInfo ''role:master'') = ''master''"
  "Role (parseReplicationInfo ''role:slave'') = ''slave''"
  by (simp_all add: parseReplicationInfo_def parse_info_line_def trim_space_plain plain_def
      less_eq_char_def has_prefix_def cut_def set_info_field_def)

lemma demo_roles [simp]:
  "is_master (demo_reached two_masters p)"
  "\<not> is_master (demo_reached no_masters p)"
  "is_master (demo_reached one_master (demo_p0 r))"
  "\<not> is_master (demo_reached one_master (demo_p1 r))"
  by (simp_all add: is_master_def IsMaster_def demo_reached_def two_masters_def no_masters_def one_master_def
      demo_role_lines RoleMaster_def)

lemma demo_reached_pod [simp]: "pi_pod (demo_reached info p) = p"
  by (simp add: demo_reached_def)

lemma length_probed [simp]: "length (probed p h) = length h + 6"
  by (simp add: probed_def exchange_def)

lemma demo_threshold [simp]: "MasterFailureThreshold demo_config = 5000000000"
  by (simp add: demo_config_def)

section \<open>The theorems in the concrete world\<close>

text \<open>The witness of C7, in the world of two masters.\<close>

theorem split_brain_resolved_witness:
  "\<exists>m es. reconcileSet (demo_world two_masters) demo_config demo_dialer None right_pods
        \<lparr>masterMissingAt = Some 0, failoverEpoch = 0\<rparr> [] =
      (Done (None, \<lparr>masterMissingAt = None, failoverEpoch = 0\<rparr>), es) \<and>
    m = demo_reached two_masters (demo_p0 ''master'') \<and>
    (\<forall>x \<in> set (map (demo_reached two_masters) right_pods). Name (pi_pod x) \<noteq> Name (pi_pod m) \<longrightarrow>
       sent (pod_addr demo_config (pi_pod x)) (follow_cmd demo_config (pi_pod m)) \<in> set es)"
  using split_brain_resolved[of "demo_world two_masters" demo_config demo_dialer None right_pods "[]" _ _
      "\<lparr>masterMissingAt = Some 0, failoverEpoch = 0\<rparr>", OF demo_clean[OF short_demo(1)] demo_probe[OF short_demo(1)]]
  by (auto simp: demo_connects HasMasterLabel_def role_defs lookup_str_def split: list.splits)

text \<open>The witness of C8, in the world without a master, five seconds after the timer was started.\<close>

abbreviation timer_at_0 :: setState where
  "timer_at_0 \<equiv> \<lparr>masterMissingAt = Some 0, failoverEpoch = 0\<rparr>"

lemma timer_due:
  "MasterFailureThreshold demo_config \<le>
   missing_for (demo_world no_masters) timer_at_0 (probed p (probed q []))"
  by (simp add: missing_for_def)

theorem lost_master_replaced_witness:
  "\<exists>c err st' es. reconcileSet (demo_world no_masters) demo_config demo_dialer None right_pods timer_at_0 [] =
      (Done (err, st'), [] @ es) \<and>
    selectFailoverCandidate [demo_reached no_masters (demo_p0 ''master''), demo_reached no_masters (demo_p1 ''replica'')] = Some c \<and>
    sent (pod_addr demo_config (pi_pod c)) promote_cmd \<in> set es \<and>
    failoverEpoch st' = nextEpoch right_pods timer_at_0 \<and>
    (case err of
       None \<Rightarrow> masterMissingAt st' = None \<and> completes demo_config
         [demo_reached no_masters (demo_p0 ''master''), demo_reached no_masters (demo_p1 ''replica'')]
         (nextEpoch right_pods timer_at_0) c es
     | Some e \<Rightarrow> \<exists>e'. e = PromoteError (Name (pi_pod c)) e')"
  by (rule lost_master_replaced[OF demo_clean[OF short_demo(2)] demo_probe[OF short_demo(2)] _ _ timer_due])
    (simp_all add: demo_connects)

text \<open>The witness of C14: one master, and labels that agree.\<close>

theorem single_master_only_probed_witness:
  "\<exists>es. reconcileSet (demo_world one_master) demo_config demo_dialer None right_pods timer_at_0 [] =
      (Done (None, timer_at_0\<lparr>masterMissingAt := None\<rparr>), [] @ es) \<and>
    (\<forall>e \<in> set es. quiet e \<or> (\<exists>p \<in> set right_pods. e = sent (pod_addr demo_config p) info_cmd))"
  by (rule single_master_only_probed[OF demo_probe[OF short_demo(3)],
        where m = "demo_reached one_master (demo_p0 ''master'')"])
    (simp_all add: wanted_role_def role_defs)

text \<open>The witness of C3, and that a promotion is sent there.\<close>

lemma demo_link: "MasterLinkStatus (parseReplicationInfo ''role:slave'') = []"
  by (simp add: parseReplicationInfo_def parse_info_line_def trim_space_plain plain_def
      less_eq_char_def has_prefix_def cut_def set_info_field_def empty_ReplicationInfo_def)

abbreviation lone_replicas :: "podInfo list" where
  "lone_replicas \<equiv> [demo_reached no_masters (demo_p0 ''master''), demo_reached no_masters (demo_p1 ''replica'')]"

lemma demo_candidate: "selectFailoverCandidate lone_replicas = Some (demo_reached no_masters (demo_p0 ''master''))"
  by (simp add: selectFailoverCandidate_def link_ok_def pick_best_def better_replica_def betterOrdinal_def
      demo_reached_def no_masters_def demo_link)

lemma demo_failover:
  assumes "MasterFailureThreshold demo_config \<le>
    missing_for (demo_world no_masters) st (probed (demo_p1 ''replica'') (probed (demo_p0 ''master'') h))"
  obtains r es where
    "reconcileSet (demo_world no_masters) demo_config demo_dialer None right_pods st h = (r, h @ es)"
    "sent ''a:1'' promote_cmd \<in> set es"
proof -
  have ext: "probed p (probed q h) = h @ drop (length h) (probed p (probed q h))" for p q
    by (simp add: probed_def exchange_def)
  with demo_probe[OF short_demo(2), of "''master''" "''replica''" h]
  have "probe (demo_world no_masters) demo_config demo_dialer None right_pods h =
    (Done lone_replicas, h @ drop (length h) (probed (demo_p1 ''replica'') (probed (demo_p0 ''master'') h)))"
    by metis
  from lost_master_outcome[OF this _ _ demo_candidate, of st] assms
  have "wp (reconcileSet (demo_world no_masters) demo_config demo_dialer None right_pods st)
     (\<lambda>(err, st') h'. \<exists>es. h' = h @ es \<and> sent ''a:1'' promote_cmd \<in> set es) h"
    using ext by (auto simp: demo_connects elim!: wp_mono)
  from returnsE[OF returns_reconcileSet[OF demo_clean[OF short_demo(2)]] this] that show ?thesis
    by auto
qed

theorem promotion_only_when_due_witness:
  "\<exists>r es. reconcileSet (demo_world no_masters) demo_config demo_dialer None right_pods timer_at_0 [] = (r, es) \<and>
    length (filter promotes es) \<le> 1 \<and> sent ''a:1'' promote_cmd \<in> set es \<and>
    promotion_due (demo_world no_masters) demo_config demo_dialer None right_pods timer_at_0 [] ''a:1''"
proof -
  obtain r es where run: "reconcileSet (demo_world no_masters) demo_config demo_dialer None right_pods timer_at_0 []
      = (r, [] @ es)" and "sent ''a:1'' promote_cmd \<in> set es"
    by (rule demo_failover[OF timer_due])
  with promotion_only_when_due[OF run] show ?thesis by auto
qed

text \<open>The witness of C5: the first pass starts the timer, the second one promotes.\<close>

lemma demo_first_pass:
  "reconcileSet (demo_world no_masters) demo_config demo_dialer None right_pods empty_setState [] =
   (Done (None, \<lparr>masterMissingAt = Some 12000000000, failoverEpoch = 0\<rparr>),
    probed (demo_p1 ''replica'') (probed (demo_p0 ''master'') []) @ [EvNow, EvNow])"
  by (simp add: reconcileSet_def io_simps demo_probe handle_missing_def Let_def now_def empty_setState_def)

theorem promotion_after_watched_outage_witness:
  "\<exists>log st h r es hs h1. passes (demo_world no_masters) demo_config demo_dialer log st h \<and>
    reconcileSet (demo_world no_masters) demo_config demo_dialer None right_pods st h = (r, h @ es) \<and>
    sent ''a:1'' promote_cmd \<in> set es \<and> outage_since (log @ [(h1, False)]) hs \<and>
    (\<exists>hn \<in> {h1, h1 @ [EvNow]}. 5 \<le> int (length hn) - int (length hs))"
proof -
  let ?W = "demo_world no_masters"
  let ?h1 = "probed (demo_p1 ''replica'') (probed (demo_p0 ''master'') [])"
  let ?h = "?h1 @ [EvNow, EvNow]" and ?st = "\<lparr>masterMissingAt = Some 12000000000, failoverEpoch = 0\<rparr>"
  let ?h2 = "probed (demo_p1 ''replica'') (probed (demo_p0 ''master'') ?h)"
  have "passes ?W demo_config demo_dialer ([] @ [(?h1, list_ex is_master lone_replicas)]) ?st ?h"
    by (rule passes.pass[OF passes.start[where h = "[]"]])
      (use demo_probe[OF short_demo(2), of _ _ "[]"] demo_first_pass in simp_all)
  then have log: "passes ?W demo_config demo_dialer [(?h1, False)] ?st ?h" by simp
  obtain r es where run: "reconcileSet ?W demo_config demo_dialer None right_pods ?st (?h @ []) = (r, (?h @ []) @ es)"
    and sent: "sent ''a:1'' promote_cmd \<in> set es"
    by (rule demo_failover[of ?st "?h @ []"]) (auto simp: missing_for_def)
  have probe: "probe ?W demo_config demo_dialer None right_pods (?h @ []) = (Done lone_replicas, ?h2)"
    using demo_probe[OF short_demo(2), of _ _ ?h] by simp
  obtain hs where "outage_since ([(?h1, False)] @ [(?h2, list_ex is_master lone_replicas)]) hs"
    "\<exists>hn \<in> {?h2, ?h2 @ [EvNow]}. MasterFailureThreshold demo_config \<le> w_now ?W hn - w_now ?W hs"
    using promotion_after_watched_outage[OF log probe run sent] by blast
  then have "outage_since ([(?h1, False)] @ [(?h2, False)]) hs \<and>
    (\<exists>hn \<in> {?h2, ?h2 @ [EvNow]}. 5 \<le> int (length hn) - int (length hs))" by simp
  moreover have "reconcileSet ?W demo_config demo_dialer None right_pods ?st ?h = (r, ?h @ es)"
    using run by simp
  ultimately show ?thesis using log sent by blast
qed

text \<open>The witness of C4: one master, and the labels of the two Pods are exchanged.\<close>

abbreviation relabelling :: "event list" where
  "relabelling \<equiv> probed (demo_p1 ''master'') (probed (demo_p0 ''replica'') []) @
     [EvPatch ''n'' ''r-0'' (label_patch (JStr ''master'')) True,
      EvPatch ''n'' ''r-1'' (label_patch (JStr ''replica'')) True]"

lemma demo_relabels:
  "reconcileSet (demo_world one_master) demo_config demo_dialer None swapped_pods empty_setState [] =
   (Done (None, empty_setState), [] @ relabelling)"
  by (simp add: reconcileSet_def io_simps demo_probe Let_def empty_setState_def syncLabels_def wanted_role_def
      role_defs SetRoleLabel_def patch_def)

lemma swapped_reflects: "reflects swapped_cluster swapped_pods"
  by (simp add: reflects_def swapped_cluster_def demo_kpods_def demo_kpod_def)

theorem pass_labels_one_master_witness:
  "\<exists>x. pi_pod x \<in> set swapped_pods \<and>
    settles_on (demo_world one_master) demo_config demo_dialer None swapped_pods [] relabelling x \<and>
    (\<forall>p \<in> set swapped_pods. cluster_role (replay swapped_cluster relabelling) (Namespace p, Name p) =
       (if p = pi_pod x then kube_RoleMaster else kube_RoleReplica))"
  by (rule pass_labels_one_master[OF demo_relabels _ _ swapped_reflects])
    (simp_all add: empty_setState_def probed_def exchange_def)







text \<open>The witness of C12: the two Pods are listed and form one set.\<close>

lemma demo_list:
  "ListRedisPods (demo_world one_master) (RedisNamespaces demo_config) (RedisPodLabelSelector demo_config) [] =
   (Done (Inr right_pods), [EvList ''n'' ''s''])"
  by (simp add: ListRedisPods_def demo_config_def io_simps demo_kpods_def pod_less_def ordinalLess_def
      flip: demo_p0_def demo_p1_def)

theorem every_set_gets_its_turn_witness:
  "\<exists>sets' es. reconcile (demo_world one_master) demo_config demo_dialer None Map.empty [] = (Done (None, sets'), es) \<and>
    dom sets' = {SetKey ''n'' ''d''} \<and>
    (\<forall>st'. sets' (SetKey ''n'' ''d'') = Some st' \<longrightarrow>
       set_turn (demo_world one_master) demo_config demo_dialer None right_pods empty_setState
         [EvList ''n'' ''s''] es st')"
proof -
  have key: "set_of (RedisSetLabelKey demo_config) (DefaultSetName demo_config) (demo_p0 r) = SetKey ''n'' ''d''"
    "set_of (RedisSetLabelKey demo_config) (DefaultSetName demo_config) (demo_p1 r) = SetKey ''n'' ''d''" for r
    by (simp_all add: set_of_def SetName_def demo_config_def lookup_str_def LabelRole_def)
  obtain sets' es where
    "reconcile (demo_world one_master) demo_config demo_dialer None Map.empty [] = (Done (None, sets'), [] @ es)"
    "dom sets' = set_of (RedisSetLabelKey demo_config) (DefaultSetName demo_config) ` set right_pods"
    "\<forall>k st'. sets' k = Some st' \<longrightarrow> set_turn (demo_world one_master) demo_config demo_dialer None
       (filter (\<lambda>p. set_of (RedisSetLabelKey demo_config) (DefaultSetName demo_config) p = k) right_pods)
       (stateFor Map.empty k) [EvList ''n'' ''s''] ([] @ es) st'"
    using every_set_gets_its_turn[OF demo_clean[OF short_demo(3)] demo_list] by blast
  then show ?thesis
    by (intro exI[of _ sets'] exI[of _ es]) (simp add: key stateFor_def split: if_splits)
qed

text \<open>The witness of C13: an API server that refuses to list.\<close>

theorem failed_listing_changes_nothing_witness:
  "\<exists>e es. reconcile (demo_world one_master\<lparr>w_list := \<lambda>_ _ _. Inl ''forbidden''\<rparr>) demo_config demo_dialer None
      [SetKey ''n'' ''d'' \<mapsto> timer_at_0] [] =
      (Done (Some (ListError e), [SetKey ''n'' ''d'' \<mapsto> timer_at_0]), [] @ es) \<and>
    (\<forall>ev \<in> set es. \<exists>n \<in> set (RedisNamespaces demo_config). ev = EvList n (RedisPodLabelSelector demo_config))"
  by (rule failed_listing_changes_nothing[where ns = "''n''"]) (simp_all add: demo_config_def)

section \<open>The theorems of the components in the concrete world\<close>

text \<open>A choice between two replicas, and between two masters.\<close>

theorem failover_candidate_best_witness:
  "\<exists>c \<in> set lone_replicas. selectFailoverCandidate lone_replicas = Some c \<and>
    (\<forall>r \<in> set lone_replicas. link_ok r \<or> \<not> link_ok c \<longrightarrow> offset_of r \<le> offset_of c)"
  using failover_candidate_best[of lone_replicas] by blast

theorem bootstrap_by_strategy_witness:
  "\<exists>c \<in> set (map (demo_reached two_masters) right_pods).
     selectBootstrapCandidate demo_config (map (demo_reached two_masters) right_pods) = Some c \<and>
     (\<forall>x \<in> set (map (demo_reached two_masters) right_pods). Ordinal (pi_pod c) \<le> Ordinal (pi_pod x))"
proof -
  have "InitialMasterStrategy demo_config = StrategyLowestPodOrdinal" by (simp add: demo_config_def)
  with bootstrap_by_strategy[of demo_config "map (demo_reached two_masters) right_pods"] show ?thesis by simp
qed

text \<open>The listing of the two Pods.\<close>

theorem listing_complete_and_sorted_witness:
  "\<exists>itemss. listed (demo_world one_master) ''s'' [''n''] itemss \<and>
     mset right_pods = mset (map toPod (concat itemss))"
proof -
  have "ListRedisPods (demo_world one_master) [''n''] ''s'' [] = (Done (Inr right_pods), [EvList ''n'' ''s''])"
    using demo_list by (simp add: demo_config_def)
  from listing_complete_and_sorted[OF this] show ?thesis by blast
qed

theorem listing_canonical_witness:
  "\<exists>pods h1 h2.
     ListRedisPods (demo_world one_master) [''n''] ''s'' [] = (Done (Inr pods), h1) \<and>
     ListRedisPods (demo_world one_master\<lparr>w_list := \<lambda>_ _ _. Inr (rev (demo_kpods ''master'' ''replica''))\<rparr>)
       [''n''] ''s'' [] = (Done (Inr pods), h2)"
  using listing_canonical[of "[''n'']" "demo_world one_master" "''s''" "\<lambda>_. demo_kpods ''master'' ''replica''"
      "demo_world one_master\<lparr>w_list := \<lambda>_ _ _. Inr (rev (demo_kpods ''master'' ''replica''))\<rparr>"
      "\<lambda>_. rev (demo_kpods ''master'' ''replica'')" "[]" "[]"]
  by (auto simp: demo_kpods_def demo_kpod_def inj_on_def)

text \<open>A patch of the first Pod.\<close>

theorem patches_do_what_they_say_witness:
  "\<exists>err ok. SetRoleLabel (demo_world one_master) ''n'' ''r-0'' ''master'' [] =
      (Done err, [EvPatch ''n'' ''r-0'' (label_patch (JStr ''master'')) ok]) \<and> (err = None \<longleftrightarrow> ok)"
proof -
  have "swapped_cluster (''n'', ''r-0'') = Some (demo_kpod ''r-0'' ''a'' ''replica'')"
    by (simp add: swapped_cluster_def demo_kpods_def demo_kpod_def)
  from patches_do_what_they_say[where C = swapped_cluster and W = "demo_world one_master" and h = "[]" and
      v = "''master''", OF this]
  show ?thesis by auto
qed

text \<open>An exchange with the first Pod, where nothing takes any time.\<close>

theorem exchange_deadline_witness:
  "deadlines_kept (demo_world one_master\<lparr>w_now := \<lambda>_. 0\<rparr>) \<and>
   (\<exists>tail. snd (do_cmd (demo_world one_master\<lparr>w_now := \<lambda>_. 0\<rparr>) (Some 1) (connection (demo_p0 ''master'')) info_cmd []) =
      [EvNow, EvDeadline ''a:1'' 1] @ tail)"
proof -
  let ?W = "demo_world one_master\<lparr>w_now := \<lambda>_. 0\<rparr>" and ?c = "connection (demo_p0 ''master'')"
  have "deadlines_kept ?W" by (simp add: deadlines_kept_def)
  with exchange_deadline[of ?W "Some 1" ?c info_cmd "[]"] show ?thesis
    by (auto simp: deadline_at_def connection_def)
qed

theorem info_exchange_witness:
  "conn_InfoReplication (demo_world one_master) None (connection (demo_p0 ''master'')) [] =
    (Done (Inr (parseReplicationInfo ''role:master''), connection (demo_p0 ''master'')),
     requested (demo_world one_master) None (connection (demo_p0 ''master'')) info_cmd [] @ [EvRecv ''a:1''])"
  using info_exchange[of "demo_world one_master" "connection (demo_p0 ''master'')" None "[]" "''role:master''" "[]"]
  by (simp add: demo_answer_def requested_def one_master_def max_alloc_def connection_def)

text \<open>A lone server that answers \<^verbatim>\<open>INFO\<close> with an empty text.\<close>

lemma empty_text: "Role (parseReplicationInfo []) = []"
  by (simp add: parseReplicationInfo_def parse_info_line_def empty_ReplicationInfo_def)

theorem unknown_role_promoted_witness:
  "\<exists>err st' es. reconcileSet (demo_world (\<lambda>_. [])) demo_config demo_dialer None [demo_p0 ''replica''] timer_at_0 [] =
      (Done (err, st'), [] @ es) \<and>
    sent (pod_addr demo_config (pi_pod (demo_reached (\<lambda>_. []) (demo_p0 ''replica'')))) promote_cmd \<in> set es"
proof (rule unknown_role_promoted)
  have brief: "brief (\<lambda>_. [])" by (simp add: max_alloc_def)
  show "clean_recv (demo_world (\<lambda>_. []))" using brief by (rule demo_clean)
  show "probe (demo_world (\<lambda>_. [])) demo_config demo_dialer None [demo_p0 ''replica''] [] =
      (Done [demo_reached (\<lambda>_. []) (demo_p0 ''replica'')], probed (demo_p0 ''replica'') [])"
    by (simp add: probe_def io_simps demo_probe_pod[OF brief] List.map_filter_def)
  show "Role (pi_info (demo_reached (\<lambda>_. []) (demo_p0 ''replica''))) = []"
    by (simp add: demo_reached_def empty_text)
qed (simp_all add: missing_for_def demo_connects)

end
