(* ===== verification/Probe_Pool.thy ===== *)
theory Probe_Pool
  imports Reconcile_Safety
begin

text \<open>
  The parallel part of \<^verbatim>\<open>probe\<close> in \<^verbatim>\<open>internal/controller/controller.go\<close>: a loop that starts a
  goroutine for every Pod worth probing, a channel of capacity \<open>limit\<close> that bounds how many
  run at a time, a slot for each result, and a wait group. The steps of the loop and of the
  goroutines interleave freely. What a goroutine finds out about its Pod is the parameter
  \<open>finds\<close>; the theory shows that the interleaving does not matter, which justifies the
  definition \<open>probe\<close> that asks the Pods one after the other.
\<close>

section \<open>States and steps\<close>

text \<open>A goroutine probes, then has stored its result, then has left the semaphore, then is gone.\<close>

datatype phase = Probing | Stored | Released

record pool =
  next_pod :: nat                    \<comment> \<open>the loop variable\<close>
  added :: bool                      \<comment> \<open>the loop has called \<^verbatim>\<open>wg.Add\<close> and is about to send to the channel\<close>
  workers :: "nat \<rightharpoonup> phase"         \<comment> \<open>the goroutines that have not called \<^verbatim>\<open>wg.Done\<close>\<close>
  sem :: nat                         \<comment> \<open>tokens in the channel\<close>
  wg :: nat                          \<comment> \<open>the counter of the wait group\<close>
  slots :: "podInfo option list"     \<comment> \<open>results, \<open>None\<close> where \<^verbatim>\<open>ok\<close> is false\<close>

definition probe_limit :: "Config \<Rightarrow> nat" where
  "probe_limit cfg = nat (if ProbeConcurrency cfg < 1 then 1 else ProbeConcurrency cfg)"

definition worth_probing :: "Pod \<Rightarrow> bool" where
  "worth_probing p \<longleftrightarrow> \<not> (IP p = [] \<or> Phase p \<noteq> ''Running'')"

definition pool_start :: "Pod list \<Rightarrow> pool" where
  "pool_start pods = \<lparr>next_pod = 0, added = False, workers = Map.empty, sem = 0, wg = 0,
     slots = replicate (length pods) None\<rparr>"

text \<open>
  The step that the loop or one of the goroutines takes. The loop counts a goroutine before it
  waits for a place in the channel, and a goroutine leaves the channel before it leaves the wait
  group, since deferred calls run in reverse order. A goroutine that panics ends the process, and so
  is not a step of the pool.
\<close>

inductive pool_step ::
  "nat \<Rightarrow> (Pod \<Rightarrow> podInfo option \<Rightarrow> bool) \<Rightarrow> Pod list \<Rightarrow> pool \<Rightarrow> pool \<Rightarrow> bool"
  for limit finds pods where
  skip: "next_pod s < length pods \<Longrightarrow> \<not> added s \<Longrightarrow> \<not> worth_probing (pods ! next_pod s) \<Longrightarrow>
     pool_step limit finds pods s (s\<lparr>next_pod := Suc (next_pod s)\<rparr>)"
| add: "next_pod s < length pods \<Longrightarrow> \<not> added s \<Longrightarrow> worth_probing (pods ! next_pod s) \<Longrightarrow>
     pool_step limit finds pods s (s\<lparr>added := True, wg := Suc (wg s)\<rparr>)"
| spawn: "next_pod s < length pods \<Longrightarrow> added s \<Longrightarrow> sem s < limit \<Longrightarrow>
     pool_step limit finds pods s
       (s\<lparr>next_pod := Suc (next_pod s), added := False, workers := (workers s)(next_pod s \<mapsto> Probing),
          sem := Suc (sem s)\<rparr>)"
| store: "workers s i = Some Probing \<Longrightarrow> finds (pods ! i) r \<Longrightarrow>
     pool_step limit finds pods s
       (s\<lparr>workers := (workers s)(i \<mapsto> Stored), slots := (slots s)[i := r]\<rparr>)"
| release: "workers s i = Some Stored \<Longrightarrow>
     pool_step limit finds pods s (s\<lparr>workers := (workers s)(i \<mapsto> Released), sem := sem s - 1\<rparr>)"
| exit: "workers s i = Some Released \<Longrightarrow>
     pool_step limit finds pods s (s\<lparr>workers := (workers s)(i := None), wg := wg s - 1\<rparr>)"

inductive_cases pool_stepE: "pool_step limit finds pods s s'"

inductive pool_reachable ::
  "nat \<Rightarrow> (Pod \<Rightarrow> podInfo option \<Rightarrow> bool) \<Rightarrow> Pod list \<Rightarrow> pool \<Rightarrow> bool"
  for limit finds pods where
  start: "pool_reachable limit finds pods (pool_start pods)"
| step: "pool_reachable limit finds pods s \<Longrightarrow> pool_step limit finds pods s s' \<Longrightarrow>
     pool_reachable limit finds pods s'"

text \<open>\<^verbatim>\<open>wg.Wait()\<close> returns after the loop, when no goroutine is left; then the filled slots are collected.\<close>

definition pool_done :: "Pod list \<Rightarrow> pool \<Rightarrow> bool" where
  "pool_done pods s \<longleftrightarrow> next_pod s = length pods \<and> wg s = 0"

definition pool_result :: "pool \<Rightarrow> podInfo list" where
  "pool_result s = List.map_filter id (slots s)"

section \<open>The invariant\<close>

definition holds_token :: "phase \<Rightarrow> bool" where
  "holds_token ph \<longleftrightarrow> ph \<noteq> Released"

definition token_holders :: "pool \<Rightarrow> nat set" where
  "token_holders s = {i. \<exists>ph. workers s i = Some ph \<and> holds_token ph}"

definition slot_ok :: "(Pod \<Rightarrow> podInfo option \<Rightarrow> bool) \<Rightarrow> Pod list \<Rightarrow> pool \<Rightarrow> nat \<Rightarrow> bool" where
  "slot_ok finds pods s i \<longleftrightarrow>
     (if i < next_pod s \<and> worth_probing (pods ! i) \<and> workers s i \<noteq> Some Probing
      then finds (pods ! i) (slots s ! i) else slots s ! i = None)"

definition pool_inv :: "nat \<Rightarrow> (Pod \<Rightarrow> podInfo option \<Rightarrow> bool) \<Rightarrow> Pod list \<Rightarrow> pool \<Rightarrow> bool" where
  "pool_inv limit finds pods s \<longleftrightarrow>
     next_pod s \<le> length pods \<and> length (slots s) = length pods \<and>
     (\<forall>i \<in> dom (workers s). i < next_pod s \<and> worth_probing (pods ! i)) \<and>
     (added s \<longrightarrow> next_pod s < length pods \<and> worth_probing (pods ! next_pod s)) \<and>
     sem s = card (token_holders s) \<and> wg s = card (dom (workers s)) + of_bool (added s) \<and> sem s \<le> limit \<and>
     (\<forall>i < length pods. slot_ok finds pods s i)"

lemma pool_inv_start: "pool_inv limit finds pods (pool_start pods)"
  by (simp add: pool_inv_def pool_start_def token_holders_def slot_ok_def)

lemma finite_workers: "pool_inv limit finds pods s \<Longrightarrow> finite (dom (workers s))"
  by (rule finite_subset[of _ "{..<next_pod s}"]) (auto simp: pool_inv_def)

lemma token_holders_subset: "token_holders s \<subseteq> dom (workers s)"
  by (auto simp: token_holders_def)

lemma pool_inv_step:
  assumes "pool_step limit finds pods s s'" "pool_inv limit finds pods s"
  shows "pool_inv limit finds pods s'"
proof -
  have fin: "finite (dom (workers s))" "finite (token_holders s)"
    using finite_workers[OF assms(2)] finite_subset[OF token_holders_subset] by blast+
  show ?thesis
    using assms(1)
  proof cases
    case skip
    then show ?thesis
      using assms(2) by (auto simp: pool_inv_def token_holders_def slot_ok_def less_Suc_eq)
  next
    case add
    then show ?thesis using assms(2) by (auto simp: pool_inv_def token_holders_def slot_ok_def)
  next
    case spawn
    have new: "next_pod s \<notin> dom (workers s)" using assms(2) by (auto simp: pool_inv_def)
    have "token_holders s' = insert (next_pod s) (token_holders s)"
      using spawn by (auto simp: token_holders_def holds_token_def)
    moreover have "next_pod s \<notin> token_holders s" using new token_holders_subset by blast
    ultimately show ?thesis
      using spawn assms(2) new fin
      by (auto simp: pool_inv_def slot_ok_def less_Suc_eq card_insert_if split: if_splits)
  next
    case (store i r)
    have "token_holders s' = token_holders s" "dom (workers s') = dom (workers s)"
      using store by (auto simp: token_holders_def holds_token_def)
    then show ?thesis
      using store assms(2) by (auto simp: pool_inv_def slot_ok_def nth_list_update split: if_splits)
  next
    case (release i)
    have "token_holders s' = token_holders s - {i}" "i \<in> token_holders s" "dom (workers s') = dom (workers s)"
      using release by (auto simp: token_holders_def holds_token_def split: if_splits)
    then show ?thesis
      using release assms(2) fin by (auto simp: pool_inv_def slot_ok_def split: if_splits)
  next
    case (exit i)
    have "token_holders s' = token_holders s" "dom (workers s') = dom (workers s) - {i}" "i \<in> dom (workers s)"
      using exit by (auto simp: token_holders_def holds_token_def split: if_splits)
    moreover have "i < next_pod s" using exit assms(2) by (force simp: pool_inv_def)
    moreover then have "i < length pods" using assms(2) by (auto simp: pool_inv_def)
    then have "finds (pods ! i) (slots s ! i)"
      using exit assms(2) \<open>i < next_pod s\<close> \<open>i \<in> dom (workers s)\<close> by (auto simp: pool_inv_def slot_ok_def)
    moreover have "0 < card (dom (workers s))" using \<open>i \<in> dom (workers s)\<close> fin by (auto simp: card_gt_0_iff)
    ultimately show ?thesis
      using exit assms(2) fin by (auto simp: pool_inv_def slot_ok_def split: if_splits)
  qed
qed

lemma pool_reachable_inv: "pool_reachable limit finds pods s \<Longrightarrow> pool_inv limit finds pods s"
  by (induction rule: pool_reachable.induct) (auto intro: pool_inv_start pool_inv_step)

section \<open>No deadlock, and termination\<close>

text \<open>The work that is left: five steps for a Pod not yet visited, one to three for a goroutine.\<close>

primrec remaining :: "phase \<Rightarrow> nat" where
  "remaining Probing = 3"
| "remaining Stored = 2"
| "remaining Released = 1"

definition work_left :: "Pod list \<Rightarrow> pool \<Rightarrow> nat" where
  "work_left pods s = 5 * (length pods - next_pod s) + of_bool (\<not> added s) + (\<Sum>i \<in> dom (workers s). remaining (the (workers s i)))"

lemma sum_update_worker:
  assumes "finite (dom m)" "m i = Some ph"
  shows "(\<Sum>j \<in> dom m. remaining (the (m j))) = remaining ph + (\<Sum>j \<in> dom m - {i}. remaining (the (m j)))"
  using assms by (subst sum.remove[of _ i]) auto

lemma work_left_step:
  assumes "pool_step limit finds pods s s'" "pool_inv limit finds pods s"
  shows "work_left pods s' < work_left pods s"
proof -
  note fin = finite_workers[OF assms(2)]
  have other: "(\<Sum>j \<in> dom (workers s) - {i}. remaining (the (((workers s)(i := x)) j))) =
               (\<Sum>j \<in> dom (workers s) - {i}. remaining (the (workers s j)))" for i x
    by (rule sum.cong) auto
  show ?thesis
    using assms(1)
  proof cases
    case skip
    then show ?thesis by (simp add: work_left_def)
  next
    case add
    then show ?thesis by (simp add: work_left_def)
  next
    case spawn
    have "next_pod s \<notin> dom (workers s)" using assms(2) by (auto simp: pool_inv_def)
    then have "(\<Sum>j \<in> dom (workers s). remaining (the (((workers s)(next_pod s \<mapsto> Probing)) j))) =
               (\<Sum>j \<in> dom (workers s). remaining (the (workers s j)))"
      by (intro sum.cong) auto
    with spawn fin \<open>next_pod s \<notin> dom (workers s)\<close> show ?thesis by (simp add: work_left_def)
  next
    case (store i r)
    then show ?thesis
      using sum_update_worker[OF fin, of i Probing] other[of i]
        sum_update_worker[of "(workers s)(i \<mapsto> Stored)" i Stored] fin
      by (simp add: work_left_def insert_absorb domI)
  next
    case (release i)
    then show ?thesis
      using sum_update_worker[OF fin, of i Stored] other[of i]
        sum_update_worker[of "(workers s)(i \<mapsto> Released)" i Released] fin
      by (simp add: work_left_def insert_absorb domI)
  next
    case (exit i)
    then show ?thesis
      using sum_update_worker[OF fin, of i Released] other[of i]
      by (simp add: work_left_def)
  qed
qed

lemma pool_progress:
  assumes "pool_inv limit finds pods s" "\<not> pool_done pods s" "0 < limit"
    and total: "\<And>p. worth_probing p \<Longrightarrow> \<exists>r. finds p r"
  shows "\<exists>s'. pool_step limit finds pods s s'"
proof (cases "dom (workers s) = {}")
  case True
  then have "sem s = 0" "wg s = of_bool (added s)"
    using assms(1) token_holders_subset[of s] by (auto simp: pool_inv_def)
  then have "next_pod s < length pods" using assms(1,2) by (auto simp: pool_done_def pool_inv_def)
  then show ?thesis
    using \<open>sem s = 0\<close> assms(3) pool_step.skip[of s pods] pool_step.add[of s pods] pool_step.spawn[of s pods] by metis
next
  case False
  then obtain i ph where i: "workers s i = Some ph" by fastforce
  then have "worth_probing (pods ! i)" using assms(1) by (auto simp: pool_inv_def)
  with i total[of "pods ! i"] show ?thesis
    by (cases ph) (blast intro: pool_step.intros)+
qed

text \<open>So every run can be completed, and, as the work decreases, is completed.\<close>

lemma pool_completes:
  assumes "0 < limit" "\<And>p. worth_probing p \<Longrightarrow> \<exists>r. finds p r"
  shows "\<exists>s. pool_reachable limit finds pods s \<and> pool_done pods s"
proof -
  have "pool_reachable limit finds pods s \<Longrightarrow> \<exists>s'. pool_reachable limit finds pods s' \<and> pool_done pods s'" for s
  proof (induction "work_left pods s" arbitrary: s rule: less_induct)
    case less
    note inv = pool_reachable_inv[OF less.prems]
    show ?case
    proof (cases "pool_done pods s")
      case False
      then obtain s' where step: "pool_step limit finds pods s s'"
        using pool_progress[OF inv _ assms] by blast
      show ?thesis
        using less.hyps[OF work_left_step[OF step inv] pool_reachable.step[OF less.prems step]] .
    qed (use less.prems in blast)
  qed
  then show ?thesis using pool_reachable.start by blast
qed

section \<open>The result does not depend on the interleaving\<close>

lemma pool_done_slots:
  assumes "pool_inv limit finds pods s" "pool_done pods s" "i < length pods"
  shows "if worth_probing (pods ! i) then finds (pods ! i) (slots s ! i) else slots s ! i = None"
proof -
  have "dom (workers s) = {}"
    using assms(1,2) finite_workers[OF assms(1)] by (simp add: pool_inv_def pool_done_def)
  then have "workers s i = None" by auto
  then show ?thesis using assms by (auto simp: pool_inv_def pool_done_def slot_ok_def split: if_splits)
qed

definition found :: "(Pod \<Rightarrow> podInfo option) \<Rightarrow> Pod \<Rightarrow> podInfo option" where
  "found out p = (if worth_probing p then out p else None)"

lemma pool_done_deterministic:
  assumes "pool_reachable limit (\<lambda>p r. r = out p) pods s" "pool_done pods s"
  shows "slots s = map (found out) pods"
proof (rule nth_equalityI)
  note inv = pool_reachable_inv[OF assms(1)]
  then show "length (slots s) = length (map (found out) pods)" by (simp add: pool_inv_def)
  then show "slots s ! i = map (found out) pods ! i" if "i < length (slots s)" for i
    using pool_done_slots[OF inv assms(2), of i] that by (auto simp: found_def split: if_splits)
qed

lemma probe_steady:
  assumes "\<And>p h. p \<in> set pods \<Longrightarrow> fst (probe_pod W cfg d ctx p h) = Done (out p)"
  shows "fst (map_io (probe_pod W cfg d ctx) pods h) = Done (map out pods)"
  using assms
proof (induction pods arbitrary: h)
  case Nil
  then show ?case by (simp add: io_simps)
next
  case (Cons p pods)
  obtain h1 where p: "probe_pod W cfg d ctx p h = (Done (out p), h1)"
    using Cons.prems[of p h] by (cases "probe_pod W cfg d ctx p h") auto
  obtain h2 where "map_io (probe_pod W cfg d ctx) pods h1 = (Done (map out pods), h2)"
    using Cons.IH[of h1] Cons.prems by (cases "map_io (probe_pod W cfg d ctx) pods h1") auto
  with p show ?case by (simp add: io_simps)
qed

lemma probe_pod_not_worth: "\<not> worth_probing p \<Longrightarrow> probe_pod W cfg d ctx p h = (Done None, h)"
  by (simp add: probe_pod_def worth_probing_def io_simps)

lemma steady_found:
  assumes "\<And>p h. p \<in> set pods \<Longrightarrow> fst (probe_pod W cfg d ctx p h) = Done (out p)"
  shows "map (found out) pods = map out pods"
proof (rule map_cong[OF refl])
  show "found out p = out p" if "p \<in> set pods" for p
    using assms[OF that, of "[]"] probe_pod_not_worth[of p W cfg d ctx "[]"] by (auto simp: found_def)
qed

text \<open>
  C9. Probing in parallel is correct: in a world where each Pod gives the same answer whenever
  it is asked, every complete interleaving of the goroutines yields the same list, in the
  order of the Pods, and it is the list that the sequential \<^verbatim>\<open>probe\<close> of the model returns.
\<close>

theorem parallel_probe_refines_sequential:
  assumes "\<forall>p \<in> set pods. \<forall>h. fst (probe_pod W cfg d ctx p h) = Done (out p)"
    and "pool_reachable (probe_limit cfg) (\<lambda>p r. r = out p) pods s" "pool_done pods s"
  shows "fst (probe W cfg d ctx pods h) = Done (pool_result s)"
proof -
  have steady: "\<And>p h. p \<in> set pods \<Longrightarrow> fst (probe_pod W cfg d ctx p h) = Done (out p)"
    using assms(1) by blast
  have "pool_result s = List.map_filter id (map out pods)"
    by (simp only: pool_result_def pool_done_deterministic[OF assms(2,3)] steady_found[OF steady])
  moreover obtain h1 where "map_io (probe_pod W cfg d ctx) pods h = (Done (map out pods), h1)"
    using probe_steady[of pods W cfg d ctx out h] steady
    by (cases "map_io (probe_pod W cfg d ctx) pods h") auto
  ultimately show ?thesis by (simp add: probe_def io_simps)
qed

text \<open>
  C10. The pool is bounded, cannot get stuck and comes to an end: in every reachable state at
  most \<open>limit\<close> goroutines hold a token, a slot is filled only for a Pod worth probing and
  with something that probing this Pod can find, either the pool is done or some step is
  possible, and every step decreases the work that is left.
\<close>

theorem probe_pool_bounded_and_live:
  assumes "pool_reachable (probe_limit cfg) finds pods s"
    and "\<forall>p. worth_probing p \<longrightarrow> (\<exists>r. finds p r)"
  shows "card (token_holders s) \<le> probe_limit cfg \<and> 1 \<le> probe_limit cfg \<and>
    (\<forall>i < length pods. slots s ! i \<noteq> None \<longrightarrow> worth_probing (pods ! i) \<and> finds (pods ! i) (slots s ! i)) \<and>
    (pool_done pods s \<or> (\<exists>s'. pool_step (probe_limit cfg) finds pods s s')) \<and>
    (\<forall>s'. pool_step (probe_limit cfg) finds pods s s' \<longrightarrow> work_left pods s' < work_left pods s)"
proof -
  note inv = pool_reachable_inv[OF assms(1)]
  have pos: "0 < probe_limit cfg" by (simp add: probe_limit_def)
  have "worth_probing (pods ! i) \<and> finds (pods ! i) (slots s ! i)"
    if "i < length pods" "slots s ! i \<noteq> None" for i
    using inv that by (auto simp: pool_inv_def slot_ok_def split: if_splits)
  moreover have "card (token_holders s) \<le> probe_limit cfg"
    using inv by (simp add: pool_inv_def)
  ultimately show ?thesis
    using pos pool_progress[OF inv _ pos] assms(2) work_left_step[OF _ inv] by auto
qed

end
