(* ===== verification/Run_Loop.thy ===== *)
theory Run_Loop
  imports Reconcile_All
begin

text \<open>
  The controller as a whole: its state, the loop of \<^verbatim>\<open>Run\<close> and the readiness test of
  \<^verbatim>\<open>internal/controller/controller.go\<close>. Which of the channels of a \<^verbatim>\<open>select\<close> is ready next, the
  ticker's or the context's, is an input: a run is determined by a list of inputs, and a list
  that ends without \<open>CtxDone\<close> is a run that is still going on. The mutex is not modelled: the
  fields it protects are written by the loop and read by \<^verbatim>\<open>Ready\<close>, one whole update at a time.
\<close>

section \<open>State and operations\<close>

record Controller =
  ctl_cfg :: Config
  ctl_dialer :: TCPDialer
  ctl_sets :: sets
  ctl_started :: bool
  ctl_lastReconcileAt :: int

definition New :: "Config \<Rightarrow> TCPDialer \<Rightarrow> Controller" where
  "New cfg dialer = \<lparr>ctl_cfg = cfg, ctl_dialer = dialer, ctl_sets = Map.empty,
     ctl_started = False, ctl_lastReconcileAt = 0\<rparr>"

datatype loop_input = Tick | CtxDone

text \<open>What \<^verbatim>\<open>Run\<close> returns: \<^verbatim>\<open>ctx.Err()\<close> once the context is done; \<open>StillRunning\<close> is not a return.\<close>

datatype run_status = StillRunning | Cancelled

definition on_tick :: "world \<Rightarrow> ctx \<Rightarrow> Controller \<Rightarrow> Controller run" where
  "on_tick W ctx c =
     bind_io (reconcile W (ctl_cfg c) (ctl_dialer c) ctx (ctl_sets c)) (\<lambda>(err, sets').
       let c' = c\<lparr>ctl_sets := sets'\<rparr> in
       if err \<noteq> None then ret c'
       else bind_io (now W) (\<lambda>t. ret (c'\<lparr>ctl_lastReconcileAt := t\<rparr>)))"

fun run_loop :: "world \<Rightarrow> ctx \<Rightarrow> loop_input list \<Rightarrow> Controller \<Rightarrow> (run_status \<times> Controller) run" where
  "run_loop W ctx [] c = ret (StillRunning, c)"
| "run_loop W ctx (CtxDone # ins) c = ret (Cancelled, c)"
| "run_loop W ctx (Tick # ins) c = bind_io (on_tick W ctx c) (run_loop W ctx ins)"

text \<open>\<^verbatim>\<open>time.NewTicker\<close> panics unless the interval is positive; \<^verbatim>\<open>config.Load\<close> has checked it.\<close>

definition Run :: "world \<Rightarrow> ctx \<Rightarrow> loop_input list \<Rightarrow> Controller \<Rightarrow> (run_status \<times> Controller) run" where
  "Run W ctx ins c =
     bind_io (now W) (\<lambda>t.
       if ReconcileInterval (ctl_cfg c) \<le> 0 then panic
       else run_loop W ctx ins (c\<lparr>ctl_started := True, ctl_lastReconcileAt := t\<rparr>))"

definition Ready :: "world \<Rightarrow> Controller \<Rightarrow> bool run" where
  "Ready W c =
     (if \<not> ctl_started c then ret True
      else bind_io (now W) (\<lambda>t.
        ret (t - ctl_lastReconcileAt c < wrap64 (3 * ReconcileInterval (ctl_cfg c)))))"

section \<open>The passes of a run\<close>

text \<open>
  What a run of the controller observes, in its order: \<open>Turn k h1 reached\<close> is a pass over the set \<open>k\<close>
  whose probes ended in the history \<open>h1\<close> and reached \<open>reached\<close>; \<open>Swept K\<close> is the end of a pass
  over all sets, which forgets every set that is not in \<open>K\<close>. The log is computed by following
  the definitions of the run itself.
\<close>

datatype turn = Turn setKey "event list" "podInfo list" | Swept "setKey set"

definition set_log :: "world \<Rightarrow> Config \<Rightarrow> TCPDialer \<Rightarrow> ctx \<Rightarrow> setKey \<Rightarrow> Pod list \<Rightarrow> event list \<Rightarrow> turn list" where
  "set_log W cfg d ctx k pods h = (case probe W cfg d ctx pods h of
      (Done reached, h1) \<Rightarrow> [Turn k h1 reached] | (Panic, _) \<Rightarrow> [])"

abbreviation pods_of :: "groups \<Rightarrow> setKey \<Rightarrow> Pod list" where
  "pods_of gs k \<equiv> (case map_of gs k of None \<Rightarrow> [] | Some ps \<Rightarrow> ps)"

fun keys_log ::
  "world \<Rightarrow> Config \<Rightarrow> TCPDialer \<Rightarrow> ctx \<Rightarrow> groups \<Rightarrow> setKey list \<Rightarrow> sets \<Rightarrow> event list \<Rightarrow> turn list" where
  "keys_log W cfg d ctx gs [] sets h = []"
| "keys_log W cfg d ctx gs (k # keys) sets h = set_log W cfg d ctx k (pods_of gs k) h @
     (case reconcileSet W cfg d ctx (pods_of gs k) (stateFor sets k) h of
        (Done (err, st), h') \<Rightarrow> keys_log W cfg d ctx gs keys (sets(k \<mapsto> st)) h' | (Panic, _) \<Rightarrow> [])"

definition reconcile_log :: "world \<Rightarrow> Config \<Rightarrow> TCPDialer \<Rightarrow> ctx \<Rightarrow> sets \<Rightarrow> event list \<Rightarrow> turn list" where
  "reconcile_log W cfg d ctx sets h =
     (case ListRedisPods W (RedisNamespaces cfg) (RedisPodLabelSelector cfg) h of
        (Done (Inr pods), h1) \<Rightarrow>
          let gs = groupBySet pods (RedisSetLabelKey cfg) (DefaultSetName cfg)
          in keys_log W cfg d ctx gs (sortedKeys gs) sets h1 @ [Swept (set (map fst gs))]
      | _ \<Rightarrow> [])"

fun run_loop_log :: "world \<Rightarrow> ctx \<Rightarrow> loop_input list \<Rightarrow> Controller \<Rightarrow> event list \<Rightarrow> turn list" where
  "run_loop_log W ctx [] c h = []"
| "run_loop_log W ctx (CtxDone # ins) c h = []"
| "run_loop_log W ctx (Tick # ins) c h = reconcile_log W (ctl_cfg c) (ctl_dialer c) ctx (ctl_sets c) h @
     (case on_tick W ctx c h of (Done c', h') \<Rightarrow> run_loop_log W ctx ins c' h' | (Panic, _) \<Rightarrow> [])"

definition run_log :: "world \<Rightarrow> ctx \<Rightarrow> loop_input list \<Rightarrow> Controller \<Rightarrow> event list \<Rightarrow> turn list" where
  "run_log W ctx ins c h =
     run_loop_log W ctx ins (c\<lparr>ctl_started := True, ctl_lastReconcileAt := w_now W h\<rparr>) (h @ [EvNow])"

text \<open>Every turn in \<open>log\<close> comes after the history \<open>h\<close>.\<close>

definition turns_after :: "event list \<Rightarrow> turn list \<Rightarrow> bool" where
  "turns_after h log \<longleftrightarrow> (\<forall>k h1 reached. Turn k h1 reached \<in> set log \<longrightarrow> prefix h h1)"

lemma turns_after_simps [simp]:
  "turns_after h []" "turns_after h (log @ log') \<longleftrightarrow> turns_after h log \<and> turns_after h log'"
  "turns_after h [Swept K]"
  unfolding turns_after_def by (auto, blast+)

lemma turns_after_mono: "turns_after h' log \<Longrightarrow> prefix h h' \<Longrightarrow> turns_after h log"
  unfolding turns_after_def by (meson prefix_order.trans)

lemma emits_any:
  shows "emits (\<lambda>_. True) (probe W cfg d ctx pods)" "emits (\<lambda>_. True) (reconcile W cfg d ctx sets)"
    "emits (\<lambda>_. True) (on_tick W ctx c)"
proof -
  show "emits (\<lambda>_. True) (probe W cfg d ctx pods)" by (rule emits_probe) (simp add: talks_def)
  show rec: "emits (\<lambda>_. True) (reconcile W cfg d ctx sets)" for cfg d sets
    unfolding reconcile_def Let_def
    by (auto intro!: emits_bind emits_ListRedisPods emits_any_keys emits_ret split: sum.split)
  show "emits (\<lambda>_. True) (on_tick W ctx c)"
    unfolding on_tick_def Let_def by (auto intro!: emits_bind rec emits_now emits_ret)
qed

lemma extends:
  shows "probe W cfg d ctx pods h = (r1, h1) \<Longrightarrow> prefix h h1"
    and "reconcileSet W cfg d ctx pods st h = (r2, h2) \<Longrightarrow> prefix h h2"
    and "ListRedisPods W namespaces selector h = (r3, h3) \<Longrightarrow> prefix h h3"
    and "reconcile_keys W cfg d ctx gs keys sets h = (r4, h4) \<Longrightarrow> prefix h h4"
    and "on_tick W ctx c h = (r5, h5) \<Longrightarrow> prefix h h5"
proof -
  show "ListRedisPods W namespaces selector h = (r3, h3) \<Longrightarrow> prefix h h3"
    by (rule emits_prefix[OF emits_ListRedisPods, where P = "\<lambda>_. True"]) simp_all
qed (rule emits_prefix[OF emits_any(1)] emits_prefix[OF emits_any(3)] emits_prefix[OF emits_any_reconcileSet]
      emits_prefix[OF emits_any_keys], assumption)+

lemma set_log_after: "turns_after h (set_log W cfg d ctx k pods h)"
  by (auto simp: set_log_def turns_after_def split: prod.splits out.splits dest: extends(1)[OF sym])

lemma keys_log_after: "turns_after h (keys_log W cfg d ctx gs keys sets h)"
proof (induction keys arbitrary: sets h)
  case Nil
  then show ?case by simp
next
  case (Cons k keys)
  show ?case
    using set_log_after turns_after_mono[OF Cons.IH extends(2)] by (auto split: prod.split out.split)
qed

lemma reconcile_log_after: "turns_after h (reconcile_log W cfg d ctx sets h)"
  unfolding reconcile_log_def Let_def
  using turns_after_mono[OF keys_log_after extends(3)] by (auto split: prod.split out.split sum.split)

lemma run_loop_log_after: "turns_after h (run_loop_log W ctx ins c h)"
proof (induction W ctx ins c h rule: run_loop_log.induct)
  case (3 W ctx ins c h)
  then show ?case
    using reconcile_log_after turns_after_mono extends(5) by (auto split: prod.split out.split)
qed simp_all

section \<open>Every set's timer is honest throughout a run\<close>

text \<open>
  The set \<open>k\<close> has been watched without a master since the turn whose probes ended in \<open>hs\<close>: no
  Pod that answered then was a master, nor in any turn of this set since, and the set has been
  listed all the time.
\<close>

abbreviation masterless :: "podInfo list \<Rightarrow> bool" where
  "masterless reached \<equiv> (\<forall>x \<in> set reached. \<not> is_master x)"

fun still_missing :: "setKey \<Rightarrow> turn \<Rightarrow> bool" where
  "still_missing k (Turn k' h1 reached) \<longleftrightarrow> k' = k \<longrightarrow> masterless reached"
| "still_missing k (Swept K) \<longleftrightarrow> k \<in> K"

definition watched :: "setKey \<Rightarrow> turn list \<Rightarrow> event list \<Rightarrow> bool" where
  "watched k log hs \<longleftrightarrow> (\<exists>log1 reached log2. log = log1 @ Turn k hs reached # log2 \<and> masterless reached \<and>
     list_all (still_missing k) log2)"

lemma watched_more: "watched k log hs \<Longrightarrow> list_all (still_missing k) log' \<Longrightarrow> watched k (log @ log') hs"
  unfolding watched_def by fastforce

lemma watched_now: "masterless reached \<Longrightarrow> watched k (log @ [Turn k h1 reached]) h1"
  unfolding watched_def by fastforce

definition tracked :: "world \<Rightarrow> turn list \<Rightarrow> sets \<Rightarrow> bool" where
  "tracked W log sets \<longleftrightarrow> (\<forall>k t. masterMissingAt (stateFor sets k) = Some t \<longrightarrow> (\<exists>hs. watched k log hs \<and> t = w_now W hs))"

lemma tracked_empty: "tracked W log Map.empty"
  by (simp add: tracked_def stateFor_def empty_setState_def)

lemma tracked_sweep: "tracked W log sets \<Longrightarrow> tracked W (log @ [Swept K]) (sets |` K)"
proof -
  assume "tracked W log sets"
  then have "\<exists>hs. watched k (log @ [Swept K]) hs \<and> t = w_now W hs"
    if "k \<in> K" "masterMissingAt (stateFor sets k) = Some t" for k t
    using that watched_more[of k log _ "[Swept K]"] unfolding tracked_def by fastforce
  then show ?thesis unfolding tracked_def stateFor_def restrict_map_def by (auto simp: empty_setState_def)
qed

lemma tracked_turn:
  assumes tr: "tracked W log sets"
    and run: "reconcileSet W cfg d ctx pods (stateFor sets k) h = (Done (err, st'), h')"
  shows "tracked W (log @ set_log W cfg d ctx k pods h) (sets(k \<mapsto> st'))"
proof -
  obtain reached h1 where probe: "probe W cfg d ctx pods h = (Done reached, h1)"
    using run by (auto simp: reconcileSet_def io_simps split: prod.splits out.splits)
  then have log: "set_log W cfg d ctx k pods h = [Turn k h1 reached]" by (simp add: set_log_def)
  show ?thesis
    unfolding tracked_def log
  proof (intro allI impI)
    fix k' t
    assume t: "masterMissingAt (stateFor (sets(k \<mapsto> st')) k') = Some t"
    show "\<exists>hs. watched k' (log @ [Turn k h1 reached]) hs \<and> t = w_now W hs"
    proof (cases "k' = k")
      case True
      then have "masterMissingAt st' = Some t" using t by (simp add: stateFor_def)
      then have none: "masterless reached"
        and now: "t = (case masterMissingAt (stateFor sets k) of None \<Rightarrow> w_now W h1 | Some t \<Rightarrow> t)"
        using wpD[OF reconcileSet_timer[OF probe] run] by (auto simp: list_ex_iff split: if_splits)
      show ?thesis
      proof (cases "masterMissingAt (stateFor sets k)")
        case None
        with now none True show ?thesis by (auto intro: watched_now)
      next
        case (Some t0)
        with tr obtain hs where "watched k log hs" "t0 = w_now W hs" unfolding tracked_def by blast
        with Some now none True show ?thesis by (auto intro!: watched_more)
      qed
    next
      case False
      then show ?thesis
        using t tr watched_more[of k' log _ "[Turn k h1 reached]"] unfolding tracked_def
        by (fastforce simp: stateFor_other)
    qed
  qed
qed

section \<open>Promotions in a run\<close>

text \<open>
  The promotion of \<open>addr\<close>, sent after the history \<open>hb\<close>, is justified by the log of the run: in the
  last turn whose probes had ended by then, the Pods of the set that answered had no master
  among them and the first choice among them has this address; and the set had been watched
  without a master from an earlier turn on (or from this one), for the failure threshold.
\<close>

definition justified :: "world \<Rightarrow> Config \<Rightarrow> turn list \<Rightarrow> event list \<Rightarrow> string \<Rightarrow> bool" where
  "justified W cfg log hb addr \<longleftrightarrow>
     (\<exists>log1 k h1 reached log2 c hs hn. log = log1 @ Turn k h1 reached # log2 \<and>
        prefix h1 hb \<and> (\<forall>k' h2 reached'. Turn k' h2 reached' \<in> set log2 \<longrightarrow> \<not> prefix h2 hb) \<and>
        masterless reached \<and> selectFailoverCandidate reached = Some c \<and> addr = pod_addr cfg (pi_pod c) \<and>
        watched k (log1 @ [Turn k h1 reached]) hs \<and> hn \<in> {h1, h1 @ [EvNow]} \<and>
        MasterFailureThreshold cfg \<le> w_now W hn - w_now W hs)"

definition only_justified :: "world \<Rightarrow> Config \<Rightarrow> turn list \<Rightarrow> event list \<Rightarrow> event \<Rightarrow> bool" where
  "only_justified W cfg log hb e \<longleftrightarrow> (\<forall>addr. e = sent addr promote_cmd \<longrightarrow> justified W cfg log hb addr)"

lemma located_quiet: "emits (\<lambda>e. \<not> promotes e) m \<Longrightarrow> located (only_justified W cfg log) m h"
  by (rule emits_at_located[OF emits_atI, where Q = "\<lambda>e. \<not> promotes e"]) (auto simp: only_justified_def promotes_def)

lemma timer_watched:
  assumes "tracked W log sets" "masterless reached"
    and "MasterFailureThreshold cfg \<le> missing_for W (stateFor sets k) h1"
  shows "\<exists>hs hn. watched k (log @ [Turn k h1 reached]) hs \<and> hn \<in> {h1, h1 @ [EvNow]} \<and>
    MasterFailureThreshold cfg \<le> w_now W hn - w_now W hs"
proof (cases "masterMissingAt (stateFor sets k)")
  case None
  with assms(3) watched_now[OF assms(2)] show ?thesis unfolding missing_for_def by fastforce
next
  case (Some t)
  with assms(1) obtain hs where hs: "watched k log hs" "t = w_now W hs" unfolding tracked_def by blast
  have "watched k (log @ [Turn k h1 reached]) hs" using hs(1) assms(2) by (auto intro: watched_more)
  with Some hs(2) assms(3) show ?thesis unfolding missing_for_def by fastforce
qed

text \<open>A promotion comes after the probes of its pass.\<close>

lemma promotion_after_probes:
  assumes probe: "probe W cfg d ctx pods h = (Done reached, h1)"
    and run: "reconcileSet W cfg d ctx pods st h = (r, h @ pre @ sent addr promote_cmd # post)"
  shows "prefix h1 (h @ pre)"
proof -
  obtain es1 where es1: "h1 = h @ es1" "list_all (\<lambda>e. \<not> promotes e) es1"
    using emitsD[OF no_promotion(1) probe] .
  have "prefix h1 (h @ pre @ sent addr promote_cmd # post)"
    using reconcileSet_after_probe[OF probe run] by (auto simp: prefix_def)
  then have "prefix es1 (pre @ sent addr promote_cmd # post)" using es1(1) by simp
  moreover have "\<not> prefix (pre @ [sent addr promote_cmd]) es1"
    using es1(2) by (auto simp: prefix_def list_all_iff)
  ultimately have "prefix es1 pre"
    by (auto simp: prefix_append prefix_Cons)
  then show ?thesis using es1(1) by simp
qed

lemma turn_justified:
  assumes tr: "tracked W log sets"
    and later: "turns_after (snd (reconcileSet W cfg d ctx pods (stateFor sets k) h)) after"
  shows "located (only_justified W cfg (log @ set_log W cfg d ctx k pods h @ after))
    (reconcileSet W cfg d ctx pods (stateFor sets k)) h"
proof -
  obtain r es where run: "reconcileSet W cfg d ctx pods (stateFor sets k) h = (r, h @ es)"
    using emitsD[OF emits_any_reconcileSet] by (metis prod.collapse)
  have "justified W cfg (log @ set_log W cfg d ctx k pods h @ after) (h @ pre) addr"
    if es: "es = pre @ sent addr promote_cmd # post" for pre addr post
  proof -
    have "promotion_due W cfg d ctx pods (stateFor sets k) h addr"
      using emits_atD[OF reconcileSet_only_due run] es by auto
    then obtain reached h1 c where due: "probe W cfg d ctx pods h = (Done reached, h1)" "masterless reached"
        "selectFailoverCandidate reached = Some c" "addr = pod_addr cfg (pi_pod c)"
        "MasterFailureThreshold cfg \<le> missing_for W (stateFor sets k) h1"
      unfolding promotion_due_def by blast
    have "prefix h1 (h @ pre)" using promotion_after_probes[OF due(1)] run es by simp
    moreover have "\<not> prefix h2 (h @ pre)" if "Turn k' h2 reached' \<in> set after" for k' h2 reached'
      using later that run es unfolding turns_after_def by (fastforce simp: prefix_def)
    moreover have "set_log W cfg d ctx k pods h = [Turn k h1 reached]" using due(1) by (simp add: set_log_def)
    moreover obtain hs hn where "watched k (log @ [Turn k h1 reached]) hs" "hn \<in> {h1, h1 @ [EvNow]}"
        "MasterFailureThreshold cfg \<le> w_now W hn - w_now W hs"
      using timer_watched[OF tr due(2,5)] by blast
    ultimately show ?thesis
      using due(2-4) unfolding justified_def
      by (intro exI[of _ log] exI[of _ k] exI[of _ h1] exI[of _ reached] exI[of _ after] exI[of _ c]
          exI[of _ hs] exI[of _ hn]) simp
  qed
  then show ?thesis unfolding located_def only_justified_def using run by auto
qed

lemma keys_justified:
  assumes "tracked W log sets" "turns_after (snd (reconcile_keys W cfg d ctx gs keys sets h)) after"
  shows "located (only_justified W cfg (log @ keys_log W cfg d ctx gs keys sets h @ after))
      (reconcile_keys W cfg d ctx gs keys sets) h \<and>
    wp (reconcile_keys W cfg d ctx gs keys sets)
      (\<lambda>sets' _. tracked W (log @ keys_log W cfg d ctx gs keys sets h) sets') h"
  using assms
proof (induction keys arbitrary: sets h log)
  case Nil
  then show ?case by (simp add: located_quiet emits_ret)
next
  case (Cons k keys)
  let ?set = "reconcileSet W cfg d ctx (pods_of gs k) (stateFor sets k)"
  let ?sl = "set_log W cfg d ctx k (pods_of gs k) h"
  obtain r h1 where r: "?set h = (r, h1)" by fastforce
  show ?case
  proof (cases r)
    case Panic
    have "located (only_justified W cfg (log @ ?sl @ after)) ?set h"
      using turn_justified[OF Cons.prems(1)] Cons.prems(2) r Panic by (simp add: io_simps)
    then have "located (only_justified W cfg (log @ ?sl @ after)) (reconcile_keys W cfg d ctx gs (k # keys) sets) h"
      unfolding reconcile_keys.simps using r Panic by (auto intro: located_bind)
    moreover have "keys_log W cfg d ctx gs (k # keys) sets h = ?sl" using r Panic by simp
    ultimately show ?thesis
      unfolding reconcile_keys.simps(2) wp_bind wp_def[of ?set] by (simp add: r Panic)
  next
    case (Done x)
    obtain err st where x: "x = (err, st)" by fastforce
    let ?kl = "keys_log W cfg d ctx gs keys (sets(k \<mapsto> st)) h1"
    let ?rest = "reconcile_keys W cfg d ctx gs keys (sets(k \<mapsto> st))"
    have tr: "tracked W (log @ ?sl) (sets(k \<mapsto> st))"
      using tracked_turn[OF Cons.prems(1)] r Done x by simp
    have end_eq: "snd (reconcile_keys W cfg d ctx gs (k # keys) sets h) = snd (?rest h1)"
      using r Done x by (simp add: io_simps)
    have after: "turns_after (snd (?rest h1)) after" using Cons.prems(2) unfolding end_eq .
    have "turns_after h1 (?kl @ after)"
      using keys_log_after turns_after_mono[OF after] extends(4) by (metis prod.collapse turns_after_simps(2))
    then have "located (only_justified W cfg (log @ ?sl @ ?kl @ after)) ?set h"
      using turn_justified[OF Cons.prems(1), of cfg d ctx "pods_of gs k" k h "?kl @ after"] r by simp
    moreover have IH: "located (only_justified W cfg (log @ ?sl @ ?kl @ after)) ?rest h1"
        "wp ?rest (\<lambda>sets' _. tracked W (log @ ?sl @ ?kl) sets') h1"
      using Cons.IH[OF tr after] unfolding append_assoc by blast+
    ultimately have "located (only_justified W cfg (log @ ?sl @ ?kl @ after)) (reconcile_keys W cfg d ctx gs (k # keys) sets) h"
      unfolding reconcile_keys.simps using r Done x by (auto intro!: located_bind)
    moreover have "keys_log W cfg d ctx gs (k # keys) sets h = ?sl @ ?kl" using r Done x by simp
    ultimately show ?thesis
      using IH(2) unfolding reconcile_keys.simps(2) wp_bind wp_def[of ?set] by (simp add: r Done x)
  qed
qed

lemma reconcile_justified:
  assumes "tracked W log sets" "turns_after (snd (reconcile W cfg d ctx sets h)) after"
  shows "located (only_justified W cfg (log @ reconcile_log W cfg d ctx sets h @ after)) (reconcile W cfg d ctx sets) h \<and>
    wp (reconcile W cfg d ctx sets) (\<lambda>(err, sets') _. tracked W (log @ reconcile_log W cfg d ctx sets h) sets') h"
proof -
  let ?list = "ListRedisPods W (RedisNamespaces cfg) (RedisPodLabelSelector cfg)"
  have list: "located (only_justified W cfg L) ?list h" for L
    by (rule located_quiet, rule emits_ListRedisPods) simp
  obtain r h1 where r: "?list h = (r, h1)" by fastforce
  consider (panic) "r = Panic" | (fails) e where "r = Done (Inl e)" | (lists) pods where "r = Done (Inr pods)"
    by (cases r) (auto split: sum.split, metis sum.exhaust)
  then show ?thesis
  proof cases
    case lists
    let ?gs = "groupBySet pods (RedisSetLabelKey cfg) (DefaultSetName cfg)"
    let ?keys = "reconcile_keys W cfg d ctx ?gs (sortedKeys ?gs) sets"
    let ?kl = "keys_log W cfg d ctx ?gs (sortedKeys ?gs) sets h1"
    let ?sweep = "\<lambda>sets'. ret (None :: ctl_error option, pruneVanishedSets ?gs sets')"
    have eq: "reconcile W cfg d ctx sets h = bind_io ?keys ?sweep h1"
      using r lists by (simp add: reconcile_def io_simps Let_def)
    have log: "reconcile_log W cfg d ctx sets h = ?kl @ [Swept (set (map fst ?gs))]"
      using r lists by (simp add: reconcile_log_def Let_def)
    have "snd (reconcile W cfg d ctx sets h) = snd (?keys h1)"
      unfolding eq by (simp add: io_simps split: prod.split out.split)
    then have after: "turns_after (snd (?keys h1)) (Swept (set (map fst ?gs)) # after)"
      using assms(2) turns_after_simps(2)[of _ "[Swept (set (map fst ?gs))]" after] turns_after_simps(3) by simp
    note keys = keys_justified[OF assms(1) after]
    have "located (only_justified W cfg (log @ ?kl @ Swept (set (map fst ?gs)) # after)) (bind_io ?keys ?sweep) h1"
      by (rule located_bind[OF conjunct1[OF keys]]) (rule located_quiet, rule emits_ret)
    moreover have "wp (bind_io ?keys ?sweep) (\<lambda>(err, sets') _. tracked W (log @ reconcile_log W cfg d ctx sets h) sets') h1"
      unfolding wp_bind log
      by (rule wp_mono[OF conjunct2[OF keys]]) (auto simp: pruneVanishedSets_def dest: tracked_sweep)
    ultimately show ?thesis
      using located_bind[OF list, where f = "\<lambda>r. case r of Inl e \<Rightarrow> ret (Some (ListError e), sets)
        | Inr pods \<Rightarrow> let gs = groupBySet pods (RedisSetLabelKey cfg) (DefaultSetName cfg) in
          bind_io (reconcile_keys W cfg d ctx gs (sortedKeys gs) sets) (\<lambda>sets'. ret (None, pruneVanishedSets gs sets'))"]
      unfolding reconcile_def[symmetric] log wp_def eq using r lists by (simp add: Let_def)
  next
    case panic
    have "located (only_justified W cfg L) (reconcile W cfg d ctx sets) h" for L
      unfolding reconcile_def by (rule located_bind[OF list]) (use r panic in simp)
    with r panic show ?thesis by (simp add: wp_def reconcile_def bind_apply)
  next
    case fails
    have "located (only_justified W cfg L) (reconcile W cfg d ctx sets) h" for L
      unfolding reconcile_def
      by (rule located_bind[OF list]) (use r fails in \<open>auto intro!: located_quiet emits_ret\<close>)
    moreover have "reconcile W cfg d ctx sets h = (Done (Some (ListError e), sets), h1)"
      using r fails by (simp add: reconcile_def io_simps)
    ultimately show ?thesis using r fails assms(1) by (simp add: wp_def reconcile_log_def)
  qed
qed

lemma on_tick_fixed:
  "wp (on_tick W ctx c) (\<lambda>c' _. ctl_cfg c' = ctl_cfg c \<and> ctl_dialer c' = ctl_dialer c \<and>
     ctl_started c' = ctl_started c) h"
  unfolding on_tick_def Let_def wp_bind by (rule wp_all) (auto split: prod.splits)

lemma on_tick_justified:
  assumes "tracked W log (ctl_sets c)" "turns_after (snd (on_tick W ctx c h)) after"
  defines "L \<equiv> reconcile_log W (ctl_cfg c) (ctl_dialer c) ctx (ctl_sets c) h"
  shows "located (only_justified W (ctl_cfg c) (log @ L @ after)) (on_tick W ctx c) h \<and>
    wp (on_tick W ctx c) (\<lambda>c' _. tracked W (log @ L) (ctl_sets c')) h"
proof -
  let ?rec = "reconcile W (ctl_cfg c) (ctl_dialer c) ctx (ctl_sets c)"
  let ?f = "\<lambda>(err, sets'). let c' = c\<lparr>ctl_sets := sets'\<rparr> in
     if err \<noteq> None then ret c' else bind_io (now W) (\<lambda>t. ret (c'\<lparr>ctl_lastReconcileAt := t\<rparr>))"
  have quiet: "emits (\<lambda>e. \<not> promotes e) (?f x)" for x
    by (auto simp: Let_def split: prod.split intro!: emits_bind emits_now emits_ret)
  obtain r h1 where r: "?rec h = (r, h1)" by fastforce
  have "prefix h1 (snd (on_tick W ctx c h))"
  proof (cases r)
    case (Done x)
    obtain r2 h2 where f: "?f x h1 = (r2, h2)" by fastforce
    then have "on_tick W ctx c h = (r2, h2)" using r Done by (simp add: on_tick_def io_simps split_beta)
    then show ?thesis using emits_prefix[OF quiet f] by simp
  next
    case Panic
    then show ?thesis using r by (simp add: on_tick_def io_simps)
  qed
  then have "turns_after (snd (?rec h)) after" using assms(2) turns_after_mono r by auto
  note rec = reconcile_justified[OF assms(1) this, folded L_def]
  have "located (only_justified W (ctl_cfg c) (log @ L @ after)) (on_tick W ctx c) h"
    unfolding on_tick_def by (rule located_bind[OF conjunct1[OF rec]]) (rule located_quiet[OF quiet])
  moreover have "wp (on_tick W ctx c) (\<lambda>c' _. tracked W (log @ L) (ctl_sets c')) h"
    unfolding on_tick_def wp_bind by (rule wp_mono[OF conjunct2[OF rec]]) (auto simp: Let_def)
  ultimately show ?thesis by blast
qed

lemma run_loop_justified:
  "tracked W log (ctl_sets c) \<Longrightarrow>
   located (only_justified W (ctl_cfg c) (log @ run_loop_log W ctx ins c h)) (run_loop W ctx ins c) h"
proof (induction W ctx ins c h arbitrary: log rule: run_loop_log.induct)
  case (3 W ctx ins c h)
  let ?L = "reconcile_log W (ctl_cfg c) (ctl_dialer c) ctx (ctl_sets c) h"
  obtain r h1 where r: "on_tick W ctx c h = (r, h1)" by fastforce
  let ?after = "case r of Done c' \<Rightarrow> run_loop_log W ctx ins c' h1 | Panic \<Rightarrow> []"
  have "turns_after h1 ?after" using run_loop_log_after by (simp split: out.split)
  then have tick: "located (only_justified W (ctl_cfg c) (log @ ?L @ ?after)) (on_tick W ctx c) h"
      "wp (on_tick W ctx c) (\<lambda>c' _. tracked W (log @ ?L) (ctl_sets c')) h"
    using on_tick_justified[OF "3.prems", of ctx h ?after] r by simp_all
  have log: "run_loop_log W ctx (Tick # ins) c h = ?L @ ?after" using r by (simp split: out.split)
  show ?case
    unfolding log run_loop.simps
  proof (rule located_bind[OF tick(1)])
    fix c' h'
    assume run: "on_tick W ctx c h = (Done c', h')"
    then have "located (only_justified W (ctl_cfg c') ((log @ ?L) @ run_loop_log W ctx ins c' h')) (run_loop W ctx ins c') h'"
      using wpD[OF tick(2) run] by (intro "3.IH") simp_all
    then show "located (only_justified W (ctl_cfg c) (log @ ?L @ ?after)) (run_loop W ctx ins c') h'"
      using run r wpD[OF on_tick_fixed run] by simp
  qed
qed (simp_all add: located_quiet emits_ret)

text \<open>
  From its start on, over any sequence of ticks and whatever the outside world does, the
  controller sends \<^verbatim>\<open>REPLICAOF NO ONE\<close> only when the log of this very run justifies it.
\<close>

lemma run_justified: "located (only_justified W cfg (run_log W ctx ins (New cfg d) h)) (Run W ctx ins (New cfg d)) h"
proof -
  let ?c = "New cfg d\<lparr>ctl_started := True, ctl_lastReconcileAt := w_now W h\<rparr>"
  have "tracked W [] (ctl_sets ?c)" by (simp add: New_def tracked_empty)
  from run_loop_justified[OF this, of ctx ins "h @ [EvNow]"]
  have "located (only_justified W cfg (run_log W ctx ins (New cfg d) h)) (run_loop W ctx ins ?c) (h @ [EvNow])"
    by (simp add: run_log_def New_def)
  then show ?thesis
    unfolding Run_def
    by (intro located_bind located_quiet[OF emits_now])
      (auto simp: now_def io_simps intro: located_quiet[OF emits_panic])
qed

section \<open>Readiness\<close>

lemma run_loop_fixed:
  "wp (run_loop W ctx ins c) (\<lambda>(st, c') _. ctl_cfg c' = ctl_cfg c \<and> ctl_started c' = ctl_started c) h"
proof (induction W ctx ins c arbitrary: h rule: run_loop.induct)
  case (3 W ctx ins c)
  show ?case
    unfolding run_loop.simps wp_bind
    by (rule wp_mono[OF on_tick_fixed]) (rule wp_mono[OF "3.IH"], auto)
qed simp_all

text \<open>A tick whose pass fails leaves the time of the last success alone; one that succeeds sets it.\<close>

definition failing :: "world \<Rightarrow> Config \<Rightarrow> bool" where
  "failing W cfg \<longleftrightarrow> (\<exists>ns \<in> set (RedisNamespaces cfg). \<forall>h. \<exists>e. w_list W h ns (RedisPodLabelSelector cfg) = Inl e)"

lemma ListRedisPods_failing:
  assumes "failing W cfg"
  shows "wp (ListRedisPods W (RedisNamespaces cfg) (RedisPodLabelSelector cfg)) (\<lambda>r _. \<exists>e. r = Inl e) h"
proof -
  obtain ns where "ns \<in> set (RedisNamespaces cfg)" "\<And>h. \<exists>e. w_list W h ns (RedisPodLabelSelector cfg) = Inl e"
    using assms unfolding failing_def by blast
  note fails = list_namespaces_fails[OF this, where h = h]
  show ?thesis
    unfolding ListRedisPods_def wp_bind by (rule wp_mono[OF fails]) auto
qed

lemma on_tick_failing:
  assumes "failing W (ctl_cfg c)"
  shows "wp (on_tick W ctx c) (\<lambda>c' _. c' = c) h"
proof -
  have "wp (reconcile W (ctl_cfg c) (ctl_dialer c) ctx (ctl_sets c))
      (\<lambda>(err, sets') _. err \<noteq> None \<and> sets' = ctl_sets c) h"
    unfolding reconcile_def wp_bind by (rule wp_mono[OF ListRedisPods_failing[OF assms]]) auto
  then show ?thesis
    unfolding on_tick_def Let_def by (auto elim!: wp_mono)
qed

lemma run_loop_failing:
  "failing W (ctl_cfg c) \<Longrightarrow> wp (run_loop W ctx ins c) (\<lambda>(st, c') _. c' = c) h"
proof (induction W ctx ins c arbitrary: h rule: run_loop.induct)
  case (3 W ctx ins c)
  show ?case
    unfolding run_loop.simps wp_bind
    by (rule wp_mono[OF on_tick_failing[OF "3.prems"]]) (use "3.IH" "3.prems" in simp)
qed simp_all

lemma Ready_started:
  assumes "ctl_started c" "in_int64 (3 * ReconcileInterval (ctl_cfg c))"
  shows "Ready W c h =
    (Done (w_now W h - ctl_lastReconcileAt c < 3 * ReconcileInterval (ctl_cfg c)), h @ [EvNow])"
  using assms by (simp add: Ready_def now_def io_simps)

text \<open>
  C11. Readiness tracks progress, for intervals whose triple fits 64 bits. A controller that
  has not started is ready. After a pass that succeeded it is ready until three intervals
  have gone by since the end of that pass. If the Pods can never be listed, it is ready, however
  many ticks there are, only for three intervals from its start.
\<close>

theorem readiness_tracks_progress:
  assumes "in_int64 (3 * ReconcileInterval cfg)"
  shows "Ready W (New cfg d) h = (Done True, h) \<and>
    (ctl_started c \<and> ctl_cfg c = cfg \<and>
     reconcile W cfg (ctl_dialer c) ctx (ctl_sets c) h = (Done (None, sets'), h1) \<longrightarrow>
       (\<exists>c1. on_tick W ctx c h = (Done c1, h1 @ [EvNow]) \<and>
         Ready W c1 h2 = (Done (w_now W h2 - w_now W h1 < 3 * ReconcileInterval cfg), h2 @ [EvNow]))) \<and>
    (failing W cfg \<and> Run W ctx ins (New cfg d) h = (Done (st, c2), h3) \<longrightarrow>
       Ready W c2 h4 = (Done (w_now W h4 - w_now W h < 3 * ReconcileInterval cfg), h4 @ [EvNow]))"
proof (intro conjI impI, goal_cases)
  case 1
  then show ?case by (simp add: Ready_def New_def io_simps)
next
  case 2
  then have "on_tick W ctx c h = (Done (c\<lparr>ctl_sets := sets', ctl_lastReconcileAt := w_now W h1\<rparr>), h1 @ [EvNow])"
    by (simp add: on_tick_def now_def io_simps)
  with 2 assms show ?case by (simp add: Ready_started)
next
  case 3
  let ?c = "New cfg d\<lparr>ctl_started := True, ctl_lastReconcileAt := w_now W h\<rparr>"
  have "run_loop W ctx ins ?c (h @ [EvNow]) = (Done (st, c2), h3)"
    using 3 by (simp add: Run_def now_def io_simps split: if_splits)
  moreover have "failing W (ctl_cfg ?c)" using 3 by (simp add: New_def)
  ultimately have "c2 = ?c" using wpD[OF run_loop_failing] by blast
  with assms show ?case by (simp add: Ready_started New_def)
qed

end
