(* ===== verification/Process.thy ===== *)
theory Process
  imports Run_Loop
begin

text \<open>
  The process: \<^verbatim>\<open>main\<close> and \<^verbatim>\<open>serveHealth\<close> of \<^verbatim>\<open>cmd/main.go\<close>, and \<^verbatim>\<open>Run\<close> of \<^verbatim>\<open>internal/leader/leader.go\<close>.

  The election itself is client-go's \<^verbatim>\<open>leaderelection.RunOrDie\<close> and a parameter: given the lease and
  its timings, \<open>elect\<close> is \<open>None\<close> when the lease is not acquired before the process stops, and
  otherwise the inputs of the run loop while the lease is held, ended by \<open>CtxDone\<close> when the context of
  the term is cancelled. That loading the in-cluster configuration and building the clientset
  succeed are parameters as well. Log output is left out.
\<close>

section \<open>Leader election\<close>

record lease_config =
  lc_Name :: string
  lc_Namespace :: string
  lc_Identity :: string
  lc_ReleaseOnCancel :: bool
  lc_LeaseDuration :: int
  lc_RenewDeadline :: int
  lc_RetryPeriod :: int

type_synonym election = "lease_config \<Rightarrow> loop_input list option"

definition election_config :: "Config \<Rightarrow> lease_config" where
  "election_config cfg =
     \<lparr>lc_Name = LeaseName cfg, lc_Namespace = LeaseNamespace cfg, lc_Identity = ControllerID cfg,
      lc_ReleaseOnCancel = True, lc_LeaseDuration = 15 * 1000000000, lc_RenewDeadline = 10 * 1000000000,
      lc_RetryPeriod = 2 * 1000000000\<rparr>"

definition leader_Run :: "election \<Rightarrow> Config \<Rightarrow> (loop_input list \<Rightarrow> unit run) \<Rightarrow> unit run" where
  "leader_Run elect cfg onStarted =
     (case elect (election_config cfg) of None \<Rightarrow> ret () | Some ins \<Rightarrow> onStarted ins)"

section \<open>Health probes\<close>

type_synonym response = "nat \<times> string"

definition healthz :: "response run" where
  "healthz = ret (200, ''ok'' @ [CHR 0x0A])"

definition readyz :: "bool run \<Rightarrow> response run" where
  "readyz ready = bind_io ready (\<lambda>r.
     if \<not> r then ret (503, ''reconcile stale'' @ [CHR 0x0A]) else ret (200, ''ok'' @ [CHR 0x0A]))"

text \<open>The server that \<^verbatim>\<open>serveHealth\<close> starts, if it does: a handler for each request path.\<close>

definition serveHealth :: "string \<Rightarrow> bool run \<Rightarrow> (string \<Rightarrow> response run) option" where
  "serveHealth addr ready =
     (if addr = [] then None
      else Some (\<lambda>path. if path = ''/healthz'' then healthz
                        else if path = ''/readyz'' then readyz ready
                        else ret (404, ''404 page not found'' @ [CHR 0x0A])))"

section \<open>main\<close>

record platform =
  pl_lower :: "string \<Rightarrow> string"      \<comment> \<open>the Unicode case tables\<close>
  pl_env :: environ
  pl_hostname :: "string option"
  pl_incluster :: bool                    \<comment> \<open>\<^verbatim>\<open>rest.InClusterConfig\<close> succeeds\<close>
  pl_clientset :: bool                    \<comment> \<open>\<^verbatim>\<open>clientgo.NewForConfig\<close> succeeds\<close>

datatype exit_status = ExitFailure | ShutdownComplete

definition dialer_of :: "Config \<Rightarrow> TCPDialer" where
  "dialer_of cfg = NewDialer (RedisConnectTimeout cfg) (RedisCommandTimeout cfg)"

text \<open>\<open>direct\<close> are the inputs of the run loop when leader election is disabled.\<close>

definition main_process :: "world \<Rightarrow> platform \<Rightarrow> election \<Rightarrow> loop_input list \<Rightarrow> exit_status run" where
  "main_process W pl elect direct =
     (case Load (pl_lower pl) (pl_env pl) (pl_hostname pl) of
        Inl _ \<Rightarrow> ret ExitFailure
      | Inr (_, Some _) \<Rightarrow> ret ExitFailure
      | Inr (cfg, None) \<Rightarrow>
          if \<not> pl_incluster pl then ret ExitFailure
          else if \<not> pl_clientset pl then ret ExitFailure
          else
            let ctrl = New cfg (dialer_of cfg);
                run = (\<lambda>ins. bind_io (Run W None ins ctrl) (\<lambda>_. ret ()))
            in bind_io (if EnableLeaderElection cfg then leader_Run elect cfg run else run direct)
                 (\<lambda>_. ret ShutdownComplete))"

section \<open>Properties\<close>

definition loaded :: "platform \<Rightarrow> Config \<Rightarrow> bool" where
  "loaded pl cfg \<longleftrightarrow> Load (pl_lower pl) (pl_env pl) (pl_hostname pl) = Inr (cfg, None)"

text \<open>The inputs with which the process runs its controller, if it does.\<close>

definition runs_with :: "platform \<Rightarrow> election \<Rightarrow> loop_input list \<Rightarrow> Config \<Rightarrow> loop_input list \<Rightarrow> bool" where
  "runs_with pl elect direct cfg ins \<longleftrightarrow> loaded pl cfg \<and> pl_incluster pl \<and> pl_clientset pl \<and>
     (if EnableLeaderElection cfg then elect (election_config cfg) = Some ins else ins = direct)"

lemma main_process_runs:
  "runs_with pl elect direct cfg ins \<Longrightarrow> main_process W pl elect direct =
     bind_io (Run W None ins (New cfg (dialer_of cfg))) (\<lambda>_. ret ShutdownComplete)"
  by (rule ext) (auto simp: runs_with_def loaded_def main_process_def leader_Run_def io_simps
      split: if_splits prod.splits out.splits)

lemma main_process_idle:
  assumes "\<And>cfg ins. \<not> runs_with pl elect direct cfg ins"
  shows "\<exists>x. main_process W pl elect direct h = (Done x, h)"
proof (cases "\<exists>cfg. loaded pl cfg \<and> pl_incluster pl \<and> pl_clientset pl")
  case True
  then obtain cfg where cfg: "loaded pl cfg" "pl_incluster pl" "pl_clientset pl" by blast
  with assms[of cfg direct] have "EnableLeaderElection cfg" by (auto simp: runs_with_def split: if_splits)
  moreover from this cfg assms[of cfg "the (elect (election_config cfg))"]
  have "elect (election_config cfg) = None"
    by (cases "elect (election_config cfg)") (simp_all add: runs_with_def)
  ultimately show ?thesis using cfg by (simp add: loaded_def main_process_def leader_Run_def io_simps)
next
  case False
  then show ?thesis
    by (auto simp: loaded_def main_process_def io_simps split: sum.split option.split)
qed

text \<open>
  C1. From the environment to the cluster: whatever the environment variables, the election and
  the outside world, the process sends \<^verbatim>\<open>REPLICAOF NO ONE\<close> to a server only after it has loaded a
  valid configuration and, unless leader election is disabled, acquired the lease under its
  own identity, and only when the passes of this very run justify it. That is, in the last turn
  of a replication set whose probes were over by then, no Pod that answered was a master and the
  server is the first choice of \<^verbatim>\<open>selectFailoverCandidate\<close> among them; and from an earlier turn of
  this set on (or from this one) every turn of the set found no master, the set was never missing from a
  listing, and the clock has advanced by at least the failure threshold.
\<close>

theorem process_promotions_justified:
  assumes "main_process W pl elect direct h = (r, h @ es1 @ sent addr promote_cmd # es2)"
  shows "\<exists>cfg ins. runs_with pl elect direct cfg ins \<and>
    justified W cfg (run_log W None ins (New cfg (dialer_of cfg)) h) (h @ es1) addr"
proof (cases "\<exists>cfg ins. runs_with pl elect direct cfg ins")
  case True
  then obtain cfg ins where cfg: "runs_with pl elect direct cfg ins" by blast
  have "located (only_justified W cfg (run_log W None ins (New cfg (dialer_of cfg)) h)) (main_process W pl elect direct) h"
    unfolding main_process_runs[OF cfg]
    by (rule located_bind[OF run_justified]) (rule located_quiet[OF emits_ret])
  from locatedD[OF this assms] cfg show ?thesis by (auto simp: only_justified_def)
next
  case False
  then show ?thesis using main_process_idle[of pl elect direct W h] assms by force
qed

text \<open>
  Only one of the controllers acts: if the election lets at most one identity hold a lease,
  then of two processes that are configured with the same lease, different identities and leader
  election, at most one does anything at all to the cluster.
\<close>

theorem one_controller_acts:
  assumes "\<forall>lc lc'. lc_Name lc = lc_Name lc' \<and> lc_Namespace lc = lc_Namespace lc' \<and> lc_Identity lc \<noteq> lc_Identity lc' \<and>
      elect lc \<noteq> None \<longrightarrow> elect lc' = None"
    and "loaded pl1 cfg1" "loaded pl2 cfg2" "EnableLeaderElection cfg1" "EnableLeaderElection cfg2"
    and "LeaseName cfg1 = LeaseName cfg2" "LeaseNamespace cfg1 = LeaseNamespace cfg2"
    and "ControllerID cfg1 \<noteq> ControllerID cfg2"
  shows "(\<exists>x. \<forall>W direct h. main_process W pl1 elect direct h = (Done x, h)) \<or>
         (\<exists>x. \<forall>W direct h. main_process W pl2 elect direct h = (Done x, h))"
proof -
  have idle: "\<exists>x. \<forall>W direct h. main_process W pl elect direct h = (Done x, h)"
    if "loaded pl cfg" "EnableLeaderElection cfg" "elect (election_config cfg) = None" for pl cfg
    using that by (auto simp: loaded_def main_process_def leader_Run_def io_simps)
  have "elect (election_config cfg1) = None \<or> elect (election_config cfg2) = None"
  proof (rule disjCI)
    assume "elect (election_config cfg2) \<noteq> None"
    with assms(6-8) show "elect (election_config cfg1) = None"
      by (intro assms(1)[rule_format, of "election_config cfg2"]) (simp_all add: election_config_def)
  qed
  then show ?thesis using idle assms(2-5) by blast
qed

end
