(* ===== verification/Scenarios_Run.thy ===== *)
theory Scenarios_Run
  imports Scenarios Probe_Pool Process
begin

text \<open>
  The theorems about parallel probing, the run loop and the process, applied in the concrete
  world: two Pods without a master, a process that holds the lease for two ticks.
\<close>

section \<open>Probing in parallel\<close>

abbreviation demo_found :: "Pod \<Rightarrow> podInfo option" where
  "demo_found p \<equiv> Some (demo_reached one_master p)"

lemma demo_pool:
  "\<exists>s. pool_reachable (probe_limit demo_config) (\<lambda>p r. r = demo_found p) right_pods s \<and> pool_done right_pods s"
  by (rule pool_completes) (simp_all add: probe_limit_def)

theorem parallel_probe_refines_sequential_witness:
  "\<exists>s. pool_reachable (probe_limit demo_config) (\<lambda>p r. r = demo_found p) right_pods s \<and> pool_done right_pods s \<and>
     fst (probe (demo_world one_master) demo_config demo_dialer None right_pods []) = Done (pool_result s)"
proof -
  have steady: "\<forall>p \<in> set right_pods. \<forall>h.
      fst (probe_pod (demo_world one_master) demo_config demo_dialer None p h) = Done (demo_found p)"
    using demo_probe_pod[OF short_demo(3)] by simp
  obtain s where s: "pool_reachable (probe_limit demo_config) (\<lambda>p r. r = demo_found p) right_pods s"
      "pool_done right_pods s"
    using demo_pool by blast
  with parallel_probe_refines_sequential[OF steady s] show ?thesis by blast
qed

theorem probe_pool_bounded_and_live_witness:
  "\<exists>s. pool_done right_pods s \<and> card (token_holders s) \<le> 16 \<and>
     (\<forall>s'. \<not> pool_step (probe_limit demo_config) (\<lambda>p r. r = demo_found p) right_pods s s' \<or>
        work_left right_pods s' < work_left right_pods s)"
proof -
  obtain s where s: "pool_reachable (probe_limit demo_config) (\<lambda>p r. r = demo_found p) right_pods s"
      "pool_done right_pods s"
    using demo_pool by blast
  have limit: "probe_limit demo_config = 16" by (simp add: probe_limit_def demo_config_def)
  from probe_pool_bounded_and_live[OF s(1)] s(2) show ?thesis by (auto simp: limit)
qed

section \<open>Two ticks of the process\<close>

abbreviation demo_key :: setKey where
  "demo_key \<equiv> SetKey ''n'' ''d''"

lemma demo_list_at:
  "ListRedisPods (demo_world info) (RedisNamespaces demo_config) (RedisPodLabelSelector demo_config) h =
   (Done (Inr right_pods), h @ [EvList ''n'' ''s''])"
  by (simp add: ListRedisPods_def demo_config_def io_simps demo_kpods_def pod_less_def ordinalLess_def
      flip: demo_p0_def demo_p1_def)

lemma demo_groups: "groupBySet right_pods (RedisSetLabelKey demo_config) (DefaultSetName demo_config) = [(demo_key, right_pods)]"
  by (simp add: groupBySet_def set_of_def SetName_def demo_config_def lookup_str_def LabelRole_def)

lemma demo_reconcile:
  "reconcile (demo_world info) demo_config demo_dialer None sets h =
   bind_io (reconcileSet (demo_world info) demo_config demo_dialer None right_pods (stateFor sets demo_key))
     (\<lambda>(err, st). ret (None, [demo_key \<mapsto> st])) (h @ [EvList ''n'' ''s''])"
  by (auto simp: reconcile_def io_simps demo_list_at demo_groups sortedKeys_def Let_def pruneVanishedSets_def
      restrict_map_def split: prod.split out.split)

lemma demo_first_pass_at:
  "reconcileSet (demo_world no_masters) demo_config demo_dialer None right_pods empty_setState h =
   (Done (None, \<lparr>masterMissingAt = Some (1000000000 * (int (length h) + 12)), failoverEpoch = 0\<rparr>),
    probed (demo_p1 ''replica'') (probed (demo_p0 ''master'') h) @ [EvNow, EvNow])"
  by (simp add: reconcileSet_def io_simps demo_probe handle_missing_def Let_def now_def empty_setState_def)

text \<open>What an operation has put into the history stays there.\<close>

lemma bind_keeps:
  assumes "e \<in> set (snd (m h))" "\<And>x. emits (\<lambda>_. True) (f x)"
  shows "e \<in> set (snd (bind_io m f h))"
proof (cases "m h")
  case (Pair r h1)
  show ?thesis
  proof (cases r)
    case (Done x)
    then obtain es where "snd (f x h1) = h1 @ es" using assms(2)[of x] unfolding emits_def by blast
    with assms(1) Pair Done show ?thesis by (simp add: io_simps)
  next
    case Panic
    with assms(1) Pair show ?thesis by (simp add: io_simps)
  qed
qed

lemma any_on_tick: "emits (\<lambda>_. True) (on_tick W ctx c)"
  unfolding on_tick_def reconcile_def Let_def
  by (auto intro!: emits_rules emits_any_keys split: prod.split sum.split)

lemma any_run_loop: "emits (\<lambda>_. True) (run_loop W ctx ins c)"
  by (induction W ctx ins c rule: run_loop.induct) (auto intro!: emits_rules any_on_tick)

definition demo_platform :: platform where
  "demo_platform = \<lparr>pl_lower = id, pl_env = demo_env, pl_hostname = None, pl_incluster = True, pl_clientset = True\<rparr>"

text \<open>An election that the process wins, for two ticks.\<close>

definition demo_election :: election where
  "demo_election lc = (if lc_Identity lc = ''redis-replication-controller'' then Some [Tick, Tick] else None)"

lemma demo_runs: "runs_with demo_platform demo_election direct demo_config [Tick, Tick]"
  by (simp add: runs_with_def loaded_def demo_platform_def demo_load)
    (simp add: demo_config_def demo_election_def election_config_def)

lemma demo_interval: "ReconcileInterval (ctl_cfg (New demo_config d)) = 10000000000"
  by (simp add: New_def demo_config_def)

lemma demo_dialer_of: "dialer_of demo_config = demo_dialer"
  by (simp add: dialer_of_def demo_dialer_def demo_config_def)

lemma demo_tick_promotes:
  assumes "ctl_cfg c = demo_config" "ctl_dialer c = demo_dialer" "stateFor (ctl_sets c) demo_key = st"
    and "MasterFailureThreshold demo_config \<le> missing_for (demo_world no_masters) st
      (probed (demo_p1 ''replica'') (probed (demo_p0 ''master'') (h @ [EvList ''n'' ''s''])))"
  shows "sent ''a:1'' promote_cmd \<in> set (snd (on_tick (demo_world no_masters) None c h))"
proof -
  obtain r es where "reconcileSet (demo_world no_masters) demo_config demo_dialer None right_pods st (h @ [EvList ''n'' ''s'']) =
      (r, (h @ [EvList ''n'' ''s'']) @ es)" "sent ''a:1'' promote_cmd \<in> set es"
    by (rule demo_failover[OF assms(4)])
  then have "sent ''a:1'' promote_cmd \<in> set (snd (reconcileSet (demo_world no_masters) demo_config demo_dialer None
      right_pods st (h @ [EvList ''n'' ''s''])))" by simp
  then have "sent ''a:1'' promote_cmd \<in> set (snd (reconcile (demo_world no_masters) demo_config demo_dialer None (ctl_sets c) h))"
    unfolding demo_reconcile assms(3) by (rule bind_keeps) (auto intro: emits_rules split: prod.split)
  then show ?thesis
    unfolding on_tick_def assms(1,2)
    by (rule bind_keeps) (auto intro!: emits_rules simp: Let_def split: prod.split)
qed

lemma demo_first_tick:
  "on_tick (demo_world no_masters) None (New demo_config demo_dialer\<lparr>ctl_started := True, ctl_lastReconcileAt := 0\<rparr>) [EvNow] =
   (Done (New demo_config demo_dialer\<lparr>ctl_started := True,
      ctl_sets := [demo_key \<mapsto> \<lparr>masterMissingAt = Some 14000000000, failoverEpoch = 0\<rparr>], ctl_lastReconcileAt := 16000000000\<rparr>),
    probed (demo_p1 ''replica'') (probed (demo_p0 ''master'') [EvNow, EvList ''n'' ''s'']) @ [EvNow, EvNow, EvNow])"
  by (simp add: on_tick_def New_def io_simps demo_reconcile stateFor_def demo_first_pass_at now_def)

theorem process_promotions_justified_witness:
  "\<exists>r es1 es2 cfg ins. main_process (demo_world no_masters) demo_platform demo_election [] [] =
       (r, [] @ es1 @ sent ''a:1'' promote_cmd # es2) \<and>
     runs_with demo_platform demo_election [] cfg ins \<and>
     justified (demo_world no_masters) cfg
       (run_log (demo_world no_masters) None ins (New cfg (dialer_of cfg)) []) ([] @ es1) ''a:1''"
proof -
  let ?W = "demo_world no_masters"
  let ?c = "New demo_config demo_dialer\<lparr>ctl_started := True,
      ctl_sets := [demo_key \<mapsto> \<lparr>masterMissingAt = Some 14000000000, failoverEpoch = 0\<rparr>], ctl_lastReconcileAt := 16000000000\<rparr>"
  let ?h = "probed (demo_p1 ''replica'') (probed (demo_p0 ''master'') [EvNow, EvList ''n'' ''s'']) @ [EvNow, EvNow, EvNow]"
  have "sent ''a:1'' promote_cmd \<in> set (snd (on_tick ?W None ?c ?h))"
    by (rule demo_tick_promotes) (auto simp: New_def stateFor_def missing_for_def)
  then have "sent ''a:1'' promote_cmd \<in> set (snd (run_loop ?W None [Tick] ?c ?h))"
    unfolding run_loop.simps(3) by (rule bind_keeps) (rule any_run_loop)
  then have "sent ''a:1'' promote_cmd \<in> set (snd (Run ?W None [Tick, Tick] (New demo_config demo_dialer) []))"
    by (simp add: Run_def io_simps now_def demo_first_tick demo_interval del: run_loop.simps(1))
  then have "sent ''a:1'' promote_cmd \<in> set (snd (main_process ?W demo_platform demo_election [] []))"
    unfolding main_process_runs[OF demo_runs] demo_dialer_of by (rule bind_keeps) (rule emits_rules)
  then obtain r es1 es2 where run: "main_process ?W demo_platform demo_election [] [] =
      (r, [] @ es1 @ sent ''a:1'' promote_cmd # es2)"
    by (metis append_Nil prod.collapse split_list)
  from process_promotions_justified[OF run] run show ?thesis by blast
qed

section \<open>Readiness\<close>

text \<open>An API server that refuses to list: after one tick, ready within thirty seconds of the start only.\<close>

abbreviation refusing :: world where
  "refusing \<equiv> demo_world one_master\<lparr>w_list := \<lambda>_ _ _. Inl ''forbidden''\<rparr>"

theorem readiness_tracks_progress_witness:
  "\<exists>c. Run refusing None [Tick] (New demo_config demo_dialer) [] = (Done (StillRunning, c), [EvNow, EvList ''n'' ''s'']) \<and>
     Ready refusing c (replicate 29 EvNow) = (Done True, replicate 29 EvNow @ [EvNow]) \<and>
     Ready refusing c (replicate 30 EvNow) = (Done False, replicate 30 EvNow @ [EvNow])"
proof -
  have fit: "in_int64 (3 * ReconcileInterval demo_config)" by (simp add: demo_config_def)
  have fails: "failing refusing demo_config" by (simp add: failing_def demo_config_def)
  obtain c where run: "Run refusing None [Tick] (New demo_config demo_dialer) [] = (Done (StillRunning, c), [EvNow, EvList ''n'' ''s''])"
    by (simp add: Run_def on_tick_def New_def reconcile_def ListRedisPods_def demo_config_def io_simps now_def)
  have "Ready refusing c h4 = (Done (w_now refusing h4 - w_now refusing [] < 3 * ReconcileInterval demo_config), h4 @ [EvNow])" for h4
    using readiness_tracks_progress[OF fit] fails run by blast
  then show ?thesis using run by (simp add: demo_config_def)
qed

end
