(* ===== verification/Go_Duration.thy ===== *)
theory Go_Duration
  imports Go_Strings
begin

text \<open>
  \<^verbatim>\<open>time.ParseDuration\<close>: durations such as \<^verbatim>\<open>1h30m\<close> and \<^verbatim>\<open>1.5s\<close>, in nanoseconds. The digits after a point are
  converted in double precision: the argument \<open>frac\<close> is the conversion of
  \<^verbatim>\<open>float64(f) * (float64(unit) / scale)\<close> to an integer.
\<close>

text \<open>\<^verbatim>\<open>leadingInt\<close>: the number and the rest, \<open>None\<close> when it exceeds \<open>2\<^sup>63\<close>.\<close>

fun leadingInt :: "nat \<Rightarrow> string \<Rightarrow> (nat \<times> string) option" where
  "leadingInt x [] = Some (x, [])"
| "leadingInt x (c # cs) =
     (if \<not> is_digit c then Some (x, c # cs)
      else if 922337203685477580 < x then None
      else if 9223372036854775808 < 10 * x + digit_val c then None
      else leadingInt (10 * x + digit_val c) cs)"

text \<open>\<^verbatim>\<open>leadingFraction\<close>: digits that no longer fit are skipped.\<close>

fun leadingFraction :: "nat \<Rightarrow> nat \<Rightarrow> bool \<Rightarrow> string \<Rightarrow> nat \<times> nat \<times> string" where
  "leadingFraction x scale overflow [] = (x, scale, [])"
| "leadingFraction x scale overflow (c # cs) =
     (if \<not> is_digit c then (x, scale, c # cs)
      else if overflow \<or> 922337203685477580 < x \<or> 9223372036854775808 < 10 * x + digit_val c
      then leadingFraction x scale True cs
      else leadingFraction (10 * x + digit_val c) (10 * scale) False cs)"

definition unitMap :: "string \<rightharpoonup> nat" where
  "unitMap = map_of [(''ns'', 1), (''us'', 1000), ([CHR 0xC2, CHR 0xB5, CHR ''s''], 1000),
     ([CHR 0xCE, CHR 0xBC, CHR ''s''], 1000), (''ms'', 1000000), (''s'', 1000000000),
     (''m'', 60000000000), (''h'', 3600000000000)]"

abbreviation in_number :: "char \<Rightarrow> bool" where
  "in_number c \<equiv> c = CHR ''.'' \<or> is_digit c"

text \<open>One number with its unit, and the rest of the text.\<close>

definition duration_part :: "(nat \<Rightarrow> nat \<Rightarrow> nat \<Rightarrow> nat) \<Rightarrow> string \<Rightarrow> (nat \<times> string) option" where
  "duration_part frac s =
     (if s = [] \<or> \<not> in_number (hd s) then None
      else (case leadingInt 0 s of
        None \<Rightarrow> None
      | Some (v, s1) \<Rightarrow>
          let pre = (length s1 \<noteq> length s);
              point = (s1 \<noteq> [] \<and> hd s1 = CHR ''.'');
              (f, scale, s2) = (if point then leadingFraction 0 1 False (tl s1) else (0, 1, s1));
              post = (point \<and> length s2 \<noteq> length (tl s1));
              u = takeWhile (\<lambda>c. \<not> in_number c) s2;
              s3 = dropWhile (\<lambda>c. \<not> in_number c) s2
          in if \<not> pre \<and> \<not> post then None
             else if u = [] then None
             else (case unitMap u of
               None \<Rightarrow> None
             | Some unit \<Rightarrow>
                 if 9223372036854775808 div unit < v then None
                 else let v' = (if 0 < f then v * unit + frac f unit scale else v * unit)
                      in if 0 < f \<and> 9223372036854775808 < v' then None else Some (v', s3))))"

lemma leadingInt_shorter: "leadingInt x s = Some (v, s1) \<Longrightarrow> length s1 \<le> length s"
  by (induction x s rule: leadingInt.induct) (auto split: if_splits)

lemma leadingFraction_shorter:
  "leadingFraction x scale ov s = (f, sc, s1) \<Longrightarrow> length s1 \<le> length s"
  by (induction x scale ov s rule: leadingFraction.induct) (auto split: if_splits)

lemma duration_part_shorter:
  assumes "duration_part frac s = Some (v, s')"
  shows "length s' < length s"
proof -
  have drop: "length (dropWhile P xs) < length xs" if "takeWhile P xs \<noteq> []" for P and xs :: string
    using that length_append[of "takeWhile P xs" "dropWhile P xs"] by (simp only: takeWhile_dropWhile_id) simp
  obtain v1 s1 where s1: "leadingInt 0 s = Some (v1, s1)"
    using assms by (auto simp: duration_part_def split: if_splits option.splits)
  show ?thesis
    using assms s1 leadingInt_shorter[OF s1]
    by (fastforce simp: duration_part_def Let_def split: if_splits option.splits prod.splits
        dest!: drop leadingFraction_shorter)
qed

function duration_parts :: "(nat \<Rightarrow> nat \<Rightarrow> nat \<Rightarrow> nat) \<Rightarrow> nat \<Rightarrow> string \<Rightarrow> nat option" where
  "duration_parts frac d s =
     (if s = [] then Some d
      else (case duration_part frac s of
        None \<Rightarrow> None
      | Some (v, s') \<Rightarrow> if 9223372036854775808 < d + v then None else duration_parts frac (d + v) s'))"
  by pat_completeness auto
termination
  by (relation "measure (\<lambda>(frac, d, s). length s)") (auto dest: duration_part_shorter)

declare duration_parts.simps [simp del]

definition ParseDuration :: "(nat \<Rightarrow> nat \<Rightarrow> nat \<Rightarrow> nat) \<Rightarrow> string \<Rightarrow> int option" where
  "ParseDuration frac s0 =
     (let neg = (s0 \<noteq> [] \<and> hd s0 = CHR ''-'');
          s = (if s0 \<noteq> [] \<and> hd s0 \<in> {CHR ''-'', CHR ''+''} then tl s0 else s0)
      in if s = ''0'' then Some 0
         else if s = [] then None
         else (case duration_parts frac 0 s of
             None \<Rightarrow> None
           | Some d \<Rightarrow> if neg then Some (- int d)
                       else if 9223372036854775807 < d then None else Some (int d)))"

lemma ParseDuration_examples:
  "ParseDuration frac ''250ms'' = Some 250000000"
  "ParseDuration frac ''1h30m'' = Some 5400000000000"
  "ParseDuration frac ''-2s'' = Some (- 2000000000)"
  "ParseDuration frac ''10'' = None"
  by (simp_all add: ParseDuration_def duration_parts.simps duration_part_def is_digit_def digit_val_def
      less_eq_char_def unitMap_def)

text \<open>\<^verbatim>\<open>d.Round(m)\<close> for \<open>m > 0\<close>: to the nearest multiple, halves away from zero.\<close>

definition round_duration :: "int \<Rightarrow> int \<Rightarrow> int" where
  "round_duration d m =
     (let r = \<bar>d\<bar> mod m in
      if d < 0
      then if 2 * r < m then d + r else if int64_min \<le> d - m + r then d - m + r else int64_min
      else if 2 * r < m then d - r else if d + m - r \<le> int64_max then d + m - r else int64_max)"

text \<open>A rounded duration is within half a unit of the exact one, unless it is cut off.\<close>

lemma round_duration_close:
  assumes "0 < m" "int64_min + m \<le> d" "d + m \<le> int64_max"
  shows "2 * \<bar>round_duration d m - d\<bar> \<le> m"
proof -
  define r where "r = \<bar>d\<bar> mod m"
  have "0 \<le> r" "r < m" using assms(1) by (simp_all add: r_def)
  then show ?thesis
    using assms unfolding round_duration_def Let_def r_def[symmetric] by auto
qed

end
