(* ===== verification/Tool_Client.thy ===== *)
theory Tool_Client
  imports World Config Go_Duration
begin

text \<open>
  What the two programs under \<^verbatim>\<open>tools/\<close> have in common, and carry as textual copies of each other:
  the readers of environment variables and the minimal Redis client. Their \<^verbatim>\<open>readReply\<close> and
  \<^verbatim>\<open>readLine\<close> are copies of those of \<^verbatim>\<open>internal/redis/resp.go\<close>; their \<^verbatim>\<open>writeCmd\<close> lacks the test for
  an empty command.

  A connection is its address with the bytes that were received and not yet decoded; all
  deadlines of a connection are the event \<open>EvDeadline\<close>.
\<close>

section \<open>Environment variables\<close>

definition env :: "environ \<Rightarrow> string \<Rightarrow> string \<Rightarrow> string" where
  "env environ key dflt =
     (let v = (case environ key of None \<Rightarrow> [] | Some v \<Rightarrow> v) in if v \<noteq> [] then v else dflt)"

definition envDur :: "(nat \<Rightarrow> nat \<Rightarrow> nat \<Rightarrow> nat) \<Rightarrow> environ \<Rightarrow> string \<Rightarrow> int \<Rightarrow> int" where
  "envDur frac environ key dflt =
     (let v = (case environ key of None \<Rightarrow> [] | Some v \<Rightarrow> v) in
      if v \<noteq> [] then (case ParseDuration frac v of Some d \<Rightarrow> d | None \<Rightarrow> dflt) else dflt)"

definition envInt :: "environ \<Rightarrow> string \<Rightarrow> int \<Rightarrow> int" where
  "envInt environ key dflt =
     (let v = (case environ key of None \<Rightarrow> [] | Some v \<Rightarrow> v) in
      if v \<noteq> [] then (case Atoi v of Inr n \<Rightarrow> n | Inl _ \<Rightarrow> dflt) else dflt)"

section \<open>The client\<close>

record sock =
  sock_addr :: string
  sock_buf :: string

text \<open>The bytes \<^verbatim>\<open>writeCmd\<close> passes to \<^verbatim>\<open>w.Write\<close>, and the decoder.\<close>

definition writeCmd :: "string list \<Rightarrow> string" where
  "writeCmd args = CHR ''*'' # Itoa (int (length args)) @ crlf @
     concat (map (\<lambda>a. CHR ''$'' # Itoa (int (length a)) @ crlf @ a @ crlf) args)"

definition tool_readReply :: "io_error \<Rightarrow> string \<Rightarrow> (redis_error + reply) out \<times> string" where
  "tool_readReply = readReply"

definition tool_readLine :: "io_error \<Rightarrow> string \<Rightarrow> (redis_error + string) \<times> string" where
  "tool_readLine = readLine"

lemma writeCmd_eq [simp]: "writeCmd args = encodeCommand args"
  by (simp add: writeCmd_def encodeCommand_def bulk_def[abs_def])

definition dial :: "world \<Rightarrow> string \<Rightarrow> int \<Rightarrow> (io_error + sock) run" where
  "dial W addr timeout =
     bind_io (interact (\<lambda>h. w_dial W h addr) (\<lambda>_. EvDial addr timeout))
       (\<lambda>r. case r of Some e \<Rightarrow> ret (Inl e) | None \<Rightarrow> ret (Inr \<lparr>sock_addr = addr, sock_buf = []\<rparr>))"

definition sock_close :: "sock \<Rightarrow> unit run" where
  "sock_close c = interact (\<lambda>_. ()) (\<lambda>_. EvClose (sock_addr c))"

text \<open>The calls of \<^verbatim>\<open>net.Conn\<close>, and one call of the decoder on its reader.\<close>

definition set_deadline :: "world \<Rightarrow> sock \<Rightarrow> int \<Rightarrow> io_error option run" where
  "set_deadline W c t =
     interact (\<lambda>h. w_set_deadline W h (sock_addr c) t) (\<lambda>_. EvDeadline (sock_addr c) t)"

definition sock_write :: "world \<Rightarrow> sock \<Rightarrow> string \<Rightarrow> io_error option run" where
  "sock_write W c bytes = interact (\<lambda>h. w_write W h (sock_addr c) bytes) (\<lambda>_. EvWrite (sock_addr c) bytes)"

definition read_reply :: "world \<Rightarrow> sock \<Rightarrow> ((redis_error + reply) \<times> sock) run" where
  "read_reply W c =
     bind_io (interact (\<lambda>h. w_recv W h (sock_addr c)) (\<lambda>_. EvRecv (sock_addr c))) (\<lambda>(bs, fin).
       case tool_readReply fin (sock_buf c @ bs) of
         (Panic, _) \<Rightarrow> panic
       | (Done r, rest) \<Rightarrow> ret (r, c\<lparr>sock_buf := rest\<rparr>))"

definition infoField :: "string \<Rightarrow> string \<Rightarrow> string" where
  "infoField info pfx =
     (case find (\<lambda>ln. has_prefix ln pfx) (map trim_space (split_on (CHR 0x0A) info)) of
        Some ln \<Rightarrow> trim_space (drop (length pfx) ln)
      | None \<Rightarrow> [])"

definition short :: "string \<Rightarrow> string" where
  "short runid = (if 12 < length runid then take 12 runid else if runid = [] then ''?'' else runid)"

text \<open>\<^verbatim>\<open>time.Since\<close>; the difference of two times saturates.\<close>

definition since :: "world \<Rightarrow> int \<Rightarrow> int run" where
  "since W t0 = bind_io (now W) (\<lambda>t. ret (max int64_min (min int64_max (t - t0))))"

definition str_of :: "reply \<Rightarrow> string" where
  "str_of v = (case v of RStr s \<Rightarrow> s | _ \<Rightarrow> [])"

text \<open>\<^verbatim>\<open>n++\<close> on an \<^verbatim>\<open>int64\<close>.\<close>

definition incr64 :: "int \<Rightarrow> int" where
  "incr64 n = wrap64 (n + 1)"

section \<open>Rules\<close>

lemma incr64_below: "0 \<le> n \<Longrightarrow> n < int64_max \<Longrightarrow> incr64 n = n + 1"
  by (simp add: incr64_def)

lemma returns_tool [returns_rules]:
  "returns (dial W addr timeout) (\<lambda>r. \<forall>c. r = Inr c \<longrightarrow> sock_buf c = [])"
  "returns (sock_close c) (\<lambda>_. True)"
  "returns (set_deadline W c t) (\<lambda>_. True)"
  "returns (sock_write W c bytes) (\<lambda>_. True)"
  "returns (since W t0) (\<lambda>_. True)"
  by (auto simp: returns_def dial_def sock_close_def set_deadline_def sock_write_def since_def now_def io_simps
      split: option.splits)

lemma returns_read_reply:
  assumes "clean_recv W" "sock_buf c = []"
  shows "returns (read_reply W c) (\<lambda>x. sock_buf (snd x) = [])"
  unfolding returns_def
proof
  fix h
  obtain r where "readReply (snd (w_recv W h (sock_addr c))) (fst (w_recv W h (sock_addr c))) = (Done r, [])"
    using assms(1) unfolding clean_recv_def by blast
  then show "\<exists>x h'. read_reply W c h = (Done x, h') \<and> sock_buf (snd x) = []"
    using assms(2) by (simp add: read_reply_def tool_readReply_def io_simps case_prod_beta)
qed

lemma emits_tool [emits_rules]:
  "(\<And>t. P (EvDial addr t)) \<Longrightarrow> emits P (dial W addr timeout)"
  "P (EvClose (sock_addr c)) \<Longrightarrow> emits P (sock_close c)"
  "(\<And>t. P (EvDeadline (sock_addr c) t)) \<Longrightarrow> emits P (set_deadline W c t)"
  "P (EvWrite (sock_addr c) bytes) \<Longrightarrow> emits P (sock_write W c bytes)"
  "P (EvRecv (sock_addr c)) \<Longrightarrow> emits P (read_reply W c)"
  "P EvNow \<Longrightarrow> emits P (since W t0)"
  unfolding dial_def sock_close_def set_deadline_def sock_write_def read_reply_def since_def
  by (auto intro!: emits_rules split: option.splits prod.splits out.splits)

lemma wp_dial: "wp (dial W addr timeout) (\<lambda>r _. \<forall>c. r = Inr c \<longrightarrow> sock_addr c = addr \<and> sock_buf c = []) h"
  by (auto simp: dial_def split: option.splits)

lemma wp_read_reply: "wp (read_reply W c) (\<lambda>x _. sock_addr (snd x) = sock_addr c) h"
  by (auto simp: read_reply_def split: prod.splits out.splits)

end
