(* ===== verification/Loader_Data.thy ===== *)
theory Loader_Data
  imports Tool_Client Go_Time "HOL-Library.Word" "HOL-Library.State_Monad"
begin

text \<open>
  The data that \<^verbatim>\<open>tools/data-loader/main.go\<close> writes: the tables of its generator, the structs
  and their JSON form, and a generator for each kind of key.

  A generator runs in the state monad over the number of values it has taken from outside:
  \<open>rnd k\<close> is the \<open>k\<close>-th random number, which \<^verbatim>\<open>rng.Intn\<close> and \<^verbatim>\<open>rng.Read\<close> reduce to their
  ranges (every sequence of results of \<^verbatim>\<open>math/rand\<close> is one for some \<open>rnd\<close>), and
  \<open>clock k\<close> the time at that point. Calls are made in the order in which Go evaluates them,
  which is the order in the source. Floating-point values stay expressions; their text is the argument
  \<open>render\<close> of the JSON encoder.
\<close>

section \<open>Random values\<close>

record inputs =
  rnd :: "nat \<Rightarrow> nat"
  clock :: "nat \<Rightarrow> int"

type_synonym 'a gen = "(nat, 'a) state"

definition draw :: "inputs \<Rightarrow> (nat \<Rightarrow> 'a) \<Rightarrow> 'a gen" where
  "draw I f = State (\<lambda>k. (f (rnd I k), Suc k))"

definition rndN :: "inputs \<Rightarrow> int \<Rightarrow> int gen" where
  "rndN I n = (if n \<le> 0 then State_Monad.return 0 else draw I (\<lambda>x. int x mod n))"

definition time_now :: "inputs \<Rightarrow> int gen" where
  "time_now I = State (\<lambda>k. (clock I k, Suc k))"

text \<open>\<^verbatim>\<open>rng.Read\<close> of \<open>n\<close> bytes, and a loop that fills a slice of length \<open>n\<close>.\<close>

primrec repeat_gen :: "nat \<Rightarrow> 'a gen \<Rightarrow> 'a list gen" where
  "repeat_gen 0 g = State_Monad.return []"
| "repeat_gen (Suc n) g = do { x \<leftarrow> g; xs \<leftarrow> repeat_gen n g; State_Monad.return (x # xs) }"

definition rng_Read :: "inputs \<Rightarrow> nat \<Rightarrow> 8 word list gen" where
  "rng_Read I n = repeat_gen n (draw I (\<lambda>x. word_of_nat x))"

text \<open>\<^verbatim>\<open>xs[rndN(len(xs))]\<close>\<close>

definition pick :: "inputs \<Rightarrow> 'a list \<Rightarrow> 'a gen" where
  "pick I xs = do { i \<leftarrow> rndN I (int (length xs)); State_Monad.return (xs ! nat i) }"

text \<open>\<^verbatim>\<open>%x\<close> of bytes, two digits for each.\<close>

definition hex_bytes :: "8 word list \<Rightarrow> string" where
  "hex_bytes bs = concat (map (\<lambda>b. [hex_digit (unat b div 16), hex_digit (unat b mod 16)]) bs)"

definition format_uuid :: "8 word list \<Rightarrow> string" where
  "format_uuid b0 =
     (let b1 = b0[6 := or (and (b0 ! 6) 0x0F) 0x40];
          b = b1[8 := or (and (b1 ! 8) 0x3F) 0x80]
      in hex_bytes (take 4 b) @ ''-'' @ hex_bytes (take 2 (drop 4 b)) @ ''-'' @ hex_bytes (take 2 (drop 6 b)) @
         ''-'' @ hex_bytes (take 2 (drop 8 b)) @ ''-'' @ hex_bytes (take 6 (drop 10 b)))"

definition uuid4 :: "inputs \<Rightarrow> string gen" where
  "uuid4 I = do { b \<leftarrow> rng_Read I 16; State_Monad.return (format_uuid b) }"

definition pathHash :: "string \<Rightarrow> 32 word" where
  "pathHash s = foldl (\<lambda>h c. h * 31 + of_char c) 0 s"

text \<open>
  \<^verbatim>\<open>fmt.Sprintf(format, args...)\<close> for string arguments and the verb \<^verbatim>\<open>%s\<close> only. Arguments
  that no verb uses are appended with the note \<^verbatim>\<open>%!(EXTRA ...)\<close>.
\<close>

fun sprintf_s :: "string \<Rightarrow> string list \<Rightarrow> string" where
  "sprintf_s [] [] = []"
| "sprintf_s [] (a # as) =
     ''%!(EXTRA string='' @ a @ concat (map (\<lambda>x. '', string='' @ x) as) @ '')''"
| "sprintf_s (CHR ''%'' # CHR ''s'' # cs) (a # as) = a @ sprintf_s cs as"
| "sprintf_s (c # cs) as = c # sprintf_s cs as"

section \<open>JSON\<close>

text \<open>\<open>FDiv n d\<close> is \<^verbatim>\<open>float64(n)/d\<close>, \<open>FPlus e l\<close> the sum with the literal \<open>l\<close>.\<close>

datatype fexpr = FDiv int int | FPlus fexpr string

datatype jval =
    JString string
  | JBool bool
  | JInt int
  | JFloat fexpr
  | JList "jval list"
  | JRecord "(string \<times> jval) list"

text \<open>
  Strings as \<^verbatim>\<open>json.Marshal\<close> writes them, for text that is valid UTF-8: quotes, backslashes,
  control characters and the characters special to HTML are escaped.
\<close>

definition json_char :: "char \<Rightarrow> string" where
  "json_char c =
     (let n = of_char c :: nat in
      if c = CHR 0x22 \<or> c = CHR 0x5C then [CHR 0x5C, c]
      else if c = CHR 0x08 then [CHR 0x5C, CHR ''b''] else if c = CHR 0x0C then [CHR 0x5C, CHR ''f'']
      else if c = CHR 0x0A then [CHR 0x5C, CHR ''n''] else if c = CHR 0x0D then [CHR 0x5C, CHR ''r'']
      else if c = CHR 0x09 then [CHR 0x5C, CHR ''t'']
      else if n < 32 \<or> c \<in> {CHR ''<'', CHR ''>'', CHR ''&''}
      then CHR 0x5C # ''u00'' @ [hex_digit (n div 16), hex_digit (n mod 16)]
      else [c])"

definition json_string :: "string \<Rightarrow> string" where
  "json_string s = CHR 0x22 # concat (map json_char s) @ [CHR 0x22]"

fun sep_by :: "string \<Rightarrow> string list \<Rightarrow> string" where
  "sep_by sep [] = []"
| "sep_by sep [x] = x"
| "sep_by sep (x # y # ys) = x @ sep @ sep_by sep (y # ys)"

fun marshal :: "(fexpr \<Rightarrow> string) \<Rightarrow> jval \<Rightarrow> string" where
  "marshal render (JString s) = json_string s"
| "marshal render (JBool b) = (if b then ''true'' else ''false'')"
| "marshal render (JInt n) = Itoa n"
| "marshal render (JFloat e) = render e"
| "marshal render (JList vs) = ''['' @ sep_by '','' (map (marshal render) vs) @ '']''"
| "marshal render (JRecord fs) =
     ''{'' @ sep_by '','' (map (\<lambda>(k, v). json_string k @ '':'' @ marshal render v) fs) @ ''}''"

section \<open>The structs\<close>

record sessionData =
  se_UserID :: string
  se_CreatedAt :: string
  se_ExpiresAt :: string
  se_UserAgent :: string
  se_IP :: string
  se_Country :: string
  se_DeviceID :: string

record userAddress =
  ad_Type :: string
  ad_Street :: string
  ad_City :: string
  ad_Zip :: string
  ad_Country :: string

text \<open>\<^verbatim>\<open>json.Marshal\<close> sorts the keys of a map, so a map is a list of its entries in that order.\<close>

record userProfile =
  up_UserID :: string
  up_FirstName :: string
  up_LastName :: string
  up_Email :: string
  up_Country :: string
  up_CreatedAt :: string
  up_LastLoginAt :: string
  up_Tier :: string
  up_Preferences :: "(string \<times> bool) list"
  up_Addresses :: "userAddress list"

record productVariant =
  va_SKU :: string
  va_Size :: string
  va_Color :: string
  va_Price :: fexpr
  va_Stock :: int

record productDetail =
  pd_ID :: string
  pd_Name :: string
  pd_Brand :: string
  pd_Category :: string
  pd_Price :: fexpr
  pd_Currency :: string
  pd_InStock :: bool
  pd_Rating :: fexpr
  pd_ReviewCount :: int
  pd_Variants :: "productVariant list"
  pd_Attributes :: "(string \<times> string) list"
  pd_ImageURLs :: "string list"

record categoryFacetVal =
  fv_Value :: string
  fv_Count :: int

record categoryFacet =
  fa_Key :: string
  fa_Values :: "categoryFacetVal list"

record categoryPage =
  cp_Slug :: string
  cp_Name :: string
  cp_Description :: string
  cp_ProductIDs :: "string list"
  cp_TotalCount :: int
  cp_Page :: int
  cp_PageSize :: int
  cp_Facets :: "categoryFacet list"
  cp_SortOption :: string

record apiMeta =
  me_Page :: int
  me_PageSize :: int
  me_TotalCount :: int
  me_TotalPages :: int
  me_NextCursor :: string

record apiResponse =
  ar_Data :: "(string \<times> jval) list list"
  ar_Meta :: apiMeta
  ar_RequestID :: string
  ar_ServerTime :: string

record featureFlag =
  ff_Name :: string
  ff_Description :: string
  ff_Enabled :: bool
  ff_Rollout :: int
  ff_Variants :: "string list"
  ff_UpdatedAt :: string

end
