(* ===== verification/Loader_Gen.thy ===== *)
theory Loader_Gen
  imports Loader_Data
begin

text \<open>
  The generators of \<^verbatim>\<open>tools/data-loader/main.go\<close>: its tables, and one function for each kind of
  key, which returns the key and the JSON text of its value.
\<close>

section \<open>Tables\<close>

record category =
  ca_Slug :: string
  ca_Name :: string
  ca_Description :: string

record productTemplate =
  pt_Name :: string
  pt_Brand :: string
  pt_Category :: string

record featureTemplate =
  ft_Name :: string
  ft_Description :: string

record generator =
  g_firstNames :: "string list"
  g_lastNames :: "string list"
  g_domains :: "string list"
  g_userAgents :: "string list"
  g_countries :: "string list"
  g_categories :: "category list"
  g_products :: "productTemplate list"
  g_apiPaths :: "string list"
  g_featureFlags :: "featureTemplate list"
  g_ips :: "string list"

definition makeIP :: "inputs \<Rightarrow> string gen" where
  "makeIP I = do {
     a \<leftarrow> rndN I 215; b \<leftarrow> rndN I 256; c \<leftarrow> rndN I 256; d \<leftarrow> rndN I 254;
     State_Monad.return (Itoa (10 + a) @ ''.'' @ Itoa b @ ''.'' @ Itoa c @ ''.'' @ Itoa (1 + d)) }"

definition makeIPs :: "inputs \<Rightarrow> nat \<Rightarrow> string list gen" where
  "makeIPs I n = repeat_gen n (makeIP I)"

definition tables :: "string list \<Rightarrow> generator" where
  "tables addrs = \<lparr>
    g_firstNames = [
      ''Emma'', ''Liam'', ''Olivia'', ''Noah'', ''Ava'', ''Oliver'', ''Sophia'', ''Elijah'', ''Isabella'',
      ''James'', ''Mia'', ''William'', ''Charlotte'', ''Benjamin'', ''Amelia'', ''Lucas'', ''Harper'',
      ''Henry'', ''Evelyn'', ''Alexander'', ''Abigail'', ''Daniel'', ''Emily'', ''Michael''],
    g_lastNames = [
      ''Smith'', ''Johnson'', ''Williams'', ''Brown'', ''Jones'', ''Garcia'', ''Miller'', ''Davis'',
      ''Rodriguez'', ''Martinez'', ''Hernandez'', ''Lopez'', ''Gonzalez'', ''Wilson'', ''Anderson'',
      ''Thomas'', ''Taylor'', ''Moore'', ''Jackson'', ''Martin''],
    g_domains = [
      ''gmail.com'', ''yahoo.com'', ''outlook.com'', ''proton.me'', ''icloud.com'', ''company.org'',
      ''startup.io'', ''enterprise.co''],
    g_userAgents = [
      ''Mozilla/5.0 (Windows NT 10.0; Win64; x64) AppleWebKit/537.36 Chrome/125.0.0.0 Safari/537.36'',
      ''Mozilla/5.0 (Macintosh; Intel Mac OS X 14_5) AppleWebKit/605.1.15 Safari/605.1.15'',
      ''Mozilla/5.0 (X11; Linux x86_64; rv:127.0) Gecko/20100101 Firefox/127.0'',
      ''Mozilla/5.0 (iPhone; CPU iPhone OS 17_5 like Mac OS X) AppleWebKit/605.1.15 Mobile/15E148'',
      ''Mozilla/5.0 (Linux; Android 14; Pixel 8 Pro) AppleWebKit/537.36 Chrome/125.0.6422.165 Mobile Safari/537.36''],
    g_countries = [''US'', ''DE'', ''GB'', ''FR'', ''JP'', ''BR'', ''IN'', ''CA'', ''AU'', ''NL'', ''SE'', ''SG''],
    g_categories = [
      \<lparr>ca_Slug = ''electronics'', ca_Name = ''Electronics'', ca_Description = ''Phones, laptops, tablets and accessories''\<rparr>,
      \<lparr>ca_Slug = ''clothing'', ca_Name = ''Clothing & Apparel'', ca_Description = ''Men's and women's fashion, shoes and accessories''\<rparr>,
      \<lparr>ca_Slug = ''home-garden'', ca_Name = ''Home & Garden'', ca_Description = ''Furniture, decor, kitchen appliances and tools''\<rparr>,
      \<lparr>ca_Slug = ''books'', ca_Name = ''Books & Media'', ca_Description = ''Fiction, non-fiction, e-books and audiobooks''\<rparr>,
      \<lparr>ca_Slug = ''sports'', ca_Name = ''Sports & Outdoors'', ca_Description = ''Equipment, apparel and nutrition for every sport''\<rparr>,
      \<lparr>ca_Slug = ''health-beauty'', ca_Name = ''Health & Beauty'', ca_Description = ''Skincare, makeup, vitamins and personal care''\<rparr>,
      \<lparr>ca_Slug = ''toys'', ca_Name = ''Toys & Games'', ca_Description = ''Board games, action figures, puzzles and educational toys''\<rparr>,
      \<lparr>ca_Slug = ''automotive'', ca_Name = ''Automotive'', ca_Description = ''Parts, tools, accessories and car care products''\<rparr>],
    g_products = [
      \<lparr>pt_Name = ''Wireless Noise-Cancelling Headphones'', pt_Brand = ''SoundMax'', pt_Category = ''electronics''\<rparr>,
      \<lparr>pt_Name = ''4K Ultra HD Smart TV 55'' @ [CHR 0x22], pt_Brand = ''VisioTech'', pt_Category = ''electronics''\<rparr>,
      \<lparr>pt_Name = ''Mechanical Keyboard RGB'', pt_Brand = ''KeyCraft'', pt_Category = ''electronics''\<rparr>,
      \<lparr>pt_Name = ''Slim Fit Oxford Shirt'', pt_Brand = ''UrbanThreads'', pt_Category = ''clothing''\<rparr>,
      \<lparr>pt_Name = ''Waterproof Hiking Boots'', pt_Brand = ''TrailBlazer'', pt_Category = ''clothing''\<rparr>,
      \<lparr>pt_Name = ''Ergonomic Office Chair'', pt_Brand = ''ErgoPlus'', pt_Category = ''home-garden''\<rparr>,
      \<lparr>pt_Name = ''Stainless Steel French Press'', pt_Brand = ''BrewMaster'', pt_Category = ''home-garden''\<rparr>,
      \<lparr>pt_Name = ''The Silent Algorithm (Hardcover)'', pt_Brand = ''Penwick Press'', pt_Category = ''books''\<rparr>,
      \<lparr>pt_Name = ''Carbon Fibre Tennis Racket'', pt_Brand = ''AcePro'', pt_Category = ''sports''\<rparr>,
      \<lparr>pt_Name = ''Vitamin D3 + K2 Complex'', pt_Brand = ''VitaBloom'', pt_Category = ''health-beauty''\<rparr>,
      \<lparr>pt_Name = ''Strategy Board Game: Empire Builders'', pt_Brand = ''GameForge'', pt_Category = ''toys''\<rparr>,
      \<lparr>pt_Name = ''Synthetic Motor Oil 5W-30'', pt_Brand = ''LubeTech'', pt_Category = ''automotive''\<rparr>],
    g_apiPaths = [
      ''/api/v1/products?category=electronics&page=1&limit=50'',
      ''/api/v1/products?category=clothing&sort=price_asc&page=2'',
      ''/api/v1/users/me/orders?status=delivered&from=2024-01-01'',
      ''/api/v1/search?q=wireless+headphones&filters=brand:SoundMax,price:50-200'',
      ''/api/v1/recommendations?user_id=%s&strategy=collaborative'',
      ''/api/v1/inventory/check?sku=%s&warehouse=eu-central-1'',
      ''/api/v1/cart/%s?include=items,summary,promotions'',
      ''/api/v1/reviews?product_id=%s&sort=helpful&limit=10''],
    g_featureFlags = [
      \<lparr>ft_Name = ''dark-mode-v2'', ft_Description = ''Next-gen dark mode with adaptive contrast and scheduled switching''\<rparr>,
      \<lparr>ft_Name = ''checkout-redesign'', ft_Description = ''New single-page checkout flow with address autocomplete''\<rparr>,
      \<lparr>ft_Name = ''ai-recommendations'', ft_Description = ''ML-powered product recommendations on homepage and PDP''\<rparr>,
      \<lparr>ft_Name = ''real-time-notifications'', ft_Description = ''WebSocket push notifications for order status and price drops''\<rparr>,
      \<lparr>ft_Name = ''loyalty-points-2.0'', ft_Description = ''Revamped loyalty program with tiered multipliers and partner redemption''\<rparr>],
    g_ips = addrs\<rparr>"

definition newGenerator :: "inputs \<Rightarrow> generator gen" where
  "newGenerator I = do { addrs \<leftarrow> makeIPs I 120; State_Monad.return (tables addrs) }"

section \<open>The JSON form of the structs\<close>

definition json_session :: "sessionData \<Rightarrow> jval" where
  "json_session s = JRecord [(''user_id'', JString (se_UserID s)), (''created_at'', JString (se_CreatedAt s)),
     (''expires_at'', JString (se_ExpiresAt s)), (''user_agent'', JString (se_UserAgent s)),
     (''ip'', JString (se_IP s)), (''country'', JString (se_Country s)), (''device_id'', JString (se_DeviceID s))]"

definition json_address :: "userAddress \<Rightarrow> jval" where
  "json_address a = JRecord [(''type'', JString (ad_Type a)), (''street'', JString (ad_Street a)),
     (''city'', JString (ad_City a)), (''zip'', JString (ad_Zip a)), (''country'', JString (ad_Country a))]"

definition json_profile :: "userProfile \<Rightarrow> jval" where
  "json_profile p = JRecord [(''user_id'', JString (up_UserID p)), (''first_name'', JString (up_FirstName p)),
     (''last_name'', JString (up_LastName p)), (''email'', JString (up_Email p)),
     (''country'', JString (up_Country p)), (''created_at'', JString (up_CreatedAt p)),
     (''last_login_at'', JString (up_LastLoginAt p)), (''tier'', JString (up_Tier p)),
     (''preferences'', JRecord (map (\<lambda>(k, b). (k, JBool b)) (up_Preferences p))),
     (''addresses'', JList (map json_address (up_Addresses p)))]"

definition json_variant :: "productVariant \<Rightarrow> jval" where
  "json_variant v = JRecord [(''sku'', JString (va_SKU v)), (''size'', JString (va_Size v)),
     (''color'', JString (va_Color v)), (''price'', JFloat (va_Price v)), (''stock'', JInt (va_Stock v))]"

definition json_product :: "productDetail \<Rightarrow> jval" where
  "json_product p = JRecord [(''id'', JString (pd_ID p)), (''name'', JString (pd_Name p)),
     (''brand'', JString (pd_Brand p)), (''category'', JString (pd_Category p)), (''price'', JFloat (pd_Price p)),
     (''currency'', JString (pd_Currency p)), (''in_stock'', JBool (pd_InStock p)),
     (''rating'', JFloat (pd_Rating p)), (''review_count'', JInt (pd_ReviewCount p)),
     (''variants'', JList (map json_variant (pd_Variants p))),
     (''attributes'', JRecord (map (\<lambda>(k, v). (k, JString v)) (pd_Attributes p))),
     (''image_urls'', JList (map JString (pd_ImageURLs p)))]"

definition json_facet :: "categoryFacet \<Rightarrow> jval" where
  "json_facet f = JRecord [(''key'', JString (fa_Key f)),
     (''values'', JList (map (\<lambda>v. JRecord [(''value'', JString (fv_Value v)), (''count'', JInt (fv_Count v))])
       (fa_Values f)))]"

definition json_category :: "categoryPage \<Rightarrow> jval" where
  "json_category c = JRecord [(''slug'', JString (cp_Slug c)), (''name'', JString (cp_Name c)),
     (''description'', JString (cp_Description c)), (''product_ids'', JList (map JString (cp_ProductIDs c))),
     (''total_count'', JInt (cp_TotalCount c)), (''page'', JInt (cp_Page c)), (''page_size'', JInt (cp_PageSize c)),
     (''facets'', JList (map json_facet (cp_Facets c))), (''sort_option'', JString (cp_SortOption c))]"

text \<open>Fields with \<^verbatim>\<open>omitempty\<close> are left out when they are empty.\<close>

definition json_meta :: "apiMeta \<Rightarrow> jval" where
  "json_meta m = JRecord ([(''page'', JInt (me_Page m)), (''page_size'', JInt (me_PageSize m)),
     (''total_count'', JInt (me_TotalCount m)), (''total_pages'', JInt (me_TotalPages m))] @
     (if me_NextCursor m = [] then [] else [(''next_cursor'', JString (me_NextCursor m))]))"

definition json_response :: "apiResponse \<Rightarrow> jval" where
  "json_response r = JRecord [(''data'', JList (map JRecord (ar_Data r))), (''meta'', json_meta (ar_Meta r)),
     (''request_id'', JString (ar_RequestID r)), (''server_time'', JString (ar_ServerTime r))]"

definition json_flag :: "featureFlag \<Rightarrow> jval" where
  "json_flag f = JRecord ([(''name'', JString (ff_Name f)), (''description'', JString (ff_Description f)),
     (''enabled'', JBool (ff_Enabled f)), (''rollout_pct'', JInt (ff_Rollout f))] @
     (if ff_Variants f = [] then [] else [(''variants'', JList (map JString (ff_Variants f)))]) @
     [(''updated_at'', JString (ff_UpdatedAt f))])"

section \<open>The generators\<close>

abbreviation minutes :: int where "minutes \<equiv> 60000000000"

abbreviation hours :: int where "hours \<equiv> 3600000000000"

definition usr :: "inputs \<Rightarrow> string gen" where
  "usr I = do { n \<leftarrow> rndN I 900000; State_Monad.return (''usr_'' @ Itoa (100000 + n)) }"

definition coin :: "inputs \<Rightarrow> bool gen" where
  "coin I = do { n \<leftarrow> rndN I 2; State_Monad.return (n = 1) }"

definition genSession :: "inputs \<Rightarrow> (fexpr \<Rightarrow> string) \<Rightarrow> generator \<Rightarrow> string \<Rightarrow> (string \<times> string) gen" where
  "genSession I render g pfx = do {
     ident \<leftarrow> uuid4 I;
     t \<leftarrow> time_now I;
     user \<leftarrow> usr I;
     created \<leftarrow> rndN I 7200;
     expires \<leftarrow> rndN I 45;
     agent \<leftarrow> pick I (g_userAgents g);
     addr \<leftarrow> pick I (g_ips g);
     country \<leftarrow> pick I (g_countries g);
     device \<leftarrow> uuid4 I;
     State_Monad.return (pfx @ '':session:'' @ ident, marshal render (json_session
       \<lparr>se_UserID = user, se_CreatedAt = rfc3339 (t - (1 + created) * minutes),
        se_ExpiresAt = rfc3339 (t + (15 + expires) * minutes), se_UserAgent = agent, se_IP = addr,
        se_Country = country, se_DeviceID = take 13 device\<rparr>)) }"

definition genAddress :: "inputs \<Rightarrow> generator \<Rightarrow> userAddress gen" where
  "genAddress I g = do {
     n \<leftarrow> rndN I 9900;
     street \<leftarrow> pick I [''Main'', ''Oak'', ''Elm'', ''Pine'', ''Maple'', ''Cedar'', ''Birch'', ''Walnut''];
     city \<leftarrow> pick I [''New York'', ''Berlin'', ''London'', ''Tokyo'', ''Paris'', ''Sydney'', ''Toronto'',
       ''Amsterdam'', ''Stockholm'', ''Singapore''];
     zip \<leftarrow> rndN I 100000;
     country \<leftarrow> pick I (g_countries g);
     State_Monad.return \<lparr>ad_Type = ''shipping'', ad_Street = Itoa (100 + n) @ '' '' @ street @ '' Street'',
       ad_City = city, ad_Zip = pad 5 zip, ad_Country = country\<rparr> }"

definition genUserProfile :: "inputs \<Rightarrow> (fexpr \<Rightarrow> string) \<Rightarrow> generator \<Rightarrow> string \<Rightarrow> (string \<times> string) gen" where
  "genUserProfile I render g pfx = do {
     uid \<leftarrow> usr I;
     t \<leftarrow> time_now I;
     age \<leftarrow> rndN I (365 * 24);
     first \<leftarrow> pick I (g_firstNames g);
     lastn \<leftarrow> pick I (g_lastNames g);
     mfirst \<leftarrow> pick I (g_firstNames g);
     mlast \<leftarrow> pick I (g_lastNames g);
     domain \<leftarrow> pick I (g_domains g);
     country \<leftarrow> pick I (g_countries g);
     t2 \<leftarrow> time_now I;
     login \<leftarrow> rndN I 48;
     tier \<leftarrow> pick I [''free'', ''pro'', ''enterprise''];
     newsletter \<leftarrow> coin I;
     push \<leftarrow> coin I;
     dark \<leftarrow> coin I;
     two \<leftarrow> coin I;
     address \<leftarrow> genAddress I g;
     State_Monad.return (pfx @ '':user:'' @ uid @ '':profile'', marshal render (json_profile
       \<lparr>up_UserID = uid, up_FirstName = first, up_LastName = lastn,
        up_Email = map ascii_lower mfirst @ ''.'' @ map ascii_lower mlast @ ''@'' @ domain,
        up_Country = country, up_CreatedAt = rfc3339 (t - age * hours),
        up_LastLoginAt = rfc3339 (t2 - login * hours), up_Tier = tier,
        up_Preferences = [(''dark_mode'', dark), (''email_newsletter'', newsletter),
          (''push_notifications'', push), (''two_factor'', two)],
        up_Addresses = [address]\<rparr>)) }"

definition price :: "inputs \<Rightarrow> fexpr gen" where
  "price I = do { n \<leftarrow> rndN I 99500; State_Monad.return (FPlus (FDiv (5 + n) 100) ''4.99'') }"

definition genVariant :: "inputs \<Rightarrow> string \<Rightarrow> string \<Rightarrow> productVariant gen" where
  "genVariant I pid sz = do {
     p \<leftarrow> price I;
     stock \<leftarrow> rndN I 500;
     State_Monad.return \<lparr>va_SKU = pid @ ''-'' @ sz @ ''-BLK'', va_Size = sz, va_Color = ''Black'',
       va_Price = p, va_Stock = stock\<rparr> }"

definition genProduct :: "inputs \<Rightarrow> (fexpr \<Rightarrow> string) \<Rightarrow> generator \<Rightarrow> string \<Rightarrow> (string \<times> string) gen" where
  "genProduct I render g pfx = do {
     tpl \<leftarrow> pick I (g_products g);
     n \<leftarrow> rndN I 9000;
     let pid = ''prod_'' @ map ascii_lower (filter (\<lambda>c. c \<noteq> CHR '' '') (pt_Brand tpl)) @ ''_'' @ Itoa (1000 + n);
     p \<leftarrow> price I;
     stock \<leftarrow> rndN I 10;
     rating \<leftarrow> rndN I 21;
     reviews \<leftarrow> rndN I 5000;
     small \<leftarrow> genVariant I pid ''S'';
     medium \<leftarrow> genVariant I pid ''M'';
     large \<leftarrow> genVariant I pid ''L'';
     weight \<leftarrow> rndN I 5000;
     d1 \<leftarrow> rndN I 300;
     d2 \<leftarrow> rndN I 300;
     d3 \<leftarrow> rndN I 100;
     material \<leftarrow> pick I [''Aluminium'', ''Stainless Steel'', ''Carbon Fibre'', ''ABS Plastic'', ''Silicone'',
       ''Leather'', ''Cotton'', ''Polyester''];
     State_Monad.return (pfx @ '':cache:product:'' @ pid, marshal render (json_product
       \<lparr>pd_ID = pid, pd_Name = pt_Name tpl, pd_Brand = pt_Brand tpl, pd_Category = pt_Category tpl,
        pd_Price = p, pd_Currency = ''USD'', pd_InStock = (1 < stock), pd_Rating = FDiv (30 + rating) 10,
        pd_ReviewCount = reviews, pd_Variants = [small, medium, large],
        pd_Attributes =
          [(''dimensions'', Itoa (50 + d1) @ ''x'' @ Itoa (50 + d2) @ ''x'' @ Itoa (10 + d3) @ ''mm''),
           (''material'', material), (''weight'', Itoa (100 + weight) @ ''g'')],
        pd_ImageURLs = map (\<lambda>file. ''https://cdn.example.com/products/'' @ pid @ ''/'' @ file)
          [''main.jpg'', ''alt1.jpg'', ''alt2.jpg'']\<rparr>)) }"

definition facets :: "categoryFacet list" where
  "facets =
     [\<lparr>fa_Key = ''brand'', fa_Values = [\<lparr>fv_Value = ''SoundMax'', fv_Count = 42\<rparr>,
        \<lparr>fv_Value = ''VisioTech'', fv_Count = 38\<rparr>, \<lparr>fv_Value = ''KeyCraft'', fv_Count = 25\<rparr>]\<rparr>,
      \<lparr>fa_Key = ''price'', fa_Values = [\<lparr>fv_Value = ''0-50'', fv_Count = 120\<rparr>,
        \<lparr>fv_Value = ''50-200'', fv_Count = 89\<rparr>, \<lparr>fv_Value = ''200+'', fv_Count = 31\<rparr>]\<rparr>]"

definition genCategory :: "inputs \<Rightarrow> (fexpr \<Rightarrow> string) \<Rightarrow> generator \<Rightarrow> string \<Rightarrow> (string \<times> string) gen" where
  "genCategory I render g pfx = do {
     cat \<leftarrow> pick I (g_categories g);
     n \<leftarrow> rndN I 200;
     ids \<leftarrow> repeat_gen (nat (50 + n)) (do {
       k \<leftarrow> rndN I 9000;
       State_Monad.return (''prod_'' @ map ascii_lower (ca_Slug cat) @ ''_'' @ Itoa (1000 + k)) });
     total \<leftarrow> rndN I 4500;
     page \<leftarrow> rndN I 10;
     sort \<leftarrow> pick I [''relevance'', ''price_asc'', ''price_desc'', ''rating'', ''newest''];
     keyPage \<leftarrow> rndN I 10;
     State_Monad.return (pfx @ '':cache:category:'' @ ca_Slug cat @ '':page:'' @ Itoa (1 + keyPage),
       marshal render (json_category
         \<lparr>cp_Slug = ca_Slug cat, cp_Name = ca_Name cat, cp_Description = ca_Description cat, cp_ProductIDs = ids,
          cp_TotalCount = 500 + total, cp_Page = 1 + page, cp_PageSize = 50, cp_Facets = facets,
          cp_SortOption = sort\<rparr>)) }"

definition genItem :: "inputs \<Rightarrow> (string \<times> jval) list gen" where
  "genItem I = do {
     n \<leftarrow> rndN I 100000;
     score \<leftarrow> rndN I 100;
     State_Monad.return [(''id'', JString (''item_'' @ Itoa n)), (''name'', JString ''Sample Item''),
       (''score'', JFloat (FDiv score 100))] }"

definition genAPIResponse :: "inputs \<Rightarrow> (fexpr \<Rightarrow> string) \<Rightarrow> generator \<Rightarrow> string \<Rightarrow> (string \<times> string) gen" where
  "genAPIResponse I render g pfx = do {
     pathFmt \<leftarrow> pick I (g_apiPaths g);
     user \<leftarrow> usr I;
     prod \<leftarrow> rndN I 9000;
     let path = sprintf_s pathFmt [user, ''prod_'' @ Itoa (1000 + prod)];
     items \<leftarrow> repeat_gen 4 (genItem I);
     total \<leftarrow> rndN I 9800;
     pages \<leftarrow> rndN I 20;
     cursor \<leftarrow> uuid4 I;
     request \<leftarrow> uuid4 I;
     t \<leftarrow> time_now I;
     State_Monad.return (pfx @ '':cache:api:'' @ hex_nat (unat (pathHash path)), marshal render (json_response
       \<lparr>ar_Data = items,
        ar_Meta = \<lparr>me_Page = 1, me_PageSize = 50, me_TotalCount = 200 + total, me_TotalPages = 5 + pages,
                   me_NextCursor = cursor\<rparr>,
        ar_RequestID = request, ar_ServerTime = rfc3339 t\<rparr>)) }"

definition genRateLimit :: "inputs \<Rightarrow> generator \<Rightarrow> string \<Rightarrow> (string \<times> string) gen" where
  "genRateLimit I g pfx = do {
     addr \<leftarrow> pick I (g_ips g);
     window \<leftarrow> pick I [''1m'', ''5m'', ''15m'', ''1h''];
     limit \<leftarrow> rndN I 900;
     State_Monad.return (pfx @ '':ratelimit:'' @ addr @ '':'' @ window, Itoa (100 + limit)) }"

definition genFeatureFlag :: "inputs \<Rightarrow> (fexpr \<Rightarrow> string) \<Rightarrow> generator \<Rightarrow> string \<Rightarrow> (string \<times> string) gen" where
  "genFeatureFlag I render g pfx = do {
     ft \<leftarrow> pick I (g_featureFlags g);
     enabled \<leftarrow> coin I;
     rollout \<leftarrow> pick I [0, 5, 10, 25, 50, 75, 100];
     t \<leftarrow> time_now I;
     age \<leftarrow> rndN I 720;
     State_Monad.return (pfx @ '':feature:'' @ ft_Name ft, marshal render (json_flag
       \<lparr>ff_Name = ft_Name ft, ff_Description = ft_Description ft, ff_Enabled = enabled, ff_Rollout = rollout,
        ff_Variants = [''control'', ''treatment_a'', ''treatment_b''], ff_UpdatedAt = rfc3339 (t - age * hours)\<rparr>)) }"

definition genStickyLB :: "inputs \<Rightarrow> string \<Rightarrow> (string \<times> string) gen" where
  "genStickyLB I pfx = do {
     sid \<leftarrow> uuid4 I;
     n \<leftarrow> rndN I 10;
     State_Monad.return (pfx @ '':lb:sticky:'' @ sid, ''backend-'' @ Itoa (1 + n) @ ''.example.internal'') }"

definition genKeyValue ::
  "inputs \<Rightarrow> (fexpr \<Rightarrow> string) \<Rightarrow> generator \<Rightarrow> string \<Rightarrow> nat \<Rightarrow> (string \<times> string) gen" where
  "genKeyValue I render g pfx idx =
     (if idx mod 8 = 0 then genSession I render g pfx
      else if idx mod 8 = 1 then genUserProfile I render g pfx
      else if idx mod 8 = 2 then genProduct I render g pfx
      else if idx mod 8 = 3 then genCategory I render g pfx
      else if idx mod 8 = 4 then genAPIResponse I render g pfx
      else if idx mod 8 = 5 then genRateLimit I g pfx
      else if idx mod 8 = 6 then genFeatureFlag I render g pfx
      else genStickyLB I pfx)"

end
