(* ===== verification/Failover_Probe.thy ===== *)
theory Failover_Probe
  imports Tool_Client "HOL-Library.Word"
begin

text \<open>
  \<^verbatim>\<open>tools/failover-probe/main.go\<close>: a client that holds one connection to the write service of a
  replication set, reads a key and increments a counter on every tick, and measures for how
  long writes fail during a failover.

  The signal and the ticker are inputs, as in the run loop of the controller. The log is what the
  tool is for, so it is part of the state, with one constructor for each kind of line. The
  random numbers of \<^verbatim>\<open>math/rand\<close> are the argument \<open>rnd\<close>. The loop of \<^verbatim>\<open>scanKeys\<close> asks until
  the server's cursor returns to zero, which a server need not let happen: it has fuel, the
  number of \<^verbatim>\<open>SCAN\<close> commands, and the result \<open>None\<close> when the fuel is used up.
\<close>

section \<open>Configuration and state\<close>

record probe_config =
  pc_addr :: string
  pc_interval :: int
  pc_dialTimeout :: int
  pc_cmdTimeout :: int
  pc_probeKey :: string
  pc_dataPrefix :: string
  pc_logEvery :: int

definition probe_loadConfig :: "(nat \<Rightarrow> nat \<Rightarrow> nat \<Rightarrow> nat) \<Rightarrow> environ \<Rightarrow> probe_config" where
  "probe_loadConfig frac environ =
     \<lparr>pc_addr = env environ ''TARGET_ADDR'' ''redis-write-cache.redis-test-enes.svc.cluster.local:6379'',
      pc_interval = envDur frac environ ''PROBE_INTERVAL'' 250000000,
      pc_dialTimeout = envDur frac environ ''DIAL_TIMEOUT'' 1000000000,
      pc_cmdTimeout = envDur frac environ ''CMD_TIMEOUT'' 1000000000,
      pc_probeKey = env environ ''PROBE_KEY'' ''failover-probe:counter'',
      pc_dataPrefix = env environ ''DATA_PREFIX'' ''ld'',
      pc_logEvery = envInt environ ''LOG_EVERY'' 20\<rparr>"

record stats =
  st_ok :: int
  st_readonly :: int
  st_disconnect :: int
  st_dialErr :: int
  st_readOK :: int
  st_readMiss :: int

definition stats_String :: "stats \<Rightarrow> string" where
  "stats_String s = ''ok='' @ Itoa (st_ok s) @ '' readonly='' @ Itoa (st_readonly s) @
     '' disconnect='' @ Itoa (st_disconnect s) @ '' dial-err='' @ Itoa (st_dialErr s) @
     '' read-ok='' @ Itoa (st_readOK s) @ '' read-miss='' @ Itoa (st_readMiss s)"

datatype probe_error = ReplyError redis_error | UnexpectedReply string reply

datatype log_line =
    DialErr io_error
  | EndpointChanged string string string
  | Connected string string int
  | Reconnected string string int
  | Scanned nat string
  | ReadOnly "string option"              \<comment> \<open>the key of a \<^verbatim>\<open>GET\<close>, \<open>None\<close> for the write\<close>
  | Disconnect "string option" probe_error
  | Recovered int string int
  | OK int int int string nat string string
  | Stop string

record probe_state =
  ps_conn :: "sock option"
  ps_backend :: string
  ps_outageStart :: "int option"          \<comment> \<open>\<open>None\<close> is the zero time\<close>
  ps_st :: stats
  ps_tick :: int
  ps_sampleKeys :: "string list"
  ps_log :: "log_line list"

definition log_probe :: "log_line \<Rightarrow> probe_state \<Rightarrow> probe_state" where
  "log_probe l s = s\<lparr>ps_log := ps_log s @ [l]\<rparr>"

section \<open>Sample keys\<close>

text \<open>\<^verbatim>\<open>%08x\<close> of a \<^verbatim>\<open>uint32\<close>.\<close>

definition hex8 :: "32 word \<Rightarrow> string" where
  "hex8 w = map (\<lambda>i. hex_digit (unat w div 16 ^ i mod 16)) [7, 6, 5, 4, 3, 2, 1, 0]"

text \<open>The pattern of the \<open>i\<close>-th key.\<close>

definition sample_pattern :: "string \<Rightarrow> nat \<Rightarrow> string" where
  "sample_pattern pfx i = pfx @
     ['':session:'',
      '':user:usr_'' @ Itoa (100000 + int (i mod 900000)) @ '':profile'',
      '':cache:product:prod_'' @ Itoa (1000 + int (i mod 9000)),
      '':cache:category:'', '':cache:api:'', '':ratelimit:'', '':feature:'', '':lb:sticky:''] ! (i mod 8)"

text \<open>\<open>n\<close> random numbers have been drawn before the \<open>i\<close>-th key.\<close>

fun sample_keys :: "string \<Rightarrow> (nat \<Rightarrow> 32 word) \<Rightarrow> nat \<Rightarrow> nat \<Rightarrow> nat \<Rightarrow> string list" where
  "sample_keys pfx rnd i n 0 = []"
| "sample_keys pfx rnd i n (Suc m) =
     (let k = sample_pattern pfx i in
      if \<not> has_suffix k '':'' then k # sample_keys pfx rnd (Suc i) n m
      else (k @ hex8 (rnd n)) # sample_keys pfx rnd (Suc i) (Suc n) m)"

definition buildSampleKeys :: "string \<Rightarrow> (nat \<Rightarrow> 32 word) \<Rightarrow> nat \<Rightarrow> string list" where
  "buildSampleKeys pfx rnd cnt = sample_keys pfx rnd 0 0 cnt"

section \<open>Commands\<close>

definition probe_do :: "world \<Rightarrow> int \<Rightarrow> sock \<Rightarrow> string list \<Rightarrow> ((redis_error + reply) \<times> sock) run" where
  "probe_do W timeout c args =
     bind_io (now W) (\<lambda>t. bind_io (set_deadline W c (t + timeout)) (\<lambda>r.
       case r of
         Some e \<Rightarrow> ret (Inl (IOError e), c)
       | None \<Rightarrow> bind_io (sock_write W c (writeCmd args)) (\<lambda>r.
           case r of
             Some e \<Rightarrow> ret (Inl (IOError e), c)
           | None \<Rightarrow> read_reply W c)))"

definition get_value :: "redis_error + reply \<Rightarrow> probe_error + string" where
  "get_value r = (case r of
      Inl e \<Rightarrow> Inl (ReplyError e)
    | Inr RNil \<Rightarrow> Inr []
    | Inr (RStr s) \<Rightarrow> Inr s
    | Inr v \<Rightarrow> Inl (UnexpectedReply ''GET'' v))"

definition probe_get :: "world \<Rightarrow> int \<Rightarrow> sock \<Rightarrow> string \<Rightarrow> ((probe_error + string) \<times> sock) run" where
  "probe_get W timeout c key =
     bind_io (probe_do W timeout c [''GET'', key]) (\<lambda>(r, c'). ret (get_value r, c'))"

definition incr_value :: "redis_error + reply \<Rightarrow> probe_error + int" where
  "incr_value r = (case r of
      Inl e \<Rightarrow> Inl (ReplyError e)
    | Inr (RInt n) \<Rightarrow> Inr n
    | Inr v \<Rightarrow> Inl (UnexpectedReply ''INCR'' v))"

definition probe_incr :: "world \<Rightarrow> int \<Rightarrow> sock \<Rightarrow> string \<Rightarrow> ((probe_error + int) \<times> sock) run" where
  "probe_incr W timeout c key =
     bind_io (probe_do W timeout c [''INCR'', key]) (\<lambda>(r, c'). ret (incr_value r, c'))"

text \<open>The number of keys in the last \<^verbatim>\<open>db0\<close> line.\<close>

definition db_size :: "string \<Rightarrow> int" where
  "db_size s = foldl (\<lambda>n ln.
       if has_prefix ln ''db0:keys=''
       then fst (ParseInt (takeWhile (\<lambda>c. c \<noteq> CHR '','') (drop 9 ln))) else n)
     0 (map trim_space (split_on (CHR 0x0A) s))"

definition probe_identify :: "world \<Rightarrow> int \<Rightarrow> sock \<Rightarrow> ((string \<times> string \<times> int) \<times> sock) run" where
  "probe_identify W timeout c =
     bind_io (probe_do W timeout c [''INFO'']) (\<lambda>(r, c').
       ret (case r of
              Inl _ \<Rightarrow> ([], [], 0)
            | Inr v \<Rightarrow> (infoField (str_of v) ''run_id:'', infoField (str_of v) ''role:'', db_size (str_of v)),
            c'))"

definition isReadOnly :: "probe_error \<Rightarrow> bool" where
  "isReadOnly e = (case e of ReplyError (RedisError msg) \<Rightarrow> has_prefix msg ''READONLY'' | _ \<Rightarrow> False)"

section \<open>scanKeys\<close>

text \<open>The inner loop: append string keys until the limit is reached (\<open>True\<close>).\<close>

fun take_keys :: "int \<Rightarrow> string list \<Rightarrow> reply list \<Rightarrow> string list \<times> bool" where
  "take_keys limit keys [] = (keys, False)"
| "take_keys limit keys (RStr s # vs) =
     (let keys' = keys @ [s] in
      if limit \<le> int (length keys') then (keys', True) else take_keys limit keys' vs)"
| "take_keys limit keys (v # vs) = take_keys limit keys vs"

text \<open>One round: the keys so far, and the next cursor, or \<open>None\<close> to return.\<close>

definition scan_round :: "int \<Rightarrow> string list \<Rightarrow> redis_error + reply \<Rightarrow> string list \<times> string option" where
  "scan_round limit keys r = (case r of
      Inr (RArr (v0 # v1 # _)) \<Rightarrow>
        let cursor = str_of v0;
            (keys', full) = (case v1 of RArr ks \<Rightarrow> take_keys limit keys ks | _ \<Rightarrow> (keys, False))
        in (keys', if full \<or> cursor = ''0'' then None else Some cursor)
    | _ \<Rightarrow> (keys, None))"

fun scan_from ::
  "nat \<Rightarrow> world \<Rightarrow> int \<Rightarrow> string \<Rightarrow> int \<Rightarrow> string \<Rightarrow> string list \<Rightarrow> sock \<Rightarrow> (string list option \<times> sock) run" where
  "scan_from 0 W timeout pfx limit cursor keys c = ret (None, c)"
| "scan_from (Suc fuel) W timeout pfx limit cursor keys c =
     bind_io (probe_do W timeout c [''SCAN'', cursor, ''MATCH'', pfx @ '':*'', ''COUNT'', ''50'']) (\<lambda>(r, c').
       case scan_round limit keys r of
         (keys', None) \<Rightarrow> ret (Some keys', c')
       | (keys', Some cursor') \<Rightarrow> scan_from fuel W timeout pfx limit cursor' keys' c')"

definition scanKeys ::
  "nat \<Rightarrow> world \<Rightarrow> int \<Rightarrow> sock \<Rightarrow> string \<Rightarrow> int \<Rightarrow> (string list option \<times> sock) run" where
  "scanKeys fuel W timeout c pfx limit = scan_from fuel W timeout pfx limit ''0'' [] c"

section \<open>The loop\<close>

definition closeConn :: "probe_state \<Rightarrow> probe_state run" where
  "closeConn s = (case ps_conn s of
      None \<Rightarrow> ret s
    | Some c \<Rightarrow> bind_io (sock_close c) (\<lambda>_. ret (s\<lparr>ps_conn := None\<rparr>)))"

definition noteFailure :: "world \<Rightarrow> probe_state \<Rightarrow> probe_state run" where
  "noteFailure W s = (case ps_outageStart s of
      None \<Rightarrow> bind_io (now W) (\<lambda>t. ret (s\<lparr>ps_outageStart := Some t\<rparr>))
    | Some _ \<Rightarrow> ret s)"

definition connect_line :: "string \<Rightarrow> string \<Rightarrow> string \<Rightarrow> int \<Rightarrow> log_line" where
  "connect_line backend runid role dbSize =
     (if backend \<noteq> [] \<and> runid \<noteq> [] \<and> runid \<noteq> backend then EndpointChanged (short runid) role (short backend)
      else if backend = [] then Connected (short runid) role dbSize
      else Reconnected (short runid) role dbSize)"

datatype conn_result = Conn sock | NoConn | StillScanning

text \<open>(Re)establish the connection if needed.\<close>

definition dial_failed :: "world \<Rightarrow> io_error \<Rightarrow> probe_state \<Rightarrow> probe_state run" where
  "dial_failed W e s =
     bind_io (noteFailure W (s\<lparr>ps_st := (ps_st s)\<lparr>st_dialErr := incr64 (st_dialErr (ps_st s))\<rparr>\<rparr>)) (\<lambda>s1.
       ret (log_probe (DialErr e) s1))"

definition greet :: "string \<times> string \<times> int \<Rightarrow> probe_state \<Rightarrow> probe_state" where
  "greet ident s = (case ident of (runid, role, dbSize) \<Rightarrow>
     let s1 = log_probe (connect_line (ps_backend s) runid role dbSize) s
     in if runid \<noteq> [] then s1\<lparr>ps_backend := runid\<rparr> else s1)"

definition adopt_keys :: "probe_config \<Rightarrow> string list \<Rightarrow> probe_state \<Rightarrow> probe_state" where
  "adopt_keys cfg discovered s =
     (if 0 < length discovered
      then log_probe (Scanned (length discovered) (pc_dataPrefix cfg)) (s\<lparr>ps_sampleKeys := discovered\<rparr>)
      else s)"

definition on_connect :: "world \<Rightarrow> probe_config \<Rightarrow> nat \<Rightarrow> sock \<Rightarrow> probe_state \<Rightarrow> (conn_result \<times> probe_state) run" where
  "on_connect W cfg fuel c0 s =
     bind_io (probe_identify W (pc_cmdTimeout cfg) c0) (\<lambda>(ident, c1).
     bind_io (scanKeys fuel W (pc_cmdTimeout cfg) c1 (pc_dataPrefix cfg) 100) (\<lambda>(found, c2).
       case found of
         None \<Rightarrow> ret (StillScanning, (greet ident s)\<lparr>ps_conn := Some c2\<rparr>)
       | Some discovered \<Rightarrow> ret (Conn c2, (adopt_keys cfg discovered (greet ident s))\<lparr>ps_conn := Some c2\<rparr>)))"

definition ensure_conn :: "world \<Rightarrow> probe_config \<Rightarrow> nat \<Rightarrow> probe_state \<Rightarrow> (conn_result \<times> probe_state) run" where
  "ensure_conn W cfg fuel s = (case ps_conn s of
      Some c \<Rightarrow> ret (Conn c, s)
    | None \<Rightarrow> bind_io (dial W (pc_addr cfg) (pc_dialTimeout cfg)) (\<lambda>r. case r of
        Inl e \<Rightarrow> bind_io (dial_failed W e s) (\<lambda>s1. ret (NoConn, s1))
      | Inr c0 \<Rightarrow> on_connect W cfg fuel c0 s))"

text \<open>What happens after a failed \<^verbatim>\<open>GET\<close> (of the key \<open>what\<close>) or a failed write (\<open>None\<close>).\<close>

definition exchange_failed :: "world \<Rightarrow> string option \<Rightarrow> probe_error \<Rightarrow> probe_state \<Rightarrow> probe_state run" where
  "exchange_failed W what e s =
     bind_io (noteFailure W s) (\<lambda>s1.
       let st = ps_st s1 in
       closeConn
         (if isReadOnly e
          then log_probe (ReadOnly what) (s1\<lparr>ps_st := st\<lparr>st_readonly := incr64 (st_readonly st)\<rparr>\<rparr>)
          else log_probe (Disconnect what e) (s1\<lparr>ps_st := st\<lparr>st_disconnect := incr64 (st_disconnect st)\<rparr>\<rparr>)))"

definition count_read :: "string \<Rightarrow> stats \<Rightarrow> stats" where
  "count_read val st =
     (if val \<noteq> [] then st\<lparr>st_readOK := incr64 (st_readOK st)\<rparr> else st\<lparr>st_readMiss := incr64 (st_readMiss st)\<rparr>)"

definition on_success ::
  "world \<Rightarrow> probe_config \<Rightarrow> string \<Rightarrow> string \<Rightarrow> int \<Rightarrow> int \<Rightarrow> int \<Rightarrow> probe_state \<Rightarrow> probe_state run" where
  "on_success W cfg readKey val n readRTT writeRTT s0 =
     (let st = ps_st s0; s = s0\<lparr>ps_st := st\<lparr>st_ok := incr64 (st_ok st)\<rparr>\<rparr> in
      bind_io (case ps_outageStart s of
          None \<Rightarrow> ret s
        | Some t0 \<Rightarrow> bind_io (since W t0) (\<lambda>d.
            ret ((log_probe (Recovered (round_duration d 1000000) (short (ps_backend s)) n) s)
                   \<lparr>ps_outageStart := None\<rparr>))) (\<lambda>s1.
      ret (if 0 < pc_logEvery cfg \<and> st_ok (ps_st s1) mod pc_logEvery cfg = 0
           then log_probe (OK n (round_duration readRTT 1000) (round_duration writeRTT 1000) readKey
                  (length val) (short (ps_backend s1)) (stats_String (ps_st s1))) s1
           else s1)))"

text \<open>\<^verbatim>\<open>sampleKeys[int(tick)%len(sampleKeys)]\<close>: Go's remainder has the sign of the dividend.\<close>

definition pick_key :: "int \<Rightarrow> string list \<Rightarrow> string out" where
  "pick_key tick keys =
     (if keys = [] then Panic
      else if tick < 0 \<and> tick mod int (length keys) \<noteq> 0 then Panic
      else Done (keys ! nat (tick mod int (length keys))))"

definition use_conn :: "world \<Rightarrow> probe_config \<Rightarrow> sock \<Rightarrow> probe_state \<Rightarrow> probe_state run" where
  "use_conn W cfg c s = (case pick_key (ps_tick s) (ps_sampleKeys s) of
      Panic \<Rightarrow> panic
    | Done readKey \<Rightarrow>
        bind_io (now W) (\<lambda>readStart.
        bind_io (probe_get W (pc_cmdTimeout cfg) c readKey) (\<lambda>(r, c1).
        bind_io (since W readStart) (\<lambda>readRTT.
        case r of
          Inl e \<Rightarrow> exchange_failed W (Some readKey) e (s\<lparr>ps_conn := Some c1\<rparr>)
        | Inr val \<Rightarrow>
            let s1 = s\<lparr>ps_st := count_read val (ps_st s)\<rparr> in
            bind_io (now W) (\<lambda>writeStart.
            bind_io (probe_incr W (pc_cmdTimeout cfg) c1 (pc_probeKey cfg)) (\<lambda>(r, c2).
            bind_io (since W writeStart) (\<lambda>writeRTT.
            case r of
              Inl e \<Rightarrow> exchange_failed W None e (s1\<lparr>ps_conn := Some c2\<rparr>)
            | Inr n \<Rightarrow> on_success W cfg readKey val n readRTT writeRTT (s1\<lparr>ps_conn := Some c2\<rparr>))))))))"

text \<open>One iteration of the loop after the ticker has fired; \<open>False\<close> when it is still in \<^verbatim>\<open>scanKeys\<close>.\<close>

definition probe_tick :: "world \<Rightarrow> probe_config \<Rightarrow> nat \<Rightarrow> probe_state \<Rightarrow> (bool \<times> probe_state) run" where
  "probe_tick W cfg fuel s =
     bind_io (ensure_conn W cfg fuel (s\<lparr>ps_tick := incr64 (ps_tick s)\<rparr>)) (\<lambda>(r, s1). case r of
       Conn c \<Rightarrow> bind_io (use_conn W cfg c s1) (\<lambda>s2. ret (True, s2))
     | NoConn \<Rightarrow> ret (True, s1)
     | StillScanning \<Rightarrow> ret (False, s1))"

datatype probe_input = TickC | StopSignal

datatype probe_status = Waiting | Stopped | Scanning

fun probe_loop ::
  "world \<Rightarrow> probe_config \<Rightarrow> nat \<Rightarrow> probe_input list \<Rightarrow> probe_state \<Rightarrow> (probe_status \<times> probe_state) run" where
  "probe_loop W cfg fuel [] s = ret (Waiting, s)"
| "probe_loop W cfg fuel (StopSignal # ins) s =
     bind_io (closeConn (log_probe (Stop (stats_String (ps_st s))) s)) (\<lambda>s1. ret (Stopped, s1))"
| "probe_loop W cfg fuel (TickC # ins) s =
     bind_io (probe_tick W cfg fuel s) (\<lambda>(ok, s1).
       if ok then probe_loop W cfg fuel ins s1 else ret (Scanning, s1))"

definition probe_start :: "probe_config \<Rightarrow> (nat \<Rightarrow> 32 word) \<Rightarrow> probe_state" where
  "probe_start cfg rnd =
     \<lparr>ps_conn = None, ps_backend = [], ps_outageStart = None,
      ps_st = \<lparr>st_ok = 0, st_readonly = 0, st_disconnect = 0, st_dialErr = 0, st_readOK = 0, st_readMiss = 0\<rparr>,
      ps_tick = 0, ps_sampleKeys = buildSampleKeys (pc_dataPrefix cfg) rnd 200, ps_log = []\<rparr>"

text \<open>\<^verbatim>\<open>main\<close>: \<^verbatim>\<open>time.NewTicker\<close> panics unless the interval is positive.\<close>

definition probe_main ::
  "world \<Rightarrow> probe_config \<Rightarrow> (nat \<Rightarrow> 32 word) \<Rightarrow> nat \<Rightarrow> probe_input list \<Rightarrow> (probe_status \<times> probe_state) run" where
  "probe_main W cfg rnd fuel ins =
     (if pc_interval cfg \<le> 0 then panic else probe_loop W cfg fuel ins (probe_start cfg rnd))"

end
