(* ===== verification/Failover_Probe_Props.thy ===== *)
theory Failover_Probe_Props
  imports Failover_Probe "HOL-Library.Sublist"
begin

text \<open>
  What the failover probe reports: every tick is counted once, as a success or as one kind of
  failure; an outage begins with the first failure after a success and is measured at the next
  success; the search for keys ends and stays within its limit.
\<close>

section \<open>The search for keys\<close>

text \<open>The keys that one reply to \<^verbatim>\<open>SCAN\<close> brings, and the cursor with which the search goes on, if it does.\<close>

definition strings :: "reply list \<Rightarrow> string list" where
  "strings vs = List.map_filter (\<lambda>v. case v of RStr s \<Rightarrow> Some s | _ \<Rightarrow> None) vs"

definition page :: "redis_error + reply \<Rightarrow> string list" where
  "page r = (case r of Inr (RArr (_ # RArr ks # _)) \<Rightarrow> strings ks | _ \<Rightarrow> [])"

definition next_cursor :: "redis_error + reply \<Rightarrow> string option" where
  "next_cursor r = (case r of
      Inr (RArr (v # _ # _)) \<Rightarrow> if str_of v = ''0'' then None else Some (str_of v)
    | _ \<Rightarrow> None)"

lemma strings_Cons: "strings (v # vs) = (case v of RStr s \<Rightarrow> [s] | _ \<Rightarrow> []) @ strings vs"
  by (simp add: strings_def map_filter_simps split: reply.splits)

lemma take_keys_eq:
  "int (length keys) < limit \<Longrightarrow> take_keys limit keys vs =
     (take (nat limit) (keys @ strings vs), limit \<le> int (length (keys @ strings vs)))"
proof (induction limit keys vs rule: take_keys.induct)
  case (1 limit keys)
  then show ?case by (simp add: strings_def map_filter_simps)
next
  case (2 limit keys s vs)
  show ?case
  proof (cases "limit \<le> int (length (keys @ [s]))")
    case True
    then have "nat limit = length (keys @ [s])" using 2(2) by simp
    then show ?thesis using True by (simp add: Let_def strings_Cons)
  next
    case False
    then show ?thesis using 2(1)[OF refl] by (simp add: Let_def strings_Cons)
  qed
qed (simp_all add: strings_Cons)

lemma scan_round_eq:
  assumes "int (length keys) < limit"
  shows "scan_round limit keys r =
    (take (nat limit) (keys @ page r),
     if limit \<le> int (length (keys @ page r)) then None else next_cursor r)"
proof -
  have "take (nat limit) keys = keys" "\<not> limit \<le> int (length keys)" using assms by simp_all
  then show ?thesis
    using take_keys_eq[OF assms]
    by (auto simp: scan_round_def page_def next_cursor_def Let_def split: sum.splits reply.splits list.splits)
qed

text \<open>
  The replies of a search: each goes on to the next one, and the last one ends the search
  or fills the list up to the limit.
\<close>

fun search :: "int \<Rightarrow> string list \<Rightarrow> (redis_error + reply) list \<Rightarrow> bool" where
  "search limit keys [] \<longleftrightarrow> False"
| "search limit keys (r # rs) \<longleftrightarrow>
     (if limit \<le> int (length (keys @ page r)) \<or> next_cursor r = None then rs = []
      else search limit (keys @ page r) rs)"

text \<open>
  The replies that a search is given, in their order: each is the reply to a \<^verbatim>\<open>SCAN\<close> command
  that carries the cursor of the one before it.
\<close>

abbreviation scan_cmd :: "string \<Rightarrow> string \<Rightarrow> string list" where
  "scan_cmd pfx cursor \<equiv> [''SCAN'', cursor, ''MATCH'', pfx @ '':*'', ''COUNT'', ''50'']"

inductive scan_dialogue ::
  "world \<Rightarrow> int \<Rightarrow> string \<Rightarrow> string \<Rightarrow> sock \<Rightarrow> event list \<Rightarrow> (redis_error + reply) list \<Rightarrow> sock \<Rightarrow> event list \<Rightarrow> bool"
  for W timeout pfx where
  last: "probe_do W timeout c (scan_cmd pfx cursor) h = (Done (r, c'), h') \<Longrightarrow>
     scan_dialogue W timeout pfx cursor c h [r] c' h'"
| go_on: "probe_do W timeout c (scan_cmd pfx cursor) h = (Done (r, c1), h1) \<Longrightarrow> next_cursor r = Some cursor' \<Longrightarrow>
     scan_dialogue W timeout pfx cursor' c1 h1 rs c' h' \<Longrightarrow> scan_dialogue W timeout pfx cursor c h (r # rs) c' h'"

inductive_cases scan_dialogueE: "scan_dialogue W timeout pfx cursor c h rs c' h'"

section \<open>The tool does not crash\<close>

abbreviation drained :: "sock \<Rightarrow> bool" where
  "drained c \<equiv> sock_buf c = []"

lemma returns_probe_do:
  assumes "clean_recv W" "drained c"
  shows "returns (probe_do W timeout c args) (\<lambda>x. drained (snd x))"
  unfolding probe_do_def
  by (rule returns_bind[OF returns_now], rule returns_bind[OF returns_tool(3)])
    (auto split: option.splits intro!: returns_ret returns_bind[OF returns_tool(4)] returns_read_reply assms
      simp: assms)

lemma returns_commands:
  assumes "clean_recv W" "drained c"
  shows "returns (probe_get W timeout c key) (\<lambda>x. drained (snd x))"
    and "returns (probe_incr W timeout c key) (\<lambda>x. drained (snd x))"
    and "returns (probe_identify W timeout c) (\<lambda>x. drained (snd x))"
  unfolding probe_get_def probe_incr_def probe_identify_def
  by (auto intro!: returns_bind[OF returns_probe_do[OF assms]] returns_ret split: prod.splits)

lemma returns_scan_from:
  "clean_recv W \<Longrightarrow> drained c \<Longrightarrow> returns (scan_from fuel W timeout pfx limit cursor keys c) (\<lambda>x. drained (snd x))"
proof (induction fuel arbitrary: cursor keys c)
  case (Suc fuel)
  then show ?case
    by (auto intro!: returns_bind[OF returns_probe_do] returns_ret split: prod.splits option.splits)
qed (simp add: returns_ret)

text \<open>A server whose every reply brings a key, ends the search or is an error.\<close>

definition productive :: "redis_error + reply \<Rightarrow> bool" where
  "productive r \<longleftrightarrow> page r \<noteq> [] \<or> next_cursor r = None"

definition scanned ::
  "world \<Rightarrow> int \<Rightarrow> string \<Rightarrow> int \<Rightarrow> string list \<Rightarrow> string \<Rightarrow> sock \<Rightarrow> event list \<Rightarrow> string list option \<times> sock \<Rightarrow> event list \<Rightarrow> bool" where
  "scanned W timeout pfx limit keys cursor c h x h' \<longleftrightarrow>
     (\<exists>rs. scan_dialogue W timeout pfx cursor c h rs (snd x) h' \<and> search limit keys rs \<and>
        length rs \<le> nat limit - length keys \<and> fst x = Some (take (nat limit) (keys @ concat (map page rs))))"

lemma scanned_last:
  assumes "probe_do W timeout c (scan_cmd pfx cursor) h = (Done (r, c'), h')" "int (length keys) < limit"
    and "limit \<le> int (length (keys @ page r)) \<or> next_cursor r = None"
  shows "scanned W timeout pfx limit keys cursor c h (Some (take (nat limit) (keys @ page r)), c') h'"
  using scan_dialogue.last[OF assms(1)] assms(2,3) unfolding scanned_def by (intro exI[of _ "[r]"]) auto

lemma scanned_more:
  assumes "probe_do W timeout c (scan_cmd pfx cursor) h = (Done (r, c1), h1)" "next_cursor r = Some cur"
    and "int (length (keys @ page r)) < limit" "page r \<noteq> []"
    and "scanned W timeout pfx limit (keys @ page r) cur c1 h1 x h'"
  shows "scanned W timeout pfx limit keys cursor c h x h'"
proof -
  obtain rs where rs: "scan_dialogue W timeout pfx cur c1 h1 rs (snd x) h'" "search limit (keys @ page r) rs"
      "length rs \<le> nat limit - length (keys @ page r)" "fst x = Some (take (nat limit) ((keys @ page r) @ concat (map page rs)))"
    using assms(5) unfolding scanned_def by blast
  have "0 < length (page r)" using assms(4) by simp
  with rs(3) assms(3) have "length (r # rs) \<le> nat limit - length keys" by (simp only: length_append length_Cons)
  with scan_dialogue.go_on[OF assms(1,2) rs(1)] rs(2,4) assms(2,3) show ?thesis
    unfolding scanned_def by (intro exI[of _ "r # rs"]) (auto simp del: take_append)
qed

lemma scan_from_scanned:
  assumes prod: "\<And>cursor c h. drained c \<Longrightarrow>
      wp (probe_do W timeout c (scan_cmd pfx cursor)) (\<lambda>(r, c') _. productive r) h"
    and clean: "clean_recv W"
    and "drained c" "int (length keys) < limit" "nat limit - length keys \<le> fuel"
  shows "wp (scan_from fuel W timeout pfx limit cursor keys c) (scanned W timeout pfx limit keys cursor c h) h"
  using assms(3-5)
proof (induction fuel arbitrary: cursor keys c h)
  case 0
  then show ?case by simp
next
  case (Suc fuel)
  show ?case
    unfolding scan_from.simps wp_bind
  proof (rule wp_mono[OF wp_conj[OF wp_self wp_conj[OF prod[OF Suc.prems(1)] returns_wp[OF returns_probe_do[OF clean Suc.prems(1)]]]]],
      goal_cases)
    case (1 x h1)
    obtain r c1 where x: "x = (r, c1)" by fastforce
    have do: "probe_do W timeout c (scan_cmd pfx cursor) h = (Done (r, c1), h1)" and r: "productive r" "drained c1"
      using 1 x by auto
    show ?case
    proof (cases "limit \<le> int (length (keys @ page r)) \<or> next_cursor r = None")
      case True
      then have "scan_round limit keys r = (take (nat limit) (keys @ page r), None)"
        by (auto simp: scan_round_eq[OF Suc.prems(2)])
      with scanned_last[OF do Suc.prems(2) True] x show ?thesis by (simp del: take_append)
    next
      case False
      then obtain cur where cur: "next_cursor r = Some cur" "int (length (keys @ page r)) < limit" by auto
      with r(1) have page: "page r \<noteq> []" by (simp add: productive_def)
      then have "0 < length (page r)" by simp
      with Suc.prems(3) have "nat limit - length (keys @ page r) \<le> fuel" by (simp only: length_append)
      from wp_mono[OF Suc.IH[OF r(2) cur(2) this] scanned_more[OF do cur page]]
      show ?thesis using cur x by (simp add: scan_round_eq[OF Suc.prems(2)])
    qed
  qed
qed

text \<open>
  C35. The search for sample keys comes to an end: against a server whose replies to \<^verbatim>\<open>SCAN\<close> are
  errors, end the search or bring a key, it ends after at most \<open>limit\<close> commands (so that
  fuel of at least \<open>limit\<close> gives a result), and its result is the first \<open>limit\<close> keys of
  the replies that the server gave to these commands, in their order. Each command carries the
  cursor of the reply before it, and the search stops at the first reply that has no further cursor
  or brings the limit.
\<close>

theorem scan_bounded_and_ends:
  assumes "0 < limit" "nat limit \<le> fuel" "clean_recv W" "sock_buf c = []"
    and "\<forall>cursor c h r c' h'. sock_buf c = [] \<and>
      probe_do W timeout c [''SCAN'', cursor, ''MATCH'', pfx @ '':*'', ''COUNT'', ''50''] h = (Done (r, c'), h') \<longrightarrow>
      productive r"
  shows "\<exists>rs c' h'. scanKeys fuel W timeout c pfx limit h =
      (Done (Some (take (nat limit) (concat (map page rs))), c'), h') \<and>
    scan_dialogue W timeout pfx ''0'' c h rs c' h' \<and> search limit [] rs \<and> length rs \<le> nat limit"
proof -
  let ?scan = "scan_from fuel W timeout pfx limit ''0'' [] c"
  have result: "wp ?scan (scanned W timeout pfx limit [] ''0'' c h) h"
    using assms by (intro scan_from_scanned) (auto simp: wp_def split: prod.splits out.splits)
  obtain found c' h' where "?scan h = (Done (found, c'), h')"
    using returns_scan_from[OF assms(3,4)] unfolding returns_def by fast
  with wpD[OF result this] show ?thesis by (auto simp: scanKeys_def scanned_def)
qed

section \<open>Every tick has one outcome\<close>

datatype outcome = Success | Refused | Lost | Unreachable

definition counted :: "outcome \<Rightarrow> stats \<Rightarrow> stats \<Rightarrow> bool" where
  "counted out st st' \<longleftrightarrow>
     st_ok st' = (if out = Success then incr64 (st_ok st) else st_ok st) \<and>
     st_readonly st' = (if out = Refused then incr64 (st_readonly st) else st_readonly st) \<and>
     st_disconnect st' = (if out = Lost then incr64 (st_disconnect st) else st_disconnect st) \<and>
     st_dialErr st' = (if out = Unreachable then incr64 (st_dialErr st) else st_dialErr st)"

definition outcome_of :: "probe_error \<Rightarrow> outcome" where
  "outcome_of e = (if isReadOnly e then Refused else Lost)"

lemma outcome_of_neq [simp]: "outcome_of e \<noteq> Success" "outcome_of e \<noteq> Unreachable" "Success \<noteq> outcome_of e"
  by (simp_all add: outcome_of_def)

definition is_recovered :: "log_line \<Rightarrow> bool" where
  "is_recovered l \<longleftrightarrow> (case l of Recovered _ _ _ \<Rightarrow> True | _ \<Rightarrow> False)"

text \<open>From \<open>s\<close> to \<open>s'\<close> the log has grown, and the lines \<open>Recovered\<close> among the new ones are \<open>ls\<close>.\<close>

definition reports :: "probe_state \<Rightarrow> log_line list \<Rightarrow> probe_state \<Rightarrow> bool" where
  "reports s ls s' \<longleftrightarrow> (\<exists>new. ps_log s' = ps_log s @ new \<and> filter is_recovered new = ls)"

lemma reports_trans: "reports s xs s1 \<Longrightarrow> reports s1 ys s2 \<Longrightarrow> reports s (xs @ ys) s2"
  unfolding reports_def by force

lemma reports_step [simp]:
  "ps_log s' = ps_log s \<Longrightarrow> reports s [] s'"
  "ps_log s' = ps_log s @ [l] \<Longrightarrow> reports s (if is_recovered l then [l] else []) s'"
  by (auto simp: reports_def)

text \<open>\<open>t\<close> is a time during the tick that began in the history \<open>h\<close> and ended in \<open>h'\<close>.\<close>

definition during :: "world \<Rightarrow> event list \<Rightarrow> event list \<Rightarrow> int \<Rightarrow> bool" where
  "during W h h' t \<longleftrightarrow> (\<exists>h1. prefix h h1 \<and> strict_prefix h1 h' \<and> t = w_now W h1)"

definition failed_tick :: "world \<Rightarrow> event list \<Rightarrow> probe_state \<Rightarrow> probe_state \<Rightarrow> event list \<Rightarrow> bool" where
  "failed_tick W h s s' h' \<longleftrightarrow> ps_conn s' = None \<and> reports s [] s' \<and>
     (\<exists>t. ps_outageStart s' = Some t \<and>
        (case ps_outageStart s of Some t0 \<Rightarrow> t = t0 | None \<Rightarrow> during W h h' t))"

definition good_tick :: "world \<Rightarrow> event list \<Rightarrow> probe_state \<Rightarrow> probe_state \<Rightarrow> event list \<Rightarrow> bool" where
  "good_tick W h s s' h' \<longleftrightarrow> ps_conn s' \<noteq> None \<and> ps_outageStart s' = None \<and>
     (case ps_outageStart s of
        None \<Rightarrow> reports s [] s'
      | Some t0 \<Rightarrow> \<exists>t n. during W h h' t \<and> reports s
          [Recovered (round_duration (max int64_min (min int64_max (t - t0))) 1000000) (short (ps_backend s')) n] s')"

text \<open>A successful tick has counted its read as a hit or a miss, one that found no server has not.\<close>

definition counted_read :: "outcome \<Rightarrow> stats \<Rightarrow> stats \<Rightarrow> bool" where
  "counted_read out st st' \<longleftrightarrow> (\<exists>k. (st_readOK st', st_readMiss st') =
       [(st_readOK st, st_readMiss st), (incr64 (st_readOK st), st_readMiss st),
        (st_readOK st, incr64 (st_readMiss st))] ! k \<and> k < 3 \<and>
       (out = Success \<longrightarrow> k \<noteq> 0) \<and> (out = Unreachable \<longrightarrow> k = 0))"

definition tick_post :: "world \<Rightarrow> event list \<Rightarrow> probe_state \<Rightarrow> outcome \<Rightarrow> probe_state \<Rightarrow> event list \<Rightarrow> bool" where
  "tick_post W h s out s' h' \<longleftrightarrow>
     ps_tick s' = incr64 (ps_tick s) \<and> (ps_sampleKeys s \<noteq> [] \<longrightarrow> ps_sampleKeys s' \<noteq> []) \<and>
     counted out (ps_st s) (ps_st s') \<and> counted_read out (ps_st s) (ps_st s') \<and>
     (if out = Success then good_tick W h s s' h' else failed_tick W h s s' h')"

lemma during_earlier: "prefix h0 h \<Longrightarrow> during W h h' t \<Longrightarrow> during W h0 h' t"
  unfolding during_def using prefix_order.trans by blast

lemma wp_bind_later:
  assumes "emits (\<lambda>_. True) m" "prefix h0 h" "\<And>x h1. prefix h0 h1 \<Longrightarrow> wp (f x) Q h1"
  shows "wp (bind_io m f) Q h"
proof (rule wp_bind_trace[OF assms(1)])
  fix x es
  have "prefix h0 (h @ es)" using assms(2) by (rule prefix_prefix)
  then show "wp (f x) Q (h @ es)" by (rule assms(3))
qed

lemma any_probe_do: "emits (\<lambda>_. True) (probe_do W timeout c args)"
  unfolding probe_do_def by (auto intro!: emits_rules split: option.splits)

lemma any_commands:
  "emits (\<lambda>_. True) (probe_get W timeout c key)" "emits (\<lambda>_. True) (probe_incr W timeout c key)"
  "emits (\<lambda>_. True) (probe_identify W timeout c)"
  unfolding probe_get_def probe_incr_def probe_identify_def
  by (auto intro!: emits_rules any_probe_do split: prod.splits)

lemma any_scan: "emits (\<lambda>_. True) (scan_from fuel W timeout pfx limit cursor keys c)"
  by (induction fuel arbitrary: cursor keys c)
    (auto intro!: emits_rules any_probe_do split: prod.splits option.splits)

text \<open>Between the start of a tick and its exchange nothing is counted and no outage ends.\<close>

definition prepared :: "probe_state \<Rightarrow> probe_state \<Rightarrow> bool" where
  "prepared s s' \<longleftrightarrow> ps_tick s' = ps_tick s \<and> (ps_sampleKeys s \<noteq> [] \<longrightarrow> ps_sampleKeys s' \<noteq> []) \<and>
     ps_st s' = ps_st s \<and> ps_outageStart s' = ps_outageStart s \<and> reports s [] s'"

lemma exchange_failed_post:
  "wp (exchange_failed W what e s) (\<lambda>s' h'.
     ps_tick s' = ps_tick s \<and> ps_sampleKeys s' = ps_sampleKeys s \<and>
     counted (outcome_of e) (ps_st s) (ps_st s') \<and>
     st_readOK (ps_st s') = st_readOK (ps_st s) \<and> st_readMiss (ps_st s') = st_readMiss (ps_st s) \<and>
     failed_tick W h s s' h') h"
proof -
  have now: "during W h (h @ EvNow # es) (w_now W h)" for es
    unfolding during_def by (rule exI[of _ h]) (simp add: strict_prefix_def)
  show ?thesis
    using now[of "[]"] now[of "[EvClose a]" for a]
    by (auto simp: exchange_failed_def noteFailure_def closeConn_def sock_close_def log_probe_def counted_def outcome_of_def
        failed_tick_def reports_def is_recovered_def Let_def split: option.splits)
qed

lemma on_success_post:
  "wp (on_success W cfg key val n readRTT writeRTT s) (\<lambda>s' h'.
     ps_tick s' = ps_tick s \<and> ps_sampleKeys s' = ps_sampleKeys s \<and> counted Success (ps_st s) (ps_st s') \<and>
     st_readOK (ps_st s') = st_readOK (ps_st s) \<and> st_readMiss (ps_st s') = st_readMiss (ps_st s) \<and>
     (ps_conn s \<noteq> None \<longrightarrow> good_tick W h s s' h')) h"
proof -
  have now: "during W h (h @ [EvNow]) (w_now W h)"
    unfolding during_def by (rule exI[of _ h]) (simp add: strict_prefix_def)
  show ?thesis
    using now
    by (auto simp: on_success_def since_def log_probe_def counted_def good_tick_def reports_def is_recovered_def
        Let_def split: option.splits)
qed

lemma failed_after:
  assumes "prepared s s1" "prefix h h1" "failed_tick W h1 s1 s' h'"
  shows "failed_tick W h s s' h'"
  using assms reports_trans[of s "[]" s1 "[]" s'] during_earlier[OF assms(2)]
  by (auto simp: failed_tick_def prepared_def split: option.splits)

lemma good_after:
  assumes "prepared s s1" "prefix h h1" "good_tick W h1 s1 s' h'"
  shows "good_tick W h s s' h'"
  using assms reports_trans[of s "[]" s1 _ s'] during_earlier[OF assms(2)]
  by (fastforce simp: good_tick_def prepared_def split: option.splits)

lemma tick_of_update [simp]:
  "failed_tick W h (s\<lparr>ps_conn := c\<rparr>) = failed_tick W h s" "failed_tick W h (s\<lparr>ps_st := st\<rparr>) = failed_tick W h s"
  "good_tick W h (s\<lparr>ps_conn := c\<rparr>) = good_tick W h s" "good_tick W h (s\<lparr>ps_st := st\<rparr>) = good_tick W h s"
  "failed_tick W h (s\<lparr>ps_tick := n\<rparr>) = failed_tick W h s" "good_tick W h (s\<lparr>ps_tick := n\<rparr>) = good_tick W h s"
  by (simp_all add: failed_tick_def good_tick_def reports_def fun_eq_iff split: option.split)

lemma prepared_refl: "prepared s s"
  by (simp add: prepared_def)

definition exchanged :: "world \<Rightarrow> event list \<Rightarrow> probe_state \<Rightarrow> outcome \<Rightarrow> probe_state \<Rightarrow> event list \<Rightarrow> bool" where
  "exchanged W h s out s' h' \<longleftrightarrow> ps_tick s' = ps_tick s \<and> ps_sampleKeys s' = ps_sampleKeys s \<and>
     counted out (ps_st s) (ps_st s') \<and> counted_read out (ps_st s) (ps_st s') \<and>
     (if out = Success then good_tick W h s s' h' else failed_tick W h s s' h')"

lemma read_failed:
  assumes "prefix h h1"
  shows "wp (exchange_failed W what e (s\<lparr>ps_conn := c\<rparr>)) (\<lambda>s' h'. \<exists>out. exchanged W h s out s' h') h1"
proof -
  have "counted_read out st st'" if "out \<noteq> Success" "st_readOK st' = st_readOK st" "st_readMiss st' = st_readMiss st"
    for out st st'
    using that unfolding counted_read_def by (intro exI[of _ 0]) auto
  then show ?thesis
    using failed_after[OF prepared_refl assms]
    by (intro wp_mono[OF exchange_failed_post])
      (auto simp: exchanged_def intro!: exI[of _ "outcome_of e"])
qed

lemma counted_read_val:
  assumes "st_readOK st' = st_readOK (count_read val st)" "st_readMiss st' = st_readMiss (count_read val st)"
    "out \<noteq> Unreachable"
  shows "counted_read out st st'"
  using assms unfolding counted_read_def count_read_def
  by (intro exI[of _ "if val \<noteq> [] then 1 else 2"]) (auto split: if_splits)

lemma counted_after_read: "counted out (count_read val st) st' = counted out st st'"
  by (simp add: counted_def count_read_def)

lemma write_failed:
  assumes "prefix h h1"
  shows "wp (exchange_failed W what e (s\<lparr>ps_st := count_read val (ps_st s), ps_conn := c\<rparr>))
    (\<lambda>s' h'. \<exists>out. exchanged W h s out s' h') h1"
  using failed_after[OF prepared_refl assms]
  by (intro wp_mono[OF exchange_failed_post])
    (auto simp: exchanged_def counted_after_read counted_read_val
      intro!: exI[of _ "outcome_of e"])

lemma write_succeeded:
  assumes "prefix h h1"
  shows "wp (on_success W cfg key val n readRTT writeRTT (s\<lparr>ps_st := count_read val (ps_st s), ps_conn := Some c\<rparr>))
    (\<lambda>s' h'. \<exists>out. exchanged W h s out s' h') h1"
  using good_after[OF prepared_refl assms]
  by (intro wp_mono[OF on_success_post])
    (auto simp: exchanged_def counted_after_read counted_read_val intro!: exI[of _ Success])

lemma use_conn_post:
  assumes "prefix h0 h"
  shows "wp (use_conn W cfg c s) (\<lambda>s' h'. \<exists>out. exchanged W h0 s out s' h') h"
proof (cases "pick_key (ps_tick s) (ps_sampleKeys s)")
  case (Done key)
  show ?thesis
    unfolding use_conn_def Done out.case Let_def
    using assms
    by (auto intro!: wp_bind_later[OF emits_now] wp_bind_later[OF emits_tool(6)] wp_bind_later[OF any_commands(1)]
        wp_bind_later[OF any_commands(2)] read_failed write_failed write_succeeded
        simp del: wp_bind split: sum.split prod.split)
qed (simp add: use_conn_def)

text \<open>The connection is there, or the tick has failed, or the search for keys goes on.\<close>

lemma dial_failed_post:
  assumes "ps_conn s = None"
  shows "wp (dial_failed W e s) (\<lambda>s' h'. exchanged W h s Unreachable s' h') h"
proof -
  have now: "during W h (h @ [EvNow]) (w_now W h)"
    unfolding during_def by (rule exI[of _ h]) (simp add: strict_prefix_def)
  have "counted_read Unreachable st (st\<lparr>st_dialErr := n\<rparr>)" for st n
    unfolding counted_read_def by (intro exI[of _ 0]) auto
  then show ?thesis
    using assms now
    by (auto simp: dial_failed_def noteFailure_def log_probe_def exchanged_def counted_def failed_tick_def
        reports_def is_recovered_def split: option.splits)
qed

lemma on_connect_post:
  assumes "ps_conn s = None"
  shows "wp (on_connect W cfg fuel c0 s) (\<lambda>(r, s') _. r \<noteq> NoConn \<and> prepared s s' \<and> ps_conn s' \<noteq> None) h"
proof -
  have line: "\<not> is_recovered (connect_line b i r n)" for b i r n
    by (simp add: connect_line_def is_recovered_def)
  have scan: "\<not> is_recovered (Scanned n p)" for n p
    by (simp add: is_recovered_def)
  show ?thesis
    unfolding on_connect_def
    by (auto intro!: wp_bind_any simp: prepared_def log_probe_def reports_def line scan greet_def adopt_keys_def Let_def
        simp del: wp_bind
        split: prod.split option.split)
qed

lemma ensure_conn_post:
  "wp (ensure_conn W cfg fuel s) (\<lambda>(r, s') h'. (r = NoConn \<longrightarrow> exchanged W h s Unreachable s' h') \<and>
     (r \<noteq> NoConn \<longrightarrow> prepared s s') \<and> (r = StillScanning \<longrightarrow> ps_conn s = None \<and> ps_conn s' \<noteq> None)) h"
proof (cases "ps_conn s")
  case (Some c)
  then show ?thesis by (simp add: ensure_conn_def prepared_refl)
next
  case None
  have later: "exchanged W h s Unreachable s' h'" if "prefix h h1" "exchanged W h1 s Unreachable s' h'" for h1 s' h'
    using that failed_after[OF prepared_refl] by (auto simp: exchanged_def)
  have "wp (case r of Inl e \<Rightarrow> bind_io (dial_failed W e s) (\<lambda>s1. ret (NoConn, s1))
                    | Inr c0 \<Rightarrow> on_connect W cfg fuel c0 s)
      (\<lambda>(r, s') h'. (r = NoConn \<longrightarrow> exchanged W h s Unreachable s' h') \<and>
         (r \<noteq> NoConn \<longrightarrow> prepared s s') \<and> (r = StillScanning \<longrightarrow> ps_conn s = None \<and> ps_conn s' \<noteq> None)) h1"
    if "prefix h h1" for r h1
    using later[OF that] None
    by (cases r) (auto intro: wp_mono[OF dial_failed_post[OF None]] wp_mono[OF on_connect_post[OF None]])
  note rest = this
  have conn: "ensure_conn W cfg fuel s = bind_io (dial W (pc_addr cfg) (pc_dialTimeout cfg)) (\<lambda>r. case r of
        Inl e \<Rightarrow> bind_io (dial_failed W e s) (\<lambda>s1. ret (NoConn, s1)) | Inr c0 \<Rightarrow> on_connect W cfg fuel c0 s)"
    by (simp add: ensure_conn_def None)
  show ?thesis
    unfolding conn by (rule wp_bind_later[OF emits_tool(1) prefix_order.refl], simp, rule rest)
qed

lemma any_ensure_conn: "emits (\<lambda>_. True) (ensure_conn W cfg fuel s)"
  unfolding ensure_conn_def on_connect_def dial_failed_def noteFailure_def Let_def scanKeys_def
  by (auto intro!: emits_rules any_commands any_scan split: option.splits sum.splits prod.splits)

lemma tick_postI:
  assumes "exchanged W h s1 out s' h'" "prepared (s\<lparr>ps_tick := incr64 (ps_tick s)\<rparr>) s1"
  shows "tick_post W h s out s' h'"
  using assms failed_after[OF assms(2) prefix_order.refl] good_after[OF assms(2) prefix_order.refl]
  by (auto simp: tick_post_def exchanged_def prepared_def)

text \<open>A tick that is still searching for keys has a new connection and has counted nothing yet.\<close>

definition scan_post :: "probe_state \<Rightarrow> probe_state \<Rightarrow> bool" where
  "scan_post s s' \<longleftrightarrow> prepared (s\<lparr>ps_tick := incr64 (ps_tick s)\<rparr>) s' \<and> ps_conn s = None \<and> ps_conn s' \<noteq> None"

lemma tick_outcome:
  "wp (probe_tick W cfg fuel s) (\<lambda>(ok, s') h'. if ok then \<exists>out. tick_post W h s out s' h' else scan_post s s') h"
proof -
  let ?s = "s\<lparr>ps_tick := incr64 (ps_tick s)\<rparr>"
  have step: "wp (case r of
       Conn c \<Rightarrow> bind_io (use_conn W cfg c s1) (\<lambda>s2. ret (True, s2))
     | NoConn \<Rightarrow> ret (True, s1)
     | StillScanning \<Rightarrow> ret (False, s1))
       (\<lambda>(ok, s') h'. if ok then \<exists>out. tick_post W h s out s' h' else scan_post s s') (h @ es)"
    if "(r = NoConn \<longrightarrow> exchanged W h ?s Unreachable s1 (h @ es)) \<and> (r \<noteq> NoConn \<longrightarrow> prepared ?s s1) \<and>
       (r = StillScanning \<longrightarrow> ps_conn ?s = None \<and> ps_conn s1 \<noteq> None)" for r s1 es
  proof (cases r)
    case (Conn c)
    then have "prepared ?s s1" using that by simp
    then have "\<exists>out. tick_post W h s out s' h'" if "\<exists>out. exchanged W h s1 out s' h'" for s' h'
      using that tick_postI by blast
    then show ?thesis using Conn by (auto intro!: wp_mono[OF use_conn_post[of h]])
  qed (use that tick_postI[OF _ prepared_refl] in \<open>auto simp: scan_post_def intro!: exI\<close>)
  show ?thesis
    unfolding probe_tick_def
  proof (rule wp_bind_trace[OF any_ensure_conn], goal_cases)
    case (1 x es)
    then show ?case using step[of "fst x" "snd x" es] wpD[OF ensure_conn_post 1(1)] by (simp only: split_beta)
  qed
qed

section \<open>The books balance\<close>

definition probe_counts :: "nat \<Rightarrow> probe_state \<Rightarrow> bool" where
  "probe_counts n s \<longleftrightarrow> (let st = ps_st s in
     ps_tick s = int n \<and> ps_sampleKeys s \<noteq> [] \<and>
     0 \<le> st_ok st \<and> 0 \<le> st_readonly st \<and> 0 \<le> st_disconnect st \<and> 0 \<le> st_dialErr st \<and>
     0 \<le> st_readOK st \<and> 0 \<le> st_readMiss st \<and>
     st_ok st + st_readonly st + st_disconnect st + st_dialErr st = int n \<and>
     st_ok st \<le> st_readOK st + st_readMiss st \<and> st_readOK st + st_readMiss st + st_dialErr st \<le> int n)"

definition probe_link :: "nat \<Rightarrow> probe_state \<Rightarrow> bool" where
  "probe_link n s \<longleftrightarrow> (if n = 0 then ps_conn s = None \<and> ps_outageStart s = None
                       else ps_conn s = None \<longleftrightarrow> ps_outageStart s \<noteq> None)"

text \<open>The state after \<open>n\<close> ticks, in the middle of the next one.\<close>

definition probe_scanning :: "nat \<Rightarrow> probe_state \<Rightarrow> bool" where
  "probe_scanning n s \<longleftrightarrow> ps_tick s = int n + 1 \<and> probe_counts n (s\<lparr>ps_tick := int n\<rparr>) \<and> ps_conn s \<noteq> None \<and>
     (ps_outageStart s = None \<longleftrightarrow> n = 0)"

lemma scanning_tick:
  assumes "probe_counts n s" "probe_link n s" "int n < int64_max" "scan_post s s'"
  shows "probe_scanning n s'"
proof -
  have "incr64 (ps_tick s) = int n + 1"
    using assms(1,3) by (simp add: probe_counts_def Let_def incr64_below)
  then show ?thesis
    using assms by (auto simp: scan_post_def prepared_def probe_scanning_def probe_counts_def probe_link_def Let_def split: if_splits)
qed

lemma counts_tick:
  assumes "probe_counts n s" "int n < int64_max" "tick_post W h s out s' h'"
  shows "probe_counts (Suc n) s'"
proof -
  let ?st = "ps_st s" and ?st' = "ps_st s'"
  have below: "incr64 x = x + 1" if "x \<in> {ps_tick s, st_ok ?st, st_readonly ?st, st_disconnect ?st, st_dialErr ?st,
      st_readOK ?st, st_readMiss ?st}" for x
    using assms(1,2) that by (intro incr64_below) (auto simp: probe_counts_def Let_def)
  obtain k where k: "(st_readOK ?st', st_readMiss ?st') =
      [(st_readOK ?st, st_readMiss ?st), (st_readOK ?st + 1, st_readMiss ?st), (st_readOK ?st, st_readMiss ?st + 1)] ! k"
      "k < 3" "out = Success \<longrightarrow> k \<noteq> 0" "out = Unreachable \<longrightarrow> k = 0"
    using assms(3) below unfolding tick_post_def counted_read_def by auto
  then consider "k = 0" | "k = 1" | "k = 2" by linarith
  then show ?thesis
    using assms(1,3) below k
    by cases (cases out; auto simp: tick_post_def probe_counts_def Let_def counted_def)+
qed

lemma link_tick: "tick_post W h s out s' h' \<Longrightarrow> probe_link (Suc n) s'"
  by (auto simp: tick_post_def probe_link_def good_tick_def failed_tick_def split: if_splits)

lemma length_sample_keys: "length (sample_keys pfx rnd i n m) = m"
  by (induction m arbitrary: i n) (simp_all add: Let_def)

lemma counts_start: "probe_counts 0 (probe_start cfg rnd)" "probe_link 0 (probe_start cfg rnd)"
  using length_sample_keys[of "pc_dataPrefix cfg" rnd 0 0 200]
  by (auto simp: probe_counts_def probe_link_def probe_start_def buildSampleKeys_def)

section \<open>Without a panic\<close>

abbreviation drained_state :: "probe_state \<Rightarrow> bool" where
  "drained_state s \<equiv> \<forall>c. ps_conn s = Some c \<longrightarrow> drained c"

lemma returns_noteFailure: "returns (noteFailure W s) (\<lambda>s'. ps_conn s' = ps_conn s \<and>
     ps_tick s' = ps_tick s \<and> ps_sampleKeys s' = ps_sampleKeys s)"
  by (auto simp: returns_def noteFailure_def now_def io_simps split: option.splits)

lemma returns_closeConn: "returns (closeConn s) (\<lambda>s'. s' = s\<lparr>ps_conn := None\<rparr>)"
  by (auto simp: returns_def closeConn_def sock_close_def io_simps split: option.splits)

lemma returns_exchange_failed: "returns (exchange_failed W what e s) drained_state"
  unfolding exchange_failed_def Let_def
  by (rule returns_bind[OF returns_noteFailure], rule returns_mono[OF returns_closeConn]) auto

lemma returns_on_success:
  "drained_state s \<Longrightarrow> returns (on_success W cfg key val n readRTT writeRTT s) drained_state"
  by (auto simp: returns_def on_success_def since_def now_def log_probe_def io_simps Let_def split: option.splits)

lemma returns_use_conn:
  assumes "clean_recv W" "drained c" "ps_sampleKeys s \<noteq> []" "0 \<le> ps_tick s"
  shows "returns (use_conn W cfg c s) drained_state"
proof -
  obtain key where key: "pick_key (ps_tick s) (ps_sampleKeys s) = Done key"
    using assms(3,4) by (simp add: pick_key_def)
  have cmd: "returns (bind_io (now W) (\<lambda>start. bind_io m (\<lambda>(r, c'). bind_io (since W start) (f r c')))) drained_state"
    if "returns m (\<lambda>x. drained (snd x))" "\<And>r c' rtt. drained c' \<Longrightarrow> returns (f r c' rtt) drained_state"
    for m :: "('r \<times> sock) run" and f
    using that by (auto intro!: returns_bind[OF returns_now] returns_bind[OF that(1)] returns_bind[OF returns_tool(5)])
  show ?thesis
    unfolding use_conn_def key out.case Let_def
    by (auto intro!: cmd returns_commands assms returns_exchange_failed returns_on_success split: sum.split)
qed

text \<open>What the first part of a tick keeps.\<close>

definition kept :: "probe_state \<Rightarrow> conn_result \<times> probe_state \<Rightarrow> bool" where
  "kept s x \<longleftrightarrow> ps_tick (snd x) = ps_tick s \<and> (ps_sampleKeys s \<noteq> [] \<longrightarrow> ps_sampleKeys (snd x) \<noteq> []) \<and>
     drained_state (snd x) \<and> (\<forall>c. fst x = Conn c \<longrightarrow> drained c)"

lemma returns_dial_failed:
  "ps_conn s = None \<Longrightarrow> returns (dial_failed W e s) (\<lambda>s'. kept s (NoConn, s'))"
  unfolding dial_failed_def
  by (rule returns_bind[OF returns_noteFailure], rule returns_ret) (simp add: kept_def log_probe_def)

lemma returns_on_connect:
  assumes "clean_recv W" "drained c"
  shows "returns (on_connect W cfg fuel c s) (kept s)"
  unfolding on_connect_def scanKeys_def
  by (rule returns_bind[OF returns_commands(3)[OF assms]], clarsimp,
      rule returns_bind[OF returns_scan_from[OF assms(1)]])
    (auto simp: kept_def greet_def adopt_keys_def log_probe_def Let_def intro!: returns_ret split: option.split)

lemma returns_ensure_conn:
  assumes "clean_recv W" "drained_state s"
  shows "returns (ensure_conn W cfg fuel s) (kept s)"
proof (cases "ps_conn s")
  case None
  then show ?thesis
    unfolding ensure_conn_def None option.case
    by (auto intro!: returns_bind[OF returns_tool(1)] returns_bind[OF returns_dial_failed[OF None]] returns_ret
        returns_on_connect assms(1) split: sum.split)
qed (use assms in \<open>simp add: ensure_conn_def returns_ret kept_def\<close>)

lemma returns_probe_tick:
  assumes "clean_recv W" "drained_state s" "probe_counts n s" "int n < int64_max"
  shows "returns (probe_tick W cfg fuel s) (\<lambda>x. drained_state (snd x))"
proof -
  let ?s = "s\<lparr>ps_tick := incr64 (ps_tick s)\<rparr>"
  have "0 \<le> incr64 (ps_tick s)" "ps_sampleKeys s \<noteq> []"
    using assms(3,4) by (auto simp: probe_counts_def Let_def incr64_below)
  moreover have "drained_state ?s" using assms(2) by simp
  ultimately show ?thesis
    unfolding probe_tick_def
    by (auto intro!: returns_bind[OF returns_ensure_conn[OF assms(1)]] returns_bind[OF returns_use_conn[OF assms(1)]]
        returns_ret simp: kept_def split: conn_result.split)
qed

section \<open>Properties\<close>

text \<open>The ticks before the signal.\<close>

definition ticks :: "probe_input list \<Rightarrow> nat" where
  "ticks ins = length (takeWhile (\<lambda>i. i = TickC) ins)"

lemma ticks_Cons [simp]: "ticks [] = 0" "ticks (TickC # ins) = Suc (ticks ins)" "ticks (StopSignal # ins) = 0"
  by (simp_all add: ticks_def)

text \<open>The state of the tool in each status, after \<open>n\<close> ticks have been received.\<close>

definition accounted :: "nat \<Rightarrow> probe_status \<Rightarrow> probe_state \<Rightarrow> bool" where
  "accounted n status s \<longleftrightarrow> (case status of
      Waiting \<Rightarrow> probe_counts n s \<and> probe_link n s
    | Stopped \<Rightarrow> probe_counts n s \<and> ps_conn s = None
    | Scanning \<Rightarrow> \<exists>m < n. probe_scanning m s)"

lemma probe_loop_accounts:
  assumes "clean_recv W" "drained_state s" "probe_counts n s" "probe_link n s" "int n + int (ticks ins) \<le> int64_max"
  shows "\<exists>status s' h'. probe_loop W cfg fuel ins s h = (Done (status, s'), h') \<and>
    accounted (n + ticks ins) status s'"
  using assms
proof (induction W cfg fuel ins s arbitrary: n h rule: probe_loop.induct)
  case (1 W cfg fuel s)
  then show ?case by (simp add: io_simps accounted_def)
next
  case (2 W cfg fuel ins s)
  obtain s1 h1 where "closeConn (log_probe (Stop (stats_String (ps_st s))) s) h = (Done s1, h1)"
      "s1 = (log_probe (Stop (stats_String (ps_st s))) s)\<lparr>ps_conn := None\<rparr>"
    using returns_closeConn[of "log_probe (Stop (stats_String (ps_st s))) s"] unfolding returns_def by blast
  with 2 show ?case by (simp add: io_simps accounted_def probe_counts_def log_probe_def)
next
  case (3 W cfg fuel ins s)
  then have n: "int n < int64_max" by simp
  obtain ok s1 h1 where run: "probe_tick W cfg fuel s h = (Done (ok, s1), h1)" "drained_state s1"
    using returns_probe_tick[OF "3.prems"(1-3) n] unfolding returns_def by fastforce
  show ?case
  proof (cases ok)
    case True
    then obtain out where post: "tick_post W h s out s1 h1" using wpD[OF tick_outcome run(1)] by auto
    have "int (Suc n) + int (ticks ins) \<le> int64_max" using "3.prems"(5) by simp
    with "3.IH"[OF refl True "3.prems"(1) run(2) counts_tick[OF "3.prems"(3) n post] link_tick[OF post, of n]] run(1) True
    show ?thesis by (simp add: io_simps)
  next
    case False
    then have "probe_scanning n s1"
      using wpD[OF tick_outcome run(1)] scanning_tick[OF "3.prems"(3,4) n] by simp
    with run(1) False show ?thesis by (auto simp: io_simps accounted_def intro!: exI[of _ n])
  qed
qed

text \<open>
  C33. The probe accounts for every tick. With a positive interval, and as long as every answer of a
  server is one reply that the decoder reads to its end without a panic, the tool does not crash,
  whatever else the network and the servers do. While it waits for the next tick, every tick
  so far has been counted exactly once, as a success, a refused write, a lost connection or a
  failed dial, every success has counted its read, and there is a key to read; before the
  first tick there is neither a connection nor a running outage clock, and from then on the clock
  runs exactly if there is no connection. After the signal the counters are the same and the connection is
  closed. While a tick is searching for keys, it is the only one that has not been counted; it
  has a connection, and the clock still runs if an earlier tick has failed to leave one.
\<close>

theorem probe_accounts_for_every_tick:
  assumes "clean_recv W" "0 < pc_interval cfg" "int (ticks ins) \<le> int64_max"
  shows "\<exists>status s h'. probe_main W cfg rnd fuel ins h = (Done (status, s), h') \<and>
    accounted (ticks ins) status s"
proof -
  have "drained_state (probe_start cfg rnd)" by (simp add: probe_start_def)
  from probe_loop_accounts[OF assms(1) this counts_start, of ins cfg fuel h] assms(3)
  show ?thesis using assms(2) unfolding probe_main_def by simp
qed

text \<open>A sequence of ticks after each of which the outage goes on.\<close>

inductive failing_ticks ::
  "world \<Rightarrow> probe_config \<Rightarrow> nat \<Rightarrow> probe_state \<Rightarrow> event list \<Rightarrow> probe_state \<Rightarrow> event list \<Rightarrow> bool"
  for W cfg fuel s h where
  none: "failing_ticks W cfg fuel s h s h"
| more: "failing_ticks W cfg fuel s h s1 h1 \<Longrightarrow> probe_tick W cfg fuel s1 h1 = (Done (True, s2), h2) \<Longrightarrow>
     ps_outageStart s2 \<noteq> None \<Longrightarrow> failing_ticks W cfg fuel s h s2 h2"

lemma tick_cases:
  assumes "probe_tick W cfg fuel s h = (Done (True, s'), h')"
  shows "if ps_outageStart s' = None then good_tick W h s s' h' else failed_tick W h s s' h'"
  using wpD[OF tick_outcome assms] by (auto simp: tick_post_def good_tick_def failed_tick_def split: if_splits)

lemma failing_ticks_start:
  "failing_ticks W cfg fuel s h s' h' \<Longrightarrow> ps_outageStart s = Some t \<Longrightarrow>
   ps_outageStart s' = Some t \<and> reports s [] s'"
proof (induction rule: failing_ticks.induct)
  case none
  then show ?case by simp
next
  case (more s1 h1 s2 h2)
  then show ?case
    using tick_cases[OF more(2)] reports_trans[of s "[]" s1 "[]" s2] by (auto simp: failed_tick_def)
qed

text \<open>
  C34. The outage that the probe reports is the time from the first failure to the first
  success: if a tick fails while writes worked before, then any number of ticks fail and then one
  succeeds, exactly one outage is reported, and its length is, to the millisecond, the time
  between an instant of the first failing tick and an instant of the succeeding one.
\<close>

theorem outage_measured:
  assumes "ps_outageStart s0 = None"
    and "probe_tick W cfg fuel s0 h0 = (Done (True, s1), h1)" "ps_outageStart s1 \<noteq> None"
    and "failing_ticks W cfg fuel s1 h1 s2 h2"
    and "probe_tick W cfg fuel s2 h2 = (Done (True, s3), h3)" "ps_outageStart s3 = None"
  shows "\<exists>t0 t n. during W h0 h1 t0 \<and> during W h2 h3 t \<and>
    reports s0 [Recovered (round_duration (max int64_min (min int64_max (t - t0))) 1000000) (short (ps_backend s3)) n] s3"
proof -
  obtain t0 where t0: "ps_outageStart s1 = Some t0" "during W h0 h1 t0" "reports s0 [] s1"
    using tick_cases[OF assms(2)] assms(1,3) by (auto simp: failed_tick_def)
  from failing_ticks_start[OF assms(4) this(1)] have s2: "ps_outageStart s2 = Some t0" "reports s0 [] s2"
    using reports_trans[OF t0(3)] by auto
  then show ?thesis
    using tick_cases[OF assms(5)] assms(6) t0(2) reports_trans[OF s2(2)] by (fastforce simp: good_tick_def)
qed

text \<open>The interval is not checked: a ticker with the interval 0 is a panic before the first tick.\<close>

lemma probe_interval_unchecked:
  "probe_main W (probe_loadConfig frac [''PROBE_INTERVAL'' \<mapsto> ''0s'']) rnd fuel ins h = (Panic, h)"
  by (simp add: probe_main_def probe_loadConfig_def envDur_def ParseDuration_def duration_parts.simps
      duration_part_def is_digit_def digit_val_def less_eq_char_def unitMap_def io_simps)

end
