(* ===== verification/Loader_Keys.thy ===== *)
theory Loader_Keys
  imports Loader_Gen Failover_Probe_Props
begin

text \<open>
  The keys that the data loader writes: their shape, and which of the keys that the failover
  probe reads before its first \<^verbatim>\<open>SCAN\<close> they can be.
\<close>

section \<open>What a generator can return\<close>

lemma gen_bind:
  "pred_state P m \<Longrightarrow> (\<And>x. P x \<Longrightarrow> pred_state Q (f x)) \<Longrightarrow> pred_state Q (State_Monad.bind m f)"
  by (rule bind_predI) (auto intro: state.pred_mono_strong)

lemma gen_any: "(\<And>x. pred_state Q (f x)) \<Longrightarrow> pred_state Q (State_Monad.bind m f)"
  by (rule gen_bind[of "\<lambda>_. True"]) auto

lemma gen_return: "Q x \<Longrightarrow> pred_state Q (State_Monad.return x)"
  by (auto intro!: pred_stateI)

lemma gen_draw: "(\<And>x. Q (f x)) \<Longrightarrow> pred_state Q (draw I f)"
  by (auto intro!: pred_stateI simp: draw_def)

lemma gen_rndN: "0 < n \<Longrightarrow> pred_state (\<lambda>x. 0 \<le> x \<and> x < n) (rndN I n)"
  unfolding rndN_def by (auto intro!: gen_draw)

lemma gen_pick: "xs \<noteq> [] \<Longrightarrow> pred_state (\<lambda>x. x \<in> set xs) (pick I xs)"
  unfolding pick_def by (rule gen_bind[OF gen_rndN]) (auto intro!: gen_return nth_mem simp: nat_less_iff)

lemma gen_repeat: "pred_state P g \<Longrightarrow> pred_state (\<lambda>xs. length xs = n \<and> list_all P xs) (repeat_gen n g)"
  by (induction n) (auto intro!: gen_return elim!: gen_bind)

section \<open>UUIDs\<close>

definition uuid_shape :: "string \<Rightarrow> bool" where
  "uuid_shape u \<longleftrightarrow> (\<exists>a b c d e. u = a @ ''-'' @ b @ ''-'' @ c @ ''-'' @ d @ ''-'' @ e \<and>
     map length [a, b, c, d, e] = [8, 4, 4, 4, 12] \<and> list_all is_hex (a @ b @ c @ d @ e) \<and>
     hd c = CHR ''4'' \<and> hd d \<in> {CHR ''8'', CHR ''9'', CHR ''a'', CHR ''b''})"

lemma byte_digits: "is_hex (hex_digit (unat (b :: 8 word) div 16))" "is_hex (hex_digit (unat b mod 16))"
  using unsigned_less[of b, where ?'a = nat] by (auto intro!: hex_digit_hex)

lemma version_bits: "unat (or (and b 0x0F) 0x40 :: 8 word) div 16 = 4"
  and variant_bits: "unat (or (and b 0x3F) 0x80 :: 8 word) div 16 \<in> {8, 9, 10, 11}"
proof -
  have all: "list_all (\<lambda>n. unat (or (and (word_of_nat n) 0x0F) 0x40 :: 8 word) div 16 = 4 \<and>
      unat (or (and (word_of_nat n) 0x3F) 0x80 :: 8 word) div 16 \<in> {8, 9, 10, 11}) [0..<256]"
    by code_simp
  have "unat b \<in> set [0..<256]" using unsigned_less[of b, where ?'a = nat] by simp
  note bspec[OF all[unfolded list_all_iff] this]
  then show "unat (or (and b 0x0F) 0x40 :: 8 word) div 16 = 4"
    "unat (or (and b 0x3F) 0x80 :: 8 word) div 16 \<in> {8, 9, 10, 11}"
    by simp_all
qed

lemma length_hex_bytes [simp]: "length (hex_bytes bs) = 2 * length bs"
  by (induction bs) (simp_all add: hex_bytes_def)

lemma hex_bytes_hex [simp]: "list_all is_hex (hex_bytes bs)"
  by (induction bs) (simp_all add: hex_bytes_def byte_digits)

lemma hd_hex_bytes: "hd (hex_bytes (b # bs)) = hex_digit (unat b div 16)"
  by (simp add: hex_bytes_def)

lemma hex_digits:
  "hex_digit 4 = CHR ''4''" "hex_digit 8 = CHR ''8''" "hex_digit 9 = CHR ''9''"
  "hex_digit 10 = CHR ''a''" "hex_digit 11 = CHR ''b''"
  by code_simp+

lemma format_uuid_shape:
  assumes "length bs = 16"
  shows "uuid_shape (format_uuid bs)"
proof -
  define v where "v = bs[6 := or (and (bs ! 6) 0x0F) 0x40, 8 := or (and (bs ! 8) 0x3F) 0x80]"
  have len: "length v = 16" using assms by (simp add: v_def)
  have at: "take 2 (drop i v) = [v ! i, v ! Suc i]" if "Suc i < 16" for i
    using that len by (simp add: numeral_2_eq_2 Cons_nth_drop_Suc[symmetric])
  have "v ! 6 = or (and (bs ! 6) 0x0F) 0x40" "v ! 8 = or (and (bs ! 8) 0x3F) 0x80"
    using assms by (simp_all add: v_def)
  then have "hd (hex_bytes (take 2 (drop 6 v))) = CHR ''4''"
    "hd (hex_bytes (take 2 (drop 8 v))) \<in> {CHR ''8'', CHR ''9'', CHR ''a'', CHR ''b''}"
    using version_bits[of "bs ! 6"] variant_bits[of "bs ! 8"] by (auto simp: at hd_hex_bytes hex_digits)
  moreover have "format_uuid bs = hex_bytes (take 4 v) @ ''-'' @ hex_bytes (take 2 (drop 4 v)) @ ''-'' @
      hex_bytes (take 2 (drop 6 v)) @ ''-'' @ hex_bytes (take 2 (drop 8 v)) @ ''-'' @ hex_bytes (take 6 (drop 10 v))"
    by (simp add: format_uuid_def v_def Let_def)
  ultimately show ?thesis
    unfolding uuid_shape_def using len
    by (intro exI[of _ "hex_bytes (take 4 v)"] exI[of _ "hex_bytes (take 2 (drop 4 v))"]
        exI[of _ "hex_bytes (take 2 (drop 6 v))"] exI[of _ "hex_bytes (take 2 (drop 8 v))"]
        exI[of _ "hex_bytes (take 6 (drop 10 v))"]) simp
qed

lemma gen_uuid4: "pred_state uuid_shape (uuid4 I)"
  unfolding uuid4_def rng_Read_def
  by (rule gen_bind[OF gen_repeat[of "\<lambda>_. True"]]) (auto intro!: gen_return gen_draw format_uuid_shape)

lemma uuid_length: "uuid_shape u \<Longrightarrow> length u = 36"
  by (auto simp: uuid_shape_def)

section \<open>The shape of the keys\<close>

text \<open>
  The part of a key that follows its family, for each of the eight families: a session, a user's
  profile, a product, a page of a category, an API response, a rate limit, a feature flag and a
  sticky session.
\<close>

definition brands :: "string list" where
  "brands = [''soundmax'', ''visiotech'', ''keycraft'', ''urbanthreads'', ''trailblazer'', ''ergoplus'', ''brewmaster'',
     ''penwickpress'', ''acepro'', ''vitabloom'', ''gameforge'', ''lubetech'']"

definition slugs :: "string list" where
  "slugs = [''electronics'', ''clothing'', ''home-garden'', ''books'', ''sports'', ''health-beauty'', ''toys'', ''automotive'']"

definition flags :: "string list" where
  "flags = [''dark-mode-v2'', ''checkout-redesign'', ''ai-recommendations'', ''real-time-notifications'', ''loyalty-points-2.0'']"

definition windows :: "string list" where
  "windows = [''1m'', ''5m'', ''15m'', ''1h'']"

definition ip_shape :: "string \<Rightarrow> bool" where
  "ip_shape u \<longleftrightarrow> (\<exists>a b c d. u = Itoa a @ ''.'' @ Itoa b @ ''.'' @ Itoa c @ ''.'' @ Itoa d \<and>
     10 \<le> a \<and> a < 225 \<and> 0 \<le> b \<and> b < 256 \<and> 0 \<le> c \<and> c < 256 \<and> 1 \<le> d \<and> d < 255)"

definition key_tail :: "nat \<Rightarrow> string \<Rightarrow> bool" where
  "key_tail i u \<longleftrightarrow>
     [uuid_shape u,
      \<exists>n. 100000 \<le> n \<and> n < 1000000 \<and> u = Itoa n @ '':profile'',
      \<exists>brand n. brand \<in> set brands \<and> 1000 \<le> n \<and> n < 10000 \<and> u = brand @ ''_'' @ Itoa n,
      \<exists>slug n. slug \<in> set slugs \<and> 1 \<le> n \<and> n \<le> 10 \<and> u = slug @ '':page:'' @ Itoa n,
      \<exists>n < 2 ^ 32. u = hex_nat n,
      \<exists>addr window. ip_shape addr \<and> window \<in> set windows \<and> u = addr @ '':'' @ window,
      u \<in> set flags,
      uuid_shape u] ! i"

definition family :: "nat \<Rightarrow> string" where
  "family i = ['':session:'', '':user:usr_'', '':cache:product:prod_'', '':cache:category:'', '':cache:api:'',
     '':ratelimit:'', '':feature:'', '':lb:sticky:''] ! i"

definition key_shape :: "string \<Rightarrow> nat \<Rightarrow> string \<times> string \<Rightarrow> bool" where
  "key_shape pfx idx kv \<longleftrightarrow> (\<exists>u. fst kv = pfx @ family (idx mod 8) @ u \<and> key_tail (idx mod 8) u)"

lemma shape_session: "pred_state (key_shape pfx 0) (genSession I render g pfx)"
  unfolding genSession_def
  by (rule gen_bind[OF gen_uuid4], (rule gen_any)+, rule gen_return)
    (simp add: key_shape_def key_tail_def family_def)

lemma gen_usr: "pred_state (\<lambda>u. \<exists>n. 100000 \<le> n \<and> n < 1000000 \<and> u = ''usr_'' @ Itoa n) (usr I)"
  unfolding usr_def by (rule gen_bind[OF gen_rndN]) (auto intro!: gen_return exI[of _ "100000 + _"])

lemma shape_profile: "pred_state (key_shape pfx 1) (genUserProfile I render g pfx)"
  unfolding genUserProfile_def
  by (rule gen_bind[OF gen_usr], (rule gen_any)+, rule gen_return)
    (auto simp: key_shape_def key_tail_def family_def)

lemma table_brands:
  assumes "tpl \<in> set (g_products (tables addrs))"
  shows "map ascii_lower (filter (\<lambda>c. c \<noteq> CHR '' '') (pt_Brand tpl)) \<in> set brands"
proof -
  have "g_products (tables addrs) = g_products (tables [])" by (simp add: tables_def)
  moreover have "list_all (\<lambda>tpl. map ascii_lower (filter (\<lambda>c. c \<noteq> CHR '' '') (pt_Brand tpl)) \<in> set brands)
      (g_products (tables []))"
    by code_simp
  ultimately show ?thesis using assms by (simp add: list_all_iff)
qed

lemma table_parts:
  "cat \<in> set (g_categories (tables addrs)) \<Longrightarrow> ca_Slug cat \<in> set slugs"
  "ft \<in> set (g_featureFlags (tables addrs)) \<Longrightarrow> ft_Name ft \<in> set flags"
  by (auto simp: tables_def slugs_def flags_def)

lemma table_fields:
  "g_products (tables addrs) \<noteq> []" "g_categories (tables addrs) \<noteq> []" "g_featureFlags (tables addrs) \<noteq> []"
  "g_ips (tables addrs) = addrs"
  by (simp_all add: tables_def)

lemmas key_simps = key_shape_def key_tail_def family_def

lemma shape_product: "pred_state (key_shape pfx 2) (genProduct I render (tables addrs) pfx)"
  unfolding genProduct_def Let_def
  by (rule gen_bind[OF gen_pick], rule table_fields, rule gen_bind[OF gen_rndN], simp, (rule gen_any)+, rule gen_return)
    (auto simp: key_simps intro!: exI[of _ "1000 + _"] dest: table_brands)

lemma shape_category: "pred_state (key_shape pfx 3) (genCategory I render (tables addrs) pfx)"
  unfolding genCategory_def
  by (rule gen_bind[OF gen_pick], rule table_fields, rule gen_any, rule gen_any, rule gen_any, rule gen_any, rule gen_any,
      rule gen_bind[OF gen_rndN], simp, rule gen_return)
    (auto simp: key_simps intro!: exI[of _ "1 + _"] dest: table_parts(1))

lemma unat_32: "unat (w :: 32 word) < 2 ^ 32"
  using unsigned_less[of w, where ?'a = nat] by simp

lemma shape_api: "pred_state (key_shape pfx 4) (genAPIResponse I render g pfx)"
  unfolding genAPIResponse_def Let_def
  by ((rule gen_any)+, rule gen_return) (use unat_32 in \<open>auto simp: key_simps\<close>)

lemma shape_rate:
  assumes "addrs \<noteq> []" "list_all ip_shape addrs"
  shows "pred_state (key_shape pfx 5) (genRateLimit I (tables addrs) pfx)"
  using assms unfolding genRateLimit_def table_fields(4)
  by (intro gen_bind[OF gen_pick] gen_any gen_return) (auto simp: key_simps windows_def list_all_iff)

lemma shape_flag: "pred_state (key_shape pfx 6) (genFeatureFlag I render (tables addrs) pfx)"
  unfolding genFeatureFlag_def
  by (intro gen_bind[OF gen_pick] gen_any gen_return table_fields) (auto simp: key_simps dest: table_parts(2))

lemma shape_sticky: "pred_state (key_shape pfx 7) (genStickyLB I pfx)"
  unfolding genStickyLB_def
  by (rule gen_bind[OF gen_uuid4], (rule gen_any)+, rule gen_return)
    (simp add: key_shape_def key_tail_def family_def)

lemmas shapes = shape_session shape_profile shape_product shape_category shape_api shape_rate shape_flag shape_sticky

lemma key_shape_mod: "key_shape pfx (idx mod 8) = key_shape pfx idx"
  by (simp add: key_shape_def fun_eq_iff)

lemma gen_makeIP: "pred_state ip_shape (makeIP I)"
  unfolding makeIP_def
  by (rule gen_bind[OF gen_rndN], simp, rule gen_bind[OF gen_rndN], simp, rule gen_bind[OF gen_rndN], simp,
      rule gen_bind[OF gen_rndN], simp, rule gen_return)
    (unfold ip_shape_def, intro exI conjI, rule refl, auto)

lemma gen_newGenerator:
  "pred_state (\<lambda>g. \<exists>addrs. g = tables addrs \<and> length addrs = 120 \<and> list_all ip_shape addrs) (newGenerator I)"
  unfolding newGenerator_def makeIPs_def by (rule gen_bind[OF gen_repeat[OF gen_makeIP]], rule gen_return) blast

lemma genKeyValue_shape:
  assumes "addrs \<noteq> []" "list_all ip_shape addrs"
  shows "pred_state (key_shape pfx idx) (genKeyValue I render (tables addrs) pfx idx)"
proof -
  have "idx mod 8 \<in> {0, 1, 2, 3, 4, 5, 6, 7}" by auto
  then show ?thesis
    unfolding genKeyValue_def key_shape_mod[of pfx idx, symmetric]
    using shape_rate[OF assms] by (auto intro: shapes simp del: One_nat_def)
qed

text \<open>Both hold of the generator that the loader starts with.\<close>

lemma loader_key_shape:
  "key_shape pfx idx (fst (run_state (genKeyValue I render (fst (run_state (newGenerator I) k0)) pfx idx) k))"
proof -
  obtain addrs where g: "fst (run_state (newGenerator I) k0) = tables addrs" "length addrs = 120" "list_all ip_shape addrs"
    using pred_state_run_state[OF gen_newGenerator] by blast
  then have "addrs \<noteq> []" by auto
  then show ?thesis using pred_state_run_state[OF genKeyValue_shape] g by simp
qed

section \<open>The sample keys of the probe\<close>

lemma length_hex8: "length (hex8 w) = 8"
  by (simp add: hex8_def)

lemma hex8_hex: "c \<in> set (hex8 w) \<Longrightarrow> is_hex c"
  by (auto simp: hex8_def hex_digit_hex)

lemma not_hex: "\<not> is_hex (CHR '':'')" "\<not> is_hex (CHR ''-'')" "\<not> is_hex (CHR ''_'')"
  by (simp_all add: is_hex_def is_digit_def less_eq_char_def)

lemma sample_key_form:
  "k \<in> set (sample_keys pfx r32 i n m) \<Longrightarrow>
   \<exists>j w. k = sample_pattern pfx j \<and> \<not> has_suffix (sample_pattern pfx j) '':'' \<or> k = sample_pattern pfx j @ hex8 w"
proof (induction m arbitrary: i n)
  case (Suc m)
  then show ?case by (auto simp: Let_def split: if_splits)
qed simp

text \<open>What follows the family in a sample key.\<close>

definition sample_tail :: "nat \<Rightarrow> string \<Rightarrow> bool" where
  "sample_tail i u \<longleftrightarrow>
     (if i = 1 then True else if i = 2 then CHR ''_'' \<notin> set u else length u = 8 \<and> list_all is_hex u)"

lemma sample_shape:
  assumes "k \<in> set (sample_keys pfx r32 i n m)"
  shows "\<exists>j u. j < 8 \<and> k = pfx @ family j @ u \<and> sample_tail j u"
proof -
  obtain j w where k: "k = sample_pattern pfx j \<and> \<not> has_suffix (sample_pattern pfx j) '':'' \<or>
      k = sample_pattern pfx j @ hex8 w"
    using sample_key_form[OF assms] by blast
  have num: "CHR ''_'' \<notin> set (Itoa z)" for z
    using Itoa_chars by (fastforce simp: is_digit_def less_eq_char_def)
  have hex: "list_all is_hex (hex8 w)" "CHR ''_'' \<notin> set (hex8 w)"
    using hex8_hex not_hex(3) by (auto simp: list_all_iff)
  have "j mod 8 \<in> {0, 1, 2, 3, 4, 5, 6, 7}" by auto
  then show ?thesis
    using k num hex length_hex8[of w]
    by (intro exI[of _ "j mod 8"])
      (auto simp: sample_pattern_def family_def sample_tail_def has_suffix_def has_prefix_def)
qed

lemma tail_marks:
  "key_tail 2 u \<Longrightarrow> CHR ''_'' \<in> set u" "key_tail 3 u \<Longrightarrow> CHR '':'' \<in> set u" "key_tail 5 u \<Longrightarrow> CHR '':'' \<in> set u"
  "key_tail 6 u \<Longrightarrow> CHR ''-'' \<in> set u"
  by (auto simp: key_tail_def flags_def)

lemma tails_disjoint:
  assumes "j < 8" "j \<noteq> 1" "j \<noteq> 4" "key_tail j u" "sample_tail j u"
  shows False
proof -
  have uuid: "key_tail j u \<Longrightarrow> j = 0 \<or> j = 7 \<Longrightarrow> length u = 36"
    by (auto simp: key_tail_def uuid_length)
  have "j \<in> {0, 2, 3, 5, 6, 7}" using assms(1-3) by auto
  with assms(4,5) show False
    using not_hex uuid tail_marks[of u] by (auto simp: sample_tail_def list_all_iff)
qed

lemma family_inject:
  assumes "i < 8" "j < 8" "family i @ u = family j @ v"
  shows "i = j \<and> u = v"
proof -
  have "i \<in> {0, 1, 2, 3, 4, 5, 6, 7}" "j \<in> {0, 1, 2, 3, 4, 5, 6, 7}" using assms(1,2) by auto
  with assms(3) show ?thesis by (auto simp: family_def)
qed

section \<open>Properties\<close>

text \<open>
  C38. Every key that the loader writes begins with the prefix and a colon, so the probe's
  \<^verbatim>\<open>SCAN\<close> pattern matches it; its family goes round with the index; and after the family comes,
  for a session and a sticky session, a version 4 UUID; for a profile, a user number of six digits;
  for a product, a brand in lower case without spaces and a number of four digits; for an API
  response, the hash of the path in hexadecimal; for a rate limit, an address between 10.0.0.1 and
  224.255.255.254 and then the window; for a feature flag, its name. For a category the comment at
  the head of the program announces \<^verbatim>\<open>cache:category:<slug>\<close>, while the code writes the slug followed by
  \<^verbatim>\<open>:page:\<close> and a page between 1 and 10; the theorem states what the code writes.
\<close>

theorem generated_key_families:
  "\<exists>u. fst (fst (run_state (genKeyValue I render (fst (run_state (newGenerator I) k0)) pfx idx) k)) =
     pfx @ family (idx mod 8) @ u \<and> key_tail (idx mod 8) u"
  using loader_key_shape unfolding key_shape_def .

text \<open>
  C39. The keys that the probe reads before it has scanned the server are meant to be keys that the
  loader writes. They can be for two of the eight families only, user profiles and cached API
  responses: no other sample key is one that the loader ever writes.
\<close>

theorem sample_keys_mostly_miss:
  assumes "k \<in> set (buildSampleKeys pfx r32 n)"
    and "k = fst (fst (run_state (genKeyValue I render (fst (run_state (newGenerator I) k0)) pfx idx) k1))"
  shows "\<exists>u. k = pfx @ '':user:usr_'' @ u \<or> k = pfx @ '':cache:api:'' @ u"
proof -
  obtain u where u: "k = pfx @ family (idx mod 8) @ u" "key_tail (idx mod 8) u"
    using loader_key_shape[of pfx idx I render k0 k1] assms(2) unfolding key_shape_def by auto
  obtain j v where v: "j < 8" "k = pfx @ family j @ v" "sample_tail j v"
    using sample_shape assms(1) unfolding buildSampleKeys_def by blast
  from u(1) v(1,2) have "idx mod 8 = j \<and> u = v" using family_inject[of "idx mod 8" j u v] by simp
  with u v tails_disjoint[of j v] have "j = 1 \<or> j = 4" by blast
  with v(2) show ?thesis by (auto simp: family_def)
qed

lemma pathHash_snoc: "pathHash (s @ [c]) = pathHash s * 31 + of_char c"
  by (simp add: pathHash_def)

lemma unat_horner: "unat (h * 31 + of_char c :: 32 word) = (unat h * 31 + of_char c) mod 2 ^ 32"
proof -
  have "h * 31 + of_char c = word_of_nat (unat h * 31 + of_char c)"
    by (simp add: of_nat_of_char)
  then have "unat (h * 31 + of_char c) = take_bit 32 (unat h * 31 + of_char c :: nat)"
    by (simp only: unsigned_of_nat len_num1 len_num0 len_bit0) simp
  then show ?thesis by (simp only: take_bit_eq_mod)
qed

lemma horner_mod: "(x mod m * 31 + y) mod m = (x * 31 + y) mod m" for x y m :: nat
proof -
  have "(x mod m * 31 + y) mod m = (x mod m * 31 mod m + y) mod m" by (simp only: mod_add_left_eq)
  then show ?thesis by (simp only: mod_mult_left_eq mod_add_left_eq)
qed

text \<open>
  C40. The hash of a path is the polynomial of its bytes in 31, modulo \<open>2\<^sup>32\<close>.
\<close>

theorem pathHash_polynomial:
  "unat (pathHash s) = (\<Sum>i < length s. of_char (s ! i) * 31 ^ (length s - 1 - i)) mod 2 ^ 32"
proof (induction s rule: rev_induct)
  case Nil
  show ?case by (simp add: pathHash_def)
next
  case (snoc c s)
  let ?p = "\<Sum>i < length s. of_char (s ! i) * 31 ^ (length s - 1 - i) :: nat"
  have "(\<Sum>i < length s. of_char ((s @ [c]) ! i) * 31 ^ (length s - i)) = ?p * 31"
    unfolding sum_distrib_right
  proof (rule sum.cong)
    fix i assume "i \<in> {..<length s}"
    then have "length s - i = Suc (length s - 1 - i)" "(s @ [c]) ! i = s ! i" by (auto simp: nth_append)
    then show "of_char ((s @ [c]) ! i) * 31 ^ (length s - i) = of_char (s ! i) * 31 ^ (length s - 1 - i) * (31 :: nat)"
      by simp
  qed simp
  then have "(\<Sum>i < length (s @ [c]). of_char ((s @ [c]) ! i) * 31 ^ (length (s @ [c]) - 1 - i)) = ?p * 31 + of_char c"
    by simp
  moreover have "unat (pathHash (s @ [c])) = (?p * 31 + of_char c) mod 2 ^ 32"
    unfolding pathHash_snoc unat_horner snoc.IH by (rule horner_mod)
  ultimately show ?case by simp
qed

end
