(* ===== verification/Data_Loader.thy ===== *)
theory Data_Loader
  imports Loader_Gen "HOL-Library.Sublist"
begin

text \<open>
  \<^verbatim>\<open>tools/data-loader/main.go\<close>: fills a server with generated keys, in batches of pipelined \<^verbatim>\<open>SET\<close>
  commands. The signal is an input of each iteration. The batch, a slice in which keys and values
  alternate, is a list of pairs. Log output is left out, but not the clock readings for it. The
  deferred close of the first connection is modelled for a normal end only. The counter \<^verbatim>\<open>idx\<close> of the keys is a
  natural number; as an \<^verbatim>\<open>int\<close> it would overflow after \<open>2\<^sup>63\<close> keys.
\<close>

section \<open>Configuration\<close>

record loader_config =
  dc_addr :: string
  dc_dialTimeout :: int
  dc_cmdTimeout :: int
  dc_targetGB :: int
  dc_batchSize :: int
  dc_keyPrefix :: string

text \<open>The loader's copies of the functions it shares with the failover probe.\<close>

definition loader_env :: "environ \<Rightarrow> string \<Rightarrow> string \<Rightarrow> string" where
  "loader_env = env"

definition loader_envDur :: "(nat \<Rightarrow> nat \<Rightarrow> nat \<Rightarrow> nat) \<Rightarrow> environ \<Rightarrow> string \<Rightarrow> int \<Rightarrow> int" where
  "loader_envDur = envDur"

definition loader_envInt :: "environ \<Rightarrow> string \<Rightarrow> int \<Rightarrow> int" where
  "loader_envInt = envInt"

definition loader_dial :: "world \<Rightarrow> string \<Rightarrow> int \<Rightarrow> (io_error + sock) run" where
  "loader_dial = dial"

definition loader_writeCmd :: "string list \<Rightarrow> string" where
  "loader_writeCmd = writeCmd"

definition loader_readReply :: "io_error \<Rightarrow> string \<Rightarrow> (redis_error + reply) out \<times> string" where
  "loader_readReply = tool_readReply"

definition loader_readLine :: "io_error \<Rightarrow> string \<Rightarrow> (redis_error + string) \<times> string" where
  "loader_readLine = tool_readLine"

definition loader_infoField :: "string \<Rightarrow> string \<Rightarrow> string" where
  "loader_infoField = infoField"

definition loader_short :: "string \<Rightarrow> string" where
  "loader_short = short"

definition loader_loadConfig :: "(nat \<Rightarrow> nat \<Rightarrow> nat \<Rightarrow> nat) \<Rightarrow> environ \<Rightarrow> loader_config" where
  "loader_loadConfig frac environ =
     \<lparr>dc_addr = loader_env environ ''TARGET_ADDR'' ''redis-write-cache.redis-test-enes.svc.cluster.local:6379'',
      dc_dialTimeout = loader_envDur frac environ ''DIAL_TIMEOUT'' 5000000000,
      dc_cmdTimeout = loader_envDur frac environ ''CMD_TIMEOUT'' 5000000000,
      dc_targetGB = loader_envInt environ ''TARGET_GB'' 10,
      dc_batchSize = loader_envInt environ ''BATCH_SIZE'' 500,
      dc_keyPrefix = loader_env environ ''KEY_PREFIX'' ''ld''\<rparr>"

text \<open>One call of the decoder on the reader of a connection.\<close>

definition loader_read :: "world \<Rightarrow> sock \<Rightarrow> ((redis_error + reply) \<times> sock) run" where
  "loader_read W c =
     bind_io (interact (\<lambda>h. w_recv W h (sock_addr c)) (\<lambda>_. EvRecv (sock_addr c))) (\<lambda>(bs, fin).
       case loader_readReply fin (sock_buf c @ bs) of
         (Panic, _) \<Rightarrow> panic
       | (Done r, rest) \<Rightarrow> ret (r, c\<lparr>sock_buf := rest\<rparr>))"

definition loader_identify :: "world \<Rightarrow> int \<Rightarrow> sock \<Rightarrow> ((string \<times> string) \<times> sock) run" where
  "loader_identify W timeout c =
     bind_io (now W) (\<lambda>t. bind_io (set_deadline W c (t + timeout)) (\<lambda>r.
       case r of
         Some e \<Rightarrow> ret (([], []), c)
       | None \<Rightarrow> bind_io (sock_write W c (loader_writeCmd [''INFO''])) (\<lambda>r.
           case r of
             Some e \<Rightarrow> ret (([], []), c)
           | None \<Rightarrow> bind_io (loader_read W c) (\<lambda>(r, c'). ret (case r of
               Inl _ \<Rightarrow> ([], [])
             | Inr v \<Rightarrow> (loader_infoField (str_of v) ''run_id:'', loader_infoField (str_of v) ''role:''), c')))))"

section \<open>The buffered writer\<close>

text \<open>
  \<^verbatim>\<open>bufio.NewWriterSize(conn, 64*1024)\<close>: the state is what is buffered. Data that does not fit
  first fills the buffer, which is then written; data larger than the whole buffer is written
  directly when nothing is buffered.
\<close>

definition bw_size :: nat where
  "bw_size = 65536"

definition bw_write :: "world \<Rightarrow> sock \<Rightarrow> string \<Rightarrow> string \<Rightarrow> (io_error option \<times> string) run" where
  "bw_write W c buf p =
     (if length p \<le> bw_size - length buf then ret (None, buf @ p)
      else if buf = [] then bind_io (sock_write W c p) (\<lambda>err. ret (err, []))
      else
        let k = bw_size - length buf; rest = drop k p in
        bind_io (sock_write W c (buf @ take k p)) (\<lambda>err.
          if err \<noteq> None then ret (err, [])
          else if length rest \<le> bw_size then ret (None, rest)
          else bind_io (sock_write W c rest) (\<lambda>err. ret (err, []))))"

definition bw_flush :: "world \<Rightarrow> sock \<Rightarrow> string \<Rightarrow> io_error option run" where
  "bw_flush W c buf = (if buf = [] then ret None else sock_write W c buf)"

section \<open>Flushing a batch\<close>

record loader_state =
  ls_conn :: "sock option"
  ls_batch :: "(string \<times> string) list"
  ls_written :: int
  ls_keys :: int
  ls_errs :: int
  ls_idx :: nat
  ls_pos :: nat                           \<comment> \<open>random numbers and clock readings taken by the generator\<close>
  ls_lastLog :: int

definition count_err :: "loader_state \<Rightarrow> loader_state" where
  "count_err s = s\<lparr>ls_errs := incr64 (ls_errs s)\<rparr>"

definition count_key :: "string \<Rightarrow> string \<Rightarrow> loader_state \<Rightarrow> loader_state" where
  "count_key k v s = s\<lparr>ls_written := wrap64 (ls_written s + int (length k + length v + 40)),
     ls_keys := incr64 (ls_keys s)\<rparr>"

definition set_cmd :: "string \<times> string \<Rightarrow> string" where
  "set_cmd kv = loader_writeCmd [''SET'', fst kv, snd kv]"

fun write_batch :: "world \<Rightarrow> sock \<Rightarrow> (string \<times> string) list \<Rightarrow> string \<Rightarrow> (io_error option \<times> string) run" where
  "write_batch W c [] buf = ret (None, buf)"
| "write_batch W c (kv # rest) buf = bind_io (bw_write W c buf (set_cmd kv)) (\<lambda>(err, buf').
     if err \<noteq> None then ret (err, buf') else write_batch W c rest buf')"

fun drain_replies ::
  "world \<Rightarrow> sock \<Rightarrow> (string \<times> string) list \<Rightarrow> loader_state \<Rightarrow> (bool \<times> sock \<times> loader_state) run" where
  "drain_replies W c [] s = ret (True, c, s)"
| "drain_replies W c ((k, v) # rest) s = bind_io (loader_read W c) (\<lambda>(r, c'). case r of
      Inl (RedisError _) \<Rightarrow> drain_replies W c' rest (count_err s)
    | Inl _ \<Rightarrow> ret (False, c', count_err s)
    | Inr x \<Rightarrow> drain_replies W c' rest (if x \<noteq> RStr ''OK'' then count_err s else count_key k v s))"

text \<open>Writing the commands; the second deadline is the one for reading.\<close>

definition send_batch :: "world \<Rightarrow> sock \<Rightarrow> int \<Rightarrow> loader_state \<Rightarrow> (bool \<times> loader_state) run" where
  "send_batch W c deadline s =
     bind_io (set_deadline W c deadline) (\<lambda>r. if r \<noteq> None then ret (False, s) else
     bind_io (write_batch W c (ls_batch s) []) (\<lambda>(err, buf). if err \<noteq> None then ret (False, count_err s) else
     bind_io (bw_flush W c buf) (\<lambda>err. if err \<noteq> None then ret (False, count_err s) else
     bind_io (set_deadline W c deadline) (\<lambda>r. if r \<noteq> None then ret (False, s) else ret (True, s)))))"

text \<open>Calling a method of the nil connection panics.\<close>

definition flush :: "world \<Rightarrow> loader_state \<Rightarrow> (bool \<times> loader_state) run" where
  "flush W s =
     (if ls_batch s = [] then ret (True, s)
      else bind_io (now W) (\<lambda>t.
        case ls_conn s of
          None \<Rightarrow> panic
        | Some c \<Rightarrow>
            bind_io (send_batch W c (t + 30 * 1000000000) s) (\<lambda>(ok, s1). if \<not> ok then ret (False, s1) else
            bind_io (drain_replies W c (ls_batch s) s) (\<lambda>(ok, c', s').
              if \<not> ok then ret (False, s'\<lparr>ls_conn := Some c'\<rparr>)
              else ret (True, s'\<lparr>ls_conn := Some c', ls_batch := []\<rparr>)))))"

section \<open>The main loop\<close>

definition reconnect :: "world \<Rightarrow> loader_config \<Rightarrow> loader_state \<Rightarrow> loader_state run" where
  "reconnect W cfg s = (case ls_conn s of
      None \<Rightarrow> panic
    | Some c \<Rightarrow>
        bind_io (sock_close c) (\<lambda>_.
        bind_io (loader_dial W (dc_addr cfg) (dc_dialTimeout cfg)) (\<lambda>r. case r of
          Inl e \<Rightarrow> bind_io (sleep (2 * 1000000000)) (\<lambda>_. ret (s\<lparr>ls_conn := None\<rparr>))
        | Inr c1 \<Rightarrow> bind_io (loader_identify W (dc_cmdTimeout cfg) c1) (\<lambda>(_, c2).
            ret (s\<lparr>ls_conn := Some c2\<rparr>)))))"

definition generate ::
  "inputs \<Rightarrow> (fexpr \<Rightarrow> string) \<Rightarrow> generator \<Rightarrow> loader_config \<Rightarrow> loader_state \<Rightarrow> loader_state" where
  "generate I render g cfg s =
     (let (kv, pos) = run_state (genKeyValue I render g (dc_keyPrefix cfg) (ls_idx s)) (ls_pos s)
      in s\<lparr>ls_batch := ls_batch s @ [kv], ls_idx := Suc (ls_idx s), ls_pos := pos\<rparr>)"

definition progress :: "world \<Rightarrow> int \<Rightarrow> loader_state \<Rightarrow> loader_state run" where
  "progress W start s = bind_io (since W (ls_lastLog s)) (\<lambda>d.
     if 2 * 1000000000 \<le> d
     then bind_io (since W start) (\<lambda>_. bind_io (now W) (\<lambda>t. ret (s\<lparr>ls_lastLog := t\<rparr>)))
     else ret s)"

text \<open>One iteration; \<open>True\<close> when the loop is left because the target is reached.\<close>

definition loader_step ::
  "world \<Rightarrow> inputs \<Rightarrow> (fexpr \<Rightarrow> string) \<Rightarrow> generator \<Rightarrow> loader_config \<Rightarrow> int \<Rightarrow> int \<Rightarrow> loader_state
     \<Rightarrow> (bool \<times> loader_state) run" where
  "loader_step W I render g cfg target start s =
     (let s1 = generate I render g cfg s in
      if wrap64 (dc_batchSize cfg * 2) \<le> 2 * int (length (ls_batch s1)) \<or> target \<le> ls_written s1
      then bind_io (flush W s1) (\<lambda>(ok, s2).
        if \<not> ok then bind_io (reconnect W cfg s2) (\<lambda>s3. ret (False, s3))
        else if target \<le> ls_written s2 then ret (True, s2)
        else bind_io (progress W start s2) (\<lambda>s3. ret (False, s3)))
      else bind_io (progress W start s1) (\<lambda>s2. ret (False, s2)))"

datatype loader_input = Signal | Proceed

datatype loader_result = DialFatal | Running loader_state | Finished bool loader_state

text \<open>The final flush, and the close of the first connection \<open>c0\<close>.\<close>

definition finish :: "world \<Rightarrow> sock \<Rightarrow> int \<Rightarrow> loader_state \<Rightarrow> loader_result run" where
  "finish W c0 start s = bind_io (flush W s) (\<lambda>(ok, s1).
     bind_io (since W start) (\<lambda>_. bind_io (sock_close c0) (\<lambda>_. ret (Finished ok s1))))"

fun loader_loop ::
  "world \<Rightarrow> inputs \<Rightarrow> (fexpr \<Rightarrow> string) \<Rightarrow> generator \<Rightarrow> loader_config \<Rightarrow> int \<Rightarrow> sock \<Rightarrow> int
     \<Rightarrow> loader_input list \<Rightarrow> loader_state \<Rightarrow> loader_result run" where
  "loader_loop W I render g cfg target c0 start [] s = ret (Running s)"
| "loader_loop W I render g cfg target c0 start (Signal # ins) s = finish W c0 start s"
| "loader_loop W I render g cfg target c0 start (Proceed # ins) s =
     bind_io (loader_step W I render g cfg target start s) (\<lambda>(leave, s1).
       if leave then finish W c0 start s1 else loader_loop W I render g cfg target c0 start ins s1)"

definition loader_main ::
  "world \<Rightarrow> inputs \<Rightarrow> (fexpr \<Rightarrow> string) \<Rightarrow> loader_config \<Rightarrow> loader_input list \<Rightarrow> loader_result run" where
  "loader_main W I render cfg ins =
     bind_io (loader_dial W (dc_addr cfg) (dc_dialTimeout cfg)) (\<lambda>r. case r of
       Inl e \<Rightarrow> ret DialFatal
     | Inr c0 \<Rightarrow>
         bind_io (loader_identify W (dc_cmdTimeout cfg) c0) (\<lambda>(_, c1).
         let (g, pos) = run_state (newGenerator I) 0;
             target = wrap64 (dc_targetGB cfg * 1024 * 1024 * 1024)
         in bind_io (now W) (\<lambda>start.
            if \<not> make_ok 16 (wrap64 (dc_batchSize cfg * 2)) then panic
            else loader_loop W I render g cfg target c0 start ins
              \<lparr>ls_conn = Some c1, ls_batch = [], ls_written = 0, ls_keys = 0, ls_errs = 0, ls_idx = 0,
               ls_pos = pos, ls_lastLog = start\<rparr>)))"

end
