(* ===== verification/Data_Loader_Props.thy ===== *)
theory Data_Loader_Props
  imports Data_Loader
begin

text \<open>
  What the data loader sends and counts: a flush writes exactly the commands of its batch, reads
  one reply for each, and keeps the batch if it fails.
\<close>

section \<open>The bytes on the wire\<close>

fun payload :: "string \<Rightarrow> event \<Rightarrow> string" where
  "payload addr (EvWrite a bytes) = (if a = addr then bytes else [])"
| "payload addr _ = []"

definition bytes_to :: "string \<Rightarrow> event list \<Rightarrow> string" where
  "bytes_to addr es = concat (map (payload addr) es)"

definition receives :: "string \<Rightarrow> event list \<Rightarrow> nat" where
  "receives addr es = length (filter (\<lambda>e. e = EvRecv addr) es)"

lemma bytes_to_simps [simp]:
  "bytes_to addr [] = []" "bytes_to addr (e # es) = payload addr e @ bytes_to addr es"
  "bytes_to addr (es @ es') = bytes_to addr es @ bytes_to addr es'"
  by (simp_all add: bytes_to_def)

lemma receives_simps [simp]:
  "receives addr [] = 0" "receives addr (e # es) = (if e = EvRecv addr then 1 else 0) + receives addr es"
  "receives addr (es @ es') = receives addr es + receives addr es'"
  by (simp_all add: receives_def)

definition batch_bytes :: "(string \<times> string) list \<Rightarrow> string" where
  "batch_bytes batch = concat (map (\<lambda>(k, v). encodeCommand [''SET'', k, v]) batch)"

lemma set_cmd_eq: "set_cmd kv = (case kv of (k, v) \<Rightarrow> encodeCommand [''SET'', k, v])"
  by (simp add: set_cmd_def loader_writeCmd_def split: prod.split)

lemma batch_bytes_simps [simp]: "batch_bytes [] = []" "batch_bytes (kv # kvs) = set_cmd kv @ batch_bytes kvs"
  by (simp_all add: batch_bytes_def set_cmd_eq)

text \<open>
  \<open>writes m Q\<close>: \<open>m\<close> reads nothing, and \<open>Q\<close> holds of its result and of the bytes it has written.
\<close>

definition writes :: "string \<Rightarrow> 'a run \<Rightarrow> ('a \<Rightarrow> string \<Rightarrow> bool) \<Rightarrow> bool" where
  "writes addr m Q \<longleftrightarrow> (\<forall>h. wp m (\<lambda>x h'. \<exists>es. h' = h @ es \<and> receives addr es = 0 \<and> Q x (bytes_to addr es)) h)"

lemma writes_ret: "Q x [] \<Longrightarrow> writes addr (ret x) Q"
  by (simp add: writes_def)

lemma writes_bind:
  assumes "writes addr m P" "\<And>x bs. P x bs \<Longrightarrow> writes addr (f x) (\<lambda>y bs'. Q y (bs @ bs'))"
  shows "writes addr (bind_io m f) Q"
  unfolding writes_def wp_bind
proof
  fix h
  show "wp m (\<lambda>x. wp (f x) (\<lambda>y h'. \<exists>es. h' = h @ es \<and> receives addr es = 0 \<and> Q y (bytes_to addr es))) h"
  proof (rule wp_mono)
    show "wp m (\<lambda>x h'. \<exists>es. h' = h @ es \<and> receives addr es = 0 \<and> P x (bytes_to addr es)) h"
      using assms(1) unfolding writes_def by blast
    fix x h'
    assume "\<exists>es. h' = h @ es \<and> receives addr es = 0 \<and> P x (bytes_to addr es)"
    then obtain es where es: "h' = h @ es" "receives addr es = 0" "P x (bytes_to addr es)" by blast
    have "wp (f x) (\<lambda>y h2. \<exists>es2. h2 = h' @ es2 \<and> receives addr es2 = 0 \<and>
        Q y (bytes_to addr es @ bytes_to addr es2)) h'"
      using assms(2)[OF es(3)] unfolding writes_def by blast
    moreover have "\<exists>es'. h2 = h @ es' \<and> receives addr es' = 0 \<and> Q y (bytes_to addr es')"
      if "h2 = h' @ es2" "receives addr es2 = 0" "Q y (bytes_to addr es @ bytes_to addr es2)" for y h2 es2
      using that es(1,2) by (intro exI[of _ "es @ es2"]) simp
    ultimately show "wp (f x) (\<lambda>y h'. \<exists>es. h' = h @ es \<and> receives addr es = 0 \<and> Q y (bytes_to addr es)) h'"
      by (auto elim!: wp_mono)
  qed
qed

lemma writes_mono: "writes addr m P \<Longrightarrow> (\<And>x bs. P x bs \<Longrightarrow> Q x bs) \<Longrightarrow> writes addr m Q"
  unfolding writes_def by (blast intro: wp_mono)

lemma writes_sock_write: "writes (sock_addr c) (sock_write W c bytes) (\<lambda>_ bs. bs = bytes)"
  by (auto simp: writes_def sock_write_def)

text \<open>
  The buffered writer: without an error, what was written and what is still buffered are the data
  given to it; with one, what was written is a part of the data, from its beginning.
\<close>

definition buffered :: "string \<Rightarrow> io_error option \<times> string \<Rightarrow> string \<Rightarrow> bool" where
  "buffered dat x bs \<longleftrightarrow> (if fst x = None then bs @ snd x = dat \<and> length (snd x) \<le> bw_size else prefix bs dat)"

lemma bw_write_data:
  assumes "length buf \<le> bw_size"
  shows "writes (sock_addr c) (bw_write W c buf p) (buffered (buf @ p))"
proof -
  have direct: "writes (sock_addr c) (bind_io (sock_write W c q) (\<lambda>err. ret (err, []))) (buffered q)" for q
    by (rule writes_bind[OF writes_sock_write], rule writes_ret) (auto simp: buffered_def)
  show ?thesis
    unfolding bw_write_def Let_def
    using assms direct[of p]
    by (auto intro!: writes_ret writes_bind[OF writes_sock_write] simp: buffered_def take_is_prefix
        split del: if_split split: if_split)
qed

lemma write_batch_data:
  "length buf \<le> bw_size \<Longrightarrow> writes (sock_addr c) (write_batch W c batch buf) (buffered (buf @ batch_bytes batch))"
proof (induction batch arbitrary: buf)
  case Nil
  then show ?case by (simp add: writes_ret buffered_def)
next
  case (Cons kv rest)
  have "writes (sock_addr c) (case x of (err, buf') \<Rightarrow>
          if err \<noteq> None then ret (err, buf') else write_batch W c rest buf')
      (\<lambda>y bs'. buffered (buf @ batch_bytes (kv # rest)) y (bs @ bs'))"
    if "buffered (buf @ set_cmd kv) x bs" for x bs
  proof (cases "fst x")
    case None
    with that have x: "bs @ snd x = buf @ set_cmd kv" "length (snd x) \<le> bw_size" by (auto simp: buffered_def)
    have "buffered (buf @ batch_bytes (kv # rest)) y (bs @ bs')"
      if "buffered (snd x @ batch_bytes rest) y bs'" for y bs'
    proof -
      have "buf @ batch_bytes (kv # rest) = bs @ snd x @ batch_bytes rest"
        using x(1) by (metis append.assoc batch_bytes_simps(2))
      with that show ?thesis
        unfolding buffered_def by (auto split: if_splits simp del: batch_bytes_simps)
    qed
    with Cons.IH[OF x(2)] None show ?thesis by (auto simp: split_beta elim: writes_mono)
  next
    case (Some e)
    with that have "prefix bs (buf @ set_cmd kv)" by (simp add: buffered_def)
    then have "prefix bs (buf @ batch_bytes (kv # rest))" by (metis append.assoc batch_bytes_simps(2) prefix_prefix)
    with Some show ?thesis by (auto simp: split_beta buffered_def intro: writes_ret)
  qed
  then show ?case
    unfolding write_batch.simps by (rule writes_bind[OF bw_write_data[OF Cons.prems]])
qed

section \<open>The replies\<close>

definition sane :: "loader_state \<Rightarrow> bool" where
  "sane s \<longleftrightarrow> 0 \<le> ls_keys s \<and> 0 \<le> ls_errs s"

text \<open>Every reply that is read is counted, as a key or as an error.\<close>

definition counted_upto :: "nat \<Rightarrow> loader_state \<Rightarrow> loader_state \<Rightarrow> bool" where
  "counted_upto n s s' \<longleftrightarrow> ls_keys s' + ls_errs s' = ls_keys s + ls_errs s + int n \<and>
     ls_keys s \<le> ls_keys s' \<and> ls_errs s \<le> ls_errs s' \<and> ls_batch s' = ls_batch s"

lemma counted_step:
  assumes "sane s" "ls_keys s + ls_errs s < int64_max"
  shows "counted_upto 1 s (count_err s)" "counted_upto 1 s (count_key k v s)"
  using assms by (auto simp: counted_upto_def count_err_def count_key_def incr64_below sane_def)

lemma counted_trans: "counted_upto m s s1 \<Longrightarrow> counted_upto n s1 s2 \<Longrightarrow> counted_upto (m + n) s s2"
  by (auto simp: counted_upto_def)

lemma counted_sane: "counted_upto n s s' \<Longrightarrow> sane s \<Longrightarrow> sane s'"
  by (auto simp: counted_upto_def sane_def)

lemma loader_read_events:
  "wp (loader_read W c) (\<lambda>x h'. h' = h @ [EvRecv (sock_addr c)] \<and> sock_addr (snd x) = sock_addr c) h"
  by (auto simp: loader_read_def split: prod.splits out.splits)

definition drained_upto :: "nat \<Rightarrow> string \<Rightarrow> loader_state \<Rightarrow> bool \<times> sock \<times> loader_state \<Rightarrow> event list \<Rightarrow> bool" where
  "drained_upto n addr s x es \<longleftrightarrow> (case x of (ok, c', s') \<Rightarrow>
     (\<exists>m \<le> n. receives addr es = m \<and> bytes_to addr es = [] \<and> counted_upto m s s' \<and> (ok \<longrightarrow> m = n)))"

lemma drained_Suc:
  assumes "counted_upto 1 s s1" "drained_upto n addr s1 x es"
  shows "drained_upto (Suc n) addr s x (EvRecv addr # es)"
  using assms counted_trans[OF assms(1)] by (auto simp: drained_upto_def split: prod.splits)

lemma drain_replies_count:
  assumes "sane s" "ls_keys s + ls_errs s + int (length batch) \<le> int64_max"
  shows "wp (drain_replies W c batch s)
    (\<lambda>x h'. \<exists>es. h' = h @ es \<and> drained_upto (length batch) (sock_addr c) s x es) h"
  using assms
proof (induction batch arbitrary: c s h)
  case Nil
  then show ?case by (simp add: drained_upto_def counted_upto_def)
next
  case (Cons kv rest)
  let ?Q = "\<lambda>x h'. \<exists>es. h' = h @ es \<and> drained_upto (length (kv # rest)) (sock_addr c) s x es"
  obtain k v where kv: "kv = (k, v)" by fastforce
  have room: "ls_keys s + ls_errs s < int64_max" using Cons.prems(2) by simp
  note one = counted_step[OF Cons.prems(1) room]
  have more: "wp (drain_replies W c' rest s1) ?Q (h @ [EvRecv (sock_addr c)])"
    if s1: "counted_upto 1 s s1" and c': "sock_addr c' = sock_addr c" for c' s1
  proof -
    have "ls_keys s1 + ls_errs s1 + int (length rest) \<le> int64_max"
      using s1 Cons.prems(2) by (simp add: counted_upto_def)
    from Cons.IH[OF counted_sane[OF s1 Cons.prems(1)] this, of c' "h @ [EvRecv (sock_addr c)]"]
    show ?thesis by (rule wp_mono) (use c' drained_Suc[OF s1] in auto)
  qed
  have stop: "?Q (False, c', count_err s) (h @ [EvRecv (sock_addr c)])" for c'
    using one(1) by (intro exI[of _ "[EvRecv (sock_addr c)]"]) (auto simp: drained_upto_def)
  show ?case
    unfolding kv drain_replies.simps wp_bind
    by (rule wp_mono[OF loader_read_events])
      (use more[OF one(1)] more[OF one(2)[of k v]] stop kv in \<open>auto split: sum.split redis_error.split prod.split\<close>)
qed

section \<open>A flush\<close>

text \<open>What a flush of the state \<open>s\<close> over a connection to \<open>addr\<close> has done.\<close>

definition flushed :: "string \<Rightarrow> loader_state \<Rightarrow> bool \<Rightarrow> loader_state \<Rightarrow> event list \<Rightarrow> bool" where
  "flushed addr s ok s' es \<longleftrightarrow>
     (if ok then bytes_to addr es = batch_bytes (ls_batch s) \<and> receives addr es = length (ls_batch s) \<and>
        ls_batch s' = [] \<and> ls_keys s' + ls_errs s' = ls_keys s + ls_errs s + int (length (ls_batch s))
      else prefix (bytes_to addr es) (batch_bytes (ls_batch s)) \<and> ls_batch s' = ls_batch s) \<and>
     ls_keys s \<le> ls_keys s' \<and> ls_errs s \<le> ls_errs s'"

lemma wp_writes:
  assumes "writes addr m P" "\<And>x es. receives addr es = 0 \<Longrightarrow> P x (bytes_to addr es) \<Longrightarrow> wp (f x) Q (h @ es)"
  shows "wp (bind_io m f) Q h"
proof -
  have "wp m (\<lambda>x h'. \<exists>es. h' = h @ es \<and> receives addr es = 0 \<and> P x (bytes_to addr es)) h"
    using assms(1) unfolding writes_def by blast
  then show ?thesis unfolding wp_bind by (rule wp_mono) (use assms(2) in blast)
qed

lemma writes_quiet: "writes addr (now W) (\<lambda>_ bs. bs = [])" "writes addr (set_deadline W c t) (\<lambda>_ bs. bs = [])"
  by (auto simp: writes_def now_def set_deadline_def)

lemma bind_io_assoc: "bind_io (bind_io m f) g = bind_io m (\<lambda>x. bind_io (f x) g)"
  by (rule ext) (simp add: io_simps split: prod.split out.split)

lemma bw_flush_data: "writes (sock_addr c) (bw_flush W c buf) (\<lambda>_ bs. bs = buf)"
  unfolding bw_flush_def using writes_sock_write by (auto intro: writes_ret)

lemma counted_err:
  assumes "sane s" "ls_keys s + ls_errs s < int64_max"
  shows "ls_keys s \<le> ls_keys (count_err s)" "ls_errs s \<le> ls_errs (count_err s)" "ls_batch (count_err s) = ls_batch s"
  using counted_step(1)[OF assms] by (auto simp: counted_upto_def)

lemma send_batch_data:
  "writes (sock_addr c) (send_batch W c t s) (\<lambda>(ok, s') bs.
     if ok then bs = batch_bytes (ls_batch s) else prefix bs (batch_bytes (ls_batch s)) \<and> s' \<in> {s, count_err s})"
proof -
  have none: "length ([] :: string) \<le> bw_size" by simp
  show ?thesis
    unfolding send_batch_def
    by (auto intro!: writes_ret writes_bind[OF writes_quiet(2)] writes_bind[OF write_batch_data[OF none]]
        writes_bind[OF bw_flush_data] simp: buffered_def)
qed

lemma drain_outcome:
  assumes "sane s" "ls_keys s + ls_errs s + int (length (ls_batch s)) \<le> int64_max"
    and "receives (sock_addr c) es1 = 0" "bytes_to (sock_addr c) es1 = batch_bytes (ls_batch s)"
  shows "wp (bind_io (drain_replies W c (ls_batch s) s) (\<lambda>(ok, c', s').
        if \<not> ok then ret (False, s'\<lparr>ls_conn := Some c'\<rparr>) else ret (True, s'\<lparr>ls_conn := Some c', ls_batch := []\<rparr>)))
      (\<lambda>(ok, s') h'. \<exists>es. h' = h @ es \<and> flushed (sock_addr c) s ok s' es) (h @ es1)"
  unfolding wp_bind
  by (rule wp_mono[OF drain_replies_count[OF assms(1,2)]])
    (use assms(3,4) in \<open>auto simp: drained_upto_def flushed_def counted_upto_def\<close>)

lemma flush_outcome:
  assumes conn: "ls_conn s = Some c" and "sane s"
    and room: "ls_keys s + ls_errs s + int (length (ls_batch s)) \<le> int64_max"
  shows "wp (flush W s) (\<lambda>(ok, s') h'. \<exists>es. h' = h @ es \<and> flushed (sock_addr c) s ok s' es) h"
proof (cases "ls_batch s = []")
  case True
  then show ?thesis by (simp add: flush_def flushed_def)
next
  case False
  then have less: "ls_keys s + ls_errs s < int64_max" using room by (cases "ls_batch s") auto
  note err = counted_err[OF assms(2) less]
  have "wp (case x of (ok, s1) \<Rightarrow> if \<not> ok then ret (False, s1) else
        bind_io (drain_replies W c (ls_batch s) s) (\<lambda>(ok, c', s').
          if \<not> ok then ret (False, s'\<lparr>ls_conn := Some c'\<rparr>) else ret (True, s'\<lparr>ls_conn := Some c', ls_batch := []\<rparr>)))
      (\<lambda>(ok, s') h'. \<exists>es. h' = h @ es \<and> flushed (sock_addr c) s ok s' es) (h @ es)"
    if "receives (sock_addr c) es = 0" "case x of (ok, s') \<Rightarrow> if ok then bytes_to (sock_addr c) es = batch_bytes (ls_batch s)
         else prefix (bytes_to (sock_addr c) es) (batch_bytes (ls_batch s)) \<and> s' \<in> {s, count_err s}" for x es
  proof (cases x)
    case (Pair ok s')
    show ?thesis
    proof (cases ok)
      case True
      then show ?thesis using drain_outcome[OF assms(2) room that(1)] that(2) Pair by simp
    next
      case False
      then have "flushed (sock_addr c) s False s' es" using that(2) err Pair by (auto simp: flushed_def)
      then show ?thesis using False Pair by simp
    qed
  qed
  note rest = this
  have "writes (sock_addr c) (bind_io (now W) (\<lambda>t. send_batch W c (t + 30 * 1000000000) s)) (\<lambda>(ok, s') bs.
     if ok then bs = batch_bytes (ls_batch s) else prefix bs (batch_bytes (ls_batch s)) \<and> s' \<in> {s, count_err s})"
    by (rule writes_bind[OF writes_quiet(1)]) (use send_batch_data in simp)
  note sent = this
  have "flush W s = bind_io (bind_io (now W) (\<lambda>t. send_batch W c (t + 30 * 1000000000) s)) (\<lambda>(ok, s1).
      if \<not> ok then ret (False, s1) else
      bind_io (drain_replies W c (ls_batch s) s) (\<lambda>(ok, c', s').
        if \<not> ok then ret (False, s'\<lparr>ls_conn := Some c'\<rparr>) else ret (True, s'\<lparr>ls_conn := Some c', ls_batch := []\<rparr>)))"
    using False conn by (simp add: flush_def bind_io_assoc)
  then show ?thesis
    by (simp only:) (rule wp_writes[OF sent], rule rest, auto split: prod.splits)
qed

section \<open>Properties\<close>

text \<open>
  C36. A flush pipelines exactly its batch. If it succeeds, the bytes it has written are the
  \<^verbatim>\<open>SET\<close> commands of the batch, one after the other in their order, however the buffer cut them
  into writes; one reply was read for each command and counted as a key or as an error; and the
  batch is empty. If it fails, it has written a part of these bytes from the beginning, and the batch
  is kept for the next attempt.
\<close>

theorem flush_pipelines_batch:
  assumes "ls_conn s = Some c" "0 \<le> ls_keys s" "0 \<le> ls_errs s"
    and "ls_keys s + ls_errs s + int (length (ls_batch s)) \<le> int64_max"
    and "flush W s h = (Done (ok, s'), h')"
  shows "\<exists>es. h' = h @ es \<and> flushed (sock_addr c) s ok s' es"
  using wpD[OF flush_outcome[OF assms(1) _ assms(4)] assms(5)] assms(2,3) by (simp add: sane_def)

lemma flush_nil_conn: "ls_conn s = None \<Longrightarrow> ls_batch s \<noteq> [] \<Longrightarrow> flush W s h = (Panic, h @ [EvNow])"
  by (simp add: flush_def io_simps now_def)

lemma length_generate: "ls_batch (generate I render g cfg s) \<noteq> []" "ls_conn (generate I render g cfg s) = ls_conn s"
  "length (ls_batch (generate I render g cfg s)) = Suc (length (ls_batch s))"
  by (simp_all add: generate_def split: prod.split)

text \<open>
  C37. The loader does not survive a failed reconnection: if a flush fails and the server cannot be
  dialled again at once, the connection is nil, and the next iteration, instead of dialling
  again, uses it and panics.
\<close>

theorem failed_redial_panics:
  assumes "0 < dc_batchSize cfg" "dc_batchSize cfg * 2 \<le> int64_max"
    and "dc_batchSize cfg \<le> int (length (ls_batch (generate I render g cfg s)))"
    and "flush W (generate I render g cfg s) h = (Done (False, s1), h1)" "ls_conn s1 = Some c"
    and "ls_batch s1 = ls_batch (generate I render g cfg s)"
    and "w_dial W (h1 @ [EvClose (sock_addr c)]) (dc_addr cfg) = Some e"
  shows "\<exists>h2. loader_loop W I render g cfg target c0 start (Proceed # Proceed # ins) s h = (Panic, h2)"
proof -
  have wrap: "wrap64 (dc_batchSize cfg * 2) = dc_batchSize cfg * 2" using assms(1,2) by simp
  define s2 where "s2 = s1\<lparr>ls_conn := None\<rparr>"
  have first: "loader_step W I render g cfg target start s h =
      (Done (False, s2), h1 @ [EvClose (sock_addr c), EvDial (dc_addr cfg) (dc_dialTimeout cfg), EvSleep 2000000000])"
    using assms(3-7)
    by (simp add: loader_step_def Let_def wrap io_simps reconnect_def sock_close_def loader_dial_def dial_def sleep_def s2_def)
  let ?h2 = "h1 @ [EvClose (sock_addr c), EvDial (dc_addr cfg) (dc_dialTimeout cfg), EvSleep 2000000000]"
  let ?s3 = "generate I render g cfg s2"
  have "flush W ?s3 ?h2 = (Panic, ?h2 @ [EvNow])"
    by (rule flush_nil_conn) (simp_all add: length_generate s2_def)
  moreover have "dc_batchSize cfg \<le> int (length (ls_batch ?s3))"
    using assms(3,6) by (simp add: length_generate(3) s2_def)
  ultimately have "loader_step W I render g cfg target start s2 ?h2 = (Panic, ?h2 @ [EvNow])"
    by (simp add: loader_step_def Let_def wrap io_simps)
  with first show ?thesis by (simp add: io_simps)
qed

end
