(* ===== verification/Scenarios_Tools.thy ===== *)
theory Scenarios_Tools
  imports Loader_Keys Data_Loader_Props
begin

text \<open>
  The theorems about the two tools, applied in a concrete world: the clock advances by one
  second with every event, the server cannot be dialled before \<open>n\<close> events have happened,
  answers \<^verbatim>\<open>INCR\<close> with the number 1 and everything else with \<^verbatim>\<open>+OK\<close>.
\<close>

definition tool_answer :: "event list \<Rightarrow> string \<Rightarrow> string \<times> io_error" where
  "tool_answer h addr =
     (if h \<noteq> [] \<and> last h = sent addr [''INCR'', ''c''] then encodeReply (RInt 1) else ''+OK'' @ crlf, EOF)"

definition tool_world :: "nat \<Rightarrow> world" where
  "tool_world n = \<lparr>w_now = \<lambda>h. 1000000000 * int (length h), w_list = \<lambda>_ _ _. Inr [], w_slices = \<lambda>_ _ _. Inr [],
     w_patch = \<lambda>_ _ _ _. None, w_dial = \<lambda>h _. if length h < n then Some EOF else None,
     w_set_deadline = \<lambda>_ _ _. None, w_write = \<lambda>_ _ _. None, w_recv = tool_answer\<rparr>"

lemma tool_world_simps [simp]:
  "w_now (tool_world n) h = 1000000000 * int (length h)"
  "w_dial (tool_world n) h addr = (if length h < n then Some EOF else None)"
  "w_set_deadline (tool_world n) h addr t = None"
  "w_write (tool_world n) h addr bytes = None"
  "w_recv (tool_world n) = tool_answer"
  by (simp_all add: tool_world_def)

lemma read_ok: "readReply fin (''+OK'' @ crlf) = (Done (Inr (RStr ''OK'')), [])"
  by (simp add: readReply.simps readLine_def)

lemma read_one: "readReply fin (encodeReply (RInt 1)) = (Done (Inr (RInt 1)), [])"
  using readReply_encodeReply[of "RInt 1" fin "[]"] by simp

lemma tool_clean: "clean_recv (tool_world n)"
  using read_ok read_one by (auto simp: clean_recv_def tool_answer_def simp del: encodeReply.simps)

section \<open>The probe\<close>

definition tool_config :: probe_config where
  "tool_config = \<lparr>pc_addr = ''a:1'', pc_interval = 1, pc_dialTimeout = 1, pc_cmdTimeout = 1, pc_probeKey = ''c'',
     pc_dataPrefix = ''p'', pc_logEvery = 0\<rparr>"

lemma tool_config_simps [simp]:
  "pc_addr tool_config = ''a:1''" "pc_interval tool_config = 1" "pc_dialTimeout tool_config = 1"
  "pc_cmdTimeout tool_config = 1" "pc_probeKey tool_config = ''c''" "pc_logEvery tool_config = 0"
  by (simp_all add: tool_config_def)

definition tool_exchange :: "sock \<Rightarrow> string list \<Rightarrow> event list \<Rightarrow> event list" where
  "tool_exchange c args h =
     h @ [EvNow, EvDeadline (sock_addr c) (1000000000 * int (length h) + 1), sent (sock_addr c) args, EvRecv (sock_addr c)]"

lemma tool_do:
  assumes "sock_buf c = []"
  shows "probe_do (tool_world n) 1 c args h =
    (Done (Inr (if args = [''INCR'', ''c''] then RInt 1 else RStr ''OK''), c), tool_exchange c args h)"
  using assms read_ok[of EOF] read_one[of EOF]
  by (auto simp: probe_do_def now_def set_deadline_def sock_write_def read_reply_def tool_readReply_def io_simps
      tool_answer_def tool_exchange_def simp del: encodeReply.simps)

text \<open>A server that answers a search with two pages of one key each.\<close>

definition scan_reply :: "string list \<Rightarrow> reply" where
  "scan_reply args =
     (if args = scan_cmd ''p'' ''0'' then RArr [RStr ''7'', RArr [RStr ''p:a'']] else RArr [RStr ''0'', RArr [RStr ''p:b'']])"

definition scan_world :: world where
  "scan_world = tool_world 0\<lparr>w_recv := \<lambda>h addr.
     (encodeReply (scan_reply (if h \<noteq> [] \<and> last h = sent addr (scan_cmd ''p'' ''0'') then scan_cmd ''p'' ''0'' else [])), EOF)\<rparr>"

lemma read_scan: "readReply fin (encodeReply (scan_reply args)) = (Done (Inr (scan_reply args)), [])"
  using readReply_encodeReply[of "scan_reply args" fin "[]"] by (simp add: scan_reply_def max_alloc_def split: if_splits)

lemma scan_clean: "clean_recv scan_world"
  using read_scan by (simp add: clean_recv_def scan_world_def)

lemma scan_do:
  assumes "sock_buf c = []"
  shows "probe_do scan_world 1 c args h = (Done (Inr (scan_reply args), c), tool_exchange c args h)"
proof -
  have "scan_reply (if args = scan_cmd ''p'' ''0'' then scan_cmd ''p'' ''0'' else []) = scan_reply args"
    by (simp add: scan_reply_def)
  then show ?thesis
    using assms read_scan[of EOF]
    by (simp add: probe_do_def now_def set_deadline_def sock_write_def read_reply_def tool_readReply_def io_simps
        scan_world_def tool_exchange_def)
qed

abbreviation p_cmd :: "string \<Rightarrow> string list" where
  "p_cmd cursor \<equiv> [''SCAN'', cursor, ''MATCH'', ''p:*'', ''COUNT'', ''50'']"

lemma scan_reply_simps:
  "next_cursor (Inr (scan_reply (p_cmd ''0''))) = Some ''7''"
  "page (Inr (scan_reply (p_cmd ''0''))) = [''p:a'']"
  "next_cursor (Inr (scan_reply (p_cmd ''7''))) = None"
  "page (Inr (scan_reply (p_cmd ''7''))) = [''p:b'']"
  by (simp_all add: scan_reply_def next_cursor_def page_def strings_def map_filter_simps str_of_def)

lemma scan_productive: "productive (Inr (scan_reply args))"
  by (simp add: productive_def scan_reply_def page_def strings_def map_filter_simps)

lemma scan_second:
  assumes "scan_dialogue scan_world 1 ''p'' ''7'' c h rs c' h'" "sock_buf c = []"
  shows "map page rs = [[''p:b'']]"
  using assms(1)
proof (cases rule: scan_dialogue.cases)
  case (last r)
  then show ?thesis using assms(2) by (auto simp: scan_do scan_reply_simps)
next
  case (go_on r c1 h1 cursor' rs')
  then show ?thesis using assms(2) by (auto simp: scan_do scan_reply_simps)
qed

theorem scan_bounded_and_ends_witness:
  "\<exists>c' h'. scanKeys 100 scan_world 1 \<lparr>sock_addr = ''a:1'', sock_buf = []\<rparr> ''p'' 100 [] =
      (Done (Some [''p:a'', ''p:b''], c'), h')"
proof -
  let ?c = "\<lparr>sock_addr = ''a:1'', sock_buf = []\<rparr>"
  have "\<forall>cursor c h r c' h'. sock_buf c = [] \<and>
      probe_do scan_world 1 c (scan_cmd ''p'' cursor) h = (Done (r, c'), h') \<longrightarrow> productive r"
    by (auto simp: scan_do simp del: append.simps intro: scan_productive)
  from scan_bounded_and_ends[OF _ _ scan_clean _ this, of 100 100 ?c "[]"]
  obtain rs c' h' where run: "scanKeys 100 scan_world 1 ?c ''p'' 100 [] =
      (Done (Some (take (nat 100) (concat (map page rs))), c'), h')"
    and talk: "scan_dialogue scan_world 1 ''p'' ''0'' ?c [] rs c' h'" and ends: "search 100 [] rs"
    by auto
  from talk ends have "map page rs = [[''p:a''], [''p:b'']]"
  proof (cases rule: scan_dialogue.cases)
    case (last r)
    then show ?thesis using ends by (auto simp: scan_do scan_reply_simps)
  next
    case (go_on r c1 h1 cursor' rs')
    then have "r = Inr (scan_reply (p_cmd ''0''))" "sock_buf c1 = []" "cursor' = ''7''"
      by (auto simp: scan_do scan_reply_simps)
    with go_on scan_second[of c1 h1 rs' c' h'] show ?thesis by (simp add: scan_reply_simps)
  qed
  with run show ?thesis by simp
qed

theorem probe_accounts_for_every_tick_witness:
  "\<exists>status s h'. probe_main (tool_world 1) tool_config (\<lambda>_. 0) 1 [TickC, TickC, StopSignal] [] = (Done (status, s), h') \<and>
    accounted 2 status s"
  using probe_accounts_for_every_tick[OF tool_clean, of tool_config "[TickC, TickC, StopSignal]" 1 "\<lambda>_. 0" 1 "[]"]
  by (simp add: numeral_2_eq_2)

abbreviation tool_start :: probe_state where
  "tool_start \<equiv> probe_start tool_config (\<lambda>_. 0)"

lemma tool_first_tick:
  "\<exists>s1. probe_tick (tool_world 1) tool_config 1 tool_start [] = (Done (True, s1), [EvDial ''a:1'' 1, EvNow]) \<and>
     ps_outageStart s1 = Some 1000000000 \<and> ps_conn s1 = None \<and> ps_tick s1 = 1 \<and> ps_sampleKeys s1 = ps_sampleKeys tool_start"
  by (simp add: probe_tick_def ensure_conn_def dial_def dial_failed_def noteFailure_def probe_start_def log_probe_def
      now_def io_simps incr64_def)

lemma tool_good_tick:
  assumes "ps_conn s = None" "ps_tick s = 1" "ps_sampleKeys s \<noteq> []" "h \<noteq> []"
  shows "\<exists>s' h'. probe_tick (tool_world 1) tool_config 1 s h = (Done (True, s'), h') \<and> ps_outageStart s' = None"
proof -
  have keys: "\<exists>key. pick_key 2 ks = Done key" if "ks \<noteq> []" for ks using that by (simp add: pick_key_def)
  then obtain key where "pick_key 2 (ps_sampleKeys s) = Done key" using assms(3) by blast
  moreover have "length h \<noteq> 0" using assms(4) by simp
  ultimately show ?thesis
    using assms(1,2)
    by (simp add: probe_tick_def ensure_conn_def dial_def on_connect_def probe_identify_def tool_do scanKeys_def
        scan_from.simps(2)[of 0, simplified] scan_round_def greet_def adopt_keys_def use_conn_def probe_get_def get_value_def
        probe_incr_def incr_value_def on_success_def since_def log_probe_def now_def io_simps incr64_def Let_def
        split: option.split)
qed

text \<open>The first tick fails to dial, the second one succeeds.\<close>

theorem outage_measured_witness:
  "\<exists>s1 s3 h3 t0 t n. probe_tick (tool_world 1) tool_config 1 tool_start [] = (Done (True, s1), [EvDial ''a:1'' 1, EvNow]) \<and>
     probe_tick (tool_world 1) tool_config 1 s1 [EvDial ''a:1'' 1, EvNow] = (Done (True, s3), h3) \<and>
     during (tool_world 1) [] [EvDial ''a:1'' 1, EvNow] t0 \<and>
     during (tool_world 1) [EvDial ''a:1'' 1, EvNow] h3 t \<and>
     reports tool_start
       [Recovered (round_duration (max int64_min (min int64_max (t - t0))) 1000000) (short (ps_backend s3)) n] s3"
proof -
  obtain s1 where s1: "probe_tick (tool_world 1) tool_config 1 tool_start [] = (Done (True, s1), [EvDial ''a:1'' 1, EvNow])"
      "ps_outageStart s1 = Some 1000000000" "ps_conn s1 = None" "ps_tick s1 = 1" "ps_sampleKeys s1 = ps_sampleKeys tool_start"
    using tool_first_tick by blast
  have "ps_sampleKeys s1 \<noteq> []"
    using counts_start(1)[of tool_config "\<lambda>_. 0"] s1(5) by (simp add: probe_counts_def Let_def)
  then obtain s3 h3 where s3: "probe_tick (tool_world 1) tool_config 1 s1 [EvDial ''a:1'' 1, EvNow] = (Done (True, s3), h3)"
      "ps_outageStart s3 = None"
    using tool_good_tick[of s1 "[EvDial ''a:1'' 1, EvNow]"] s1(3,4) by auto
  have "ps_outageStart tool_start = None" by (simp add: probe_start_def)
  from outage_measured[OF this s1(1) _ failing_ticks.none s3] s1(1,2) s3(1) show ?thesis by blast
qed

section \<open>The loader\<close>

definition tool_sock :: sock where
  "tool_sock = \<lparr>sock_addr = ''a:1'', sock_buf = []\<rparr>"

definition tool_state :: loader_state where
  "tool_state = \<lparr>ls_conn = Some tool_sock, ls_batch = [(''k'', ''v'')], ls_written = 0, ls_keys = 0, ls_errs = 0,
     ls_idx = 1, ls_pos = 0, ls_lastLog = 0\<rparr>"

lemma tool_cmd_short: "length (set_cmd (''k'', ''v'')) \<le> bw_size" "set_cmd (''k'', ''v'') \<noteq> []"
  by (simp_all add: set_cmd_eq encodeCommand_def bulk_def bw_size_def Itoa_def dec_nat.simps)

lemma tool_read:
  assumes "sock_buf c = []"
  shows "loader_read (tool_world n) c (h @ [EvDeadline a t]) =
    (Done (Inr (RStr ''OK''), c), h @ [EvDeadline a t, EvRecv (sock_addr c)])"
  using assms read_ok[of EOF]
  by (simp add: loader_read_def loader_readReply_def tool_readReply_def io_simps tool_answer_def)

lemma tool_send:
  "\<exists>h a t. send_batch (tool_world 0) tool_sock d tool_state [EvNow] = (Done (True, tool_state), h @ [EvDeadline a t])"
proof -
  have batch: "ls_batch tool_state = [(''k'', ''v'')]" by (simp add: tool_state_def)
  show ?thesis
    using tool_cmd_short
    by (simp add: send_batch_def batch bw_write_def bw_flush_def set_deadline_def sock_write_def io_simps)
qed

lemma tool_flush: "\<exists>s' h'. flush (tool_world 0) tool_state [] = (Done (True, s'), h')"
proof -
  have parts: "ls_batch tool_state = [(''k'', ''v'')]" "ls_conn tool_state = Some tool_sock" "sock_buf tool_sock = []"
    by (simp_all add: tool_state_def tool_sock_def)
  obtain h a t where "send_batch (tool_world 0) tool_sock (30 * 1000000000) tool_state [EvNow] =
      (Done (True, tool_state), h @ [EvDeadline a t])"
    using tool_send by blast
  then show ?thesis by (simp add: flush_def parts now_def io_simps tool_read)
qed

theorem flush_pipelines_batch_witness:
  "\<exists>s' es. flush (tool_world 0) tool_state [] = (Done (True, s'), es) \<and> flushed ''a:1'' tool_state True s' es"
proof -
  obtain s' h' where run: "flush (tool_world 0) tool_state [] = (Done (True, s'), h')" using tool_flush by blast
  have "\<exists>es. h' = [] @ es \<and> flushed (sock_addr tool_sock) tool_state True s' es"
    by (rule flush_pipelines_batch[OF _ _ _ _ run]) (simp_all add: tool_state_def)
  with run show ?thesis by (simp add: tool_sock_def)
qed

text \<open>A connection that breaks, to a server that does not come back.\<close>

definition broken_world :: world where
  "broken_world = tool_world 0\<lparr>w_set_deadline := \<lambda>_ _ _. Some EOF, w_dial := \<lambda>_ _. Some EOF\<rparr>"

definition tool_loader_config :: loader_config where
  "tool_loader_config = \<lparr>dc_addr = ''a:1'', dc_dialTimeout = 1, dc_cmdTimeout = 1, dc_targetGB = 1, dc_batchSize = 1,
     dc_keyPrefix = ''p''\<rparr>"

definition tool_inputs :: inputs where
  "tool_inputs = \<lparr>rnd = \<lambda>_. 1, clock = \<lambda>_. 0\<rparr>"

theorem failed_redial_panics_witness:
  "\<exists>h2. loader_loop broken_world tool_inputs (\<lambda>_. []) (tables []) tool_loader_config 1073741824 tool_sock 0
     [Proceed, Proceed] (tool_state\<lparr>ls_batch := []\<rparr>) [] = (Panic, h2)"
proof -
  let ?s = "generate tool_inputs (\<lambda>_. []) (tables []) tool_loader_config (tool_state\<lparr>ls_batch := []\<rparr>)"
  have "ls_conn ?s = Some tool_sock" "ls_batch ?s \<noteq> []" by (simp_all add: length_generate tool_state_def)
  then have run: "flush broken_world ?s [] = (Done (False, ?s), [EvNow, EvDeadline ''a:1'' 30000000000])"
    by (simp add: flush_def send_batch_def set_deadline_def now_def io_simps broken_world_def tool_sock_def)
  show ?thesis
    by (rule failed_redial_panics[OF _ _ _ run \<open>ls_conn ?s = Some tool_sock\<close>])
      (simp_all add: tool_loader_config_def length_generate broken_world_def)
qed

section \<open>Keys of both tools\<close>

text \<open>The second sample key is the profile of a user that the loader can generate.\<close>

theorem sample_keys_mostly_miss_witness:
  "\<exists>k u. k \<in> set (buildSampleKeys ''p'' (\<lambda>_. 0) 2) \<and>
     k = fst (fst (run_state (genKeyValue tool_inputs (\<lambda>_. [])
           (fst (run_state (newGenerator tool_inputs) 0)) ''p'' 1) 0)) \<and>
     (k = ''p'' @ '':user:usr_'' @ u \<or> k = ''p'' @ '':cache:api:'' @ u)"
proof -
  let ?k = "''p:user:usr_'' @ Itoa 100001 @ '':profile''"
  have sample: "?k \<in> set (buildSampleKeys ''p'' (\<lambda>_. 0) 2)"
    by (simp add: buildSampleKeys_def numeral_2_eq_2 sample_pattern_def Let_def has_suffix_def has_prefix_def)
  have "fst (run_state (usr tool_inputs) 0) = ''usr_'' @ Itoa 100001"
    by (simp add: usr_def rndN_def draw_def tool_inputs_def)
  then have "?k = fst (fst (run_state (genKeyValue tool_inputs (\<lambda>_. [])
           (fst (run_state (newGenerator tool_inputs) 0)) ''p'' 1) 0))"
    by (simp add: genKeyValue_def genUserProfile_def split_beta)
  with sample_keys_mostly_miss[OF sample this] sample show ?thesis by blast
qed

end
