(* ===== verification/Loader_Json.thy ===== *)
theory Loader_Json
  imports Loader_Data
begin

text \<open>
  The strings in the JSON text that the loader writes: a reader of JSON gets back the string that
  was encoded, and the text contains no character that HTML treats specially.
\<close>

definition hex_val :: "char \<Rightarrow> nat" where
  "hex_val c = (if is_digit c then of_char c - 48 else of_char c - 87)"

definition short_escape :: "char \<rightharpoonup> char" where
  "short_escape = map_of [(CHR 0x22, CHR 0x22), (CHR 0x5C, CHR 0x5C), (CHR ''/'', CHR ''/''), (CHR ''b'', CHR 0x08),
     (CHR ''f'', CHR 0x0C), (CHR ''n'', CHR 0x0A), (CHR ''r'', CHR 0x0D), (CHR ''t'', CHR 0x09)]"

text \<open>The text of a JSON string up to its closing quote; escapes of the form \<^verbatim>\<open>u00XX\<close> only.\<close>

function json_read :: "string \<Rightarrow> (string \<times> string) option" where
  "json_read s = (case s of
      [] \<Rightarrow> None
    | c # cs \<Rightarrow>
        if c = CHR 0x22 then Some ([], cs)
        else if c = CHR 0x5C then
          (case cs of
             CHR ''u'' # CHR ''0'' # CHR ''0'' # x # y # rest \<Rightarrow>
               map_option (apfst (Cons (char_of (16 * hex_val x + hex_val y)))) (json_read rest)
           | d # rest \<Rightarrow>
               (case short_escape d of None \<Rightarrow> None | Some e \<Rightarrow> map_option (apfst (Cons e)) (json_read rest))
           | [] \<Rightarrow> None)
        else if of_char c < (32 :: nat) then None
        else map_option (apfst (Cons c)) (json_read cs))"
  by pat_completeness auto
termination
  by (relation "measure length") auto

declare json_read.simps [simp del]

lemma hex_val_digit: "n < 16 \<Longrightarrow> hex_val (hex_digit n) = n"
  by (auto simp: hex_val_def hex_digit_def is_digit_def less_eq_char_def)

lemma char_nibbles: "of_char (c :: char) div 16 < (16 :: nat)" "of_char c mod 16 < (16 :: nat)"
  by (rule less_mult_imp_div_less, simp_all)

lemma json_read_char: "json_read (json_char c @ rest) = map_option (apfst (Cons c)) (json_read rest)"
proof -
  let ?n = "of_char c :: nat"
  have unicode: "char_of (16 * hex_val (hex_digit (?n div 16)) + hex_val (hex_digit (?n mod 16))) = c"
    using char_nibbles[of c] by (simp add: hex_val_digit)
  show ?thesis
  proof (cases "c \<in> {CHR 0x22, CHR 0x5C, CHR 0x08, CHR 0x0C, CHR 0x0A, CHR 0x0D, CHR 0x09}")
    case True
    then show ?thesis
      by (auto simp: json_char_def json_read.simps[of "CHR 0x5C # _"] short_escape_def Let_def)
  next
    case False
    show ?thesis
    proof (cases "?n < 32 \<or> c \<in> {CHR ''<'', CHR ''>'', CHR ''&''}")
      case True
      then have "json_char c = CHR 0x5C # ''u00'' @ [hex_digit (?n div 16), hex_digit (?n mod 16)]"
        using False by (auto simp: json_char_def Let_def)
      then show ?thesis using unicode by (simp add: json_read.simps[of "CHR 0x5C # _"])
    next
      case False2: False
      then have "json_char c = [c]" using False by (auto simp: json_char_def Let_def)
      then show ?thesis using False False2 by (simp add: json_read.simps[of "c # _"])
    qed
  qed
qed

lemma json_read_chars: "json_read (concat (map json_char s) @ CHR 0x22 # rest) = Some (s, rest)"
proof (induction s)
  case Nil
  show ?case by (simp add: json_read.simps[of "CHR 0x22 # _"])
next
  case (Cons c s)
  then show ?case by (simp add: json_read_char)
qed

text \<open>
  The JSON strings are right: a reader that has consumed the opening quote gets back exactly the
  string that was encoded and stops right behind its closing quote, whatever bytes it contains and
  whatever follows; and the encoded text has none of the characters that are special in HTML.
\<close>

theorem json_string_roundtrip:
  "json_read (tl (json_string s) @ rest) = Some (s, rest) \<and>
   set (json_string s) \<inter> {CHR ''<'', CHR ''>'', CHR ''&''} = {}"
proof
  show "json_read (tl (json_string s) @ rest) = Some (s, rest)"
    using json_read_chars[of s rest] by (simp add: json_string_def)
  have html: "d \<notin> {CHR ''<'', CHR ''>'', CHR ''&''}" if "is_hex d" for d
    using that by (auto simp: is_hex_def is_digit_def less_eq_char_def)
  have "set (json_char c) \<inter> {CHR ''<'', CHR ''>'', CHR ''&''} = {}" for c
  proof -
    define x y where "x = hex_digit (of_char c div 16)" and "y = hex_digit (of_char c mod 16)"
    have "x \<notin> {CHR ''<'', CHR ''>'', CHR ''&''}" "y \<notin> {CHR ''<'', CHR ''>'', CHR ''&''}"
      unfolding x_def y_def by (rule html[OF hex_digit_hex[OF char_nibbles(1)]],
          rule html[OF hex_digit_hex[OF char_nibbles(2)]])
    then show ?thesis
      unfolding json_char_def Let_def x_def[symmetric] y_def[symmetric] by auto
  qed
  then show "set (json_string s) \<inter> {CHR ''<'', CHR ''>'', CHR ''&''} = {}"
    by (auto simp: json_string_def)
qed

end
