(* ===== verification/Spec2Isabelle.thy ===== *)
theory Spec2Isabelle
  imports Scenarios_Run Scenarios_Tools Loader_Json
begin

text \<open>
  A verification of the Redis replication controller: a Kubernetes controller that keeps one
  master in each replication set of Redis Pods.

  \<^bold>\<open>The program.\<close> \<^verbatim>\<open>cmd/main.go\<close> loads the configuration (\<^verbatim>\<open>internal/config\<close>), connects to
  Kubernetes (\<^verbatim>\<open>internal/kubernetes\<close>) and runs the controller (\<^verbatim>\<open>internal/controller\<close>), under
  leader election (\<^verbatim>\<open>internal/leader\<close>) if it is enabled. On every tick the controller lists the
  Redis Pods, groups them into replication sets, asks every Pod of a set for its replication
  state over the Redis protocol (\<^verbatim>\<open>internal/redis\<close>), and then keeps, demotes or promotes Pods
  and patches their role labels. Two tools come with it: \<^verbatim>\<open>tools/failover-probe\<close> measures how long
  writes fail during a failover, and \<^verbatim>\<open>tools/data-loader\<close> fills a server with generated keys.

  \<^bold>\<open>Conventions.\<close> An effectful function is a function on the history of events, returning a
  result or a panic together with the extended history (\<open>Go_Prelude\<close>); what the API server,
  the network, the servers and the clock answer is a parameter, the record \<open>world\<close>, whose
  answers may depend on the whole history (\<open>World\<close>). Theorems that quantify over the world
  hold for every behaviour of the outside. Errors are values of sum and option types. Go's
  \<^verbatim>\<open>int\<close>, \<^verbatim>\<open>int64\<close> and durations are \<open>int\<close>, with \<open>wrap64\<close> where an operation can overflow.

  \<^bold>\<open>The theories.\<close>
  \<^item> \<open>Go_Prelude\<close>, \<open>Go_Strings\<close>, \<open>Go_Time\<close>: the part of Go and its library that the program uses:
    effects and panics with a small calculus (\<open>emits\<close>: which events an operation adds, \<open>budget\<close>: at
    most how many, \<open>wp\<close>: what holds when it returns), 64-bit wrap-around, the contract of
    \<^verbatim>\<open>sort.Slice\<close> (locale \<open>strict_weak\<close>) and of the loops that pick a best element (locale
    \<open>best_choice\<close>), strings, decimal numbers, time stamps.
  \<^item> \<open>Resp\<close> (\<^verbatim>\<open>resp.go\<close>), \<open>Redis_Parse\<close> (\<^verbatim>\<open>parse.go\<close>), \<open>Redis_Client\<close> (\<^verbatim>\<open>client.go\<close>): the encoder and
    the recursive decoder of the protocol, the parsers of \<^verbatim>\<open>ROLE\<close> and \<^verbatim>\<open>INFO\<close>, and the
    connection. Shown: round trips of replies (locale \<open>framed\<close>), commands and \<^verbatim>\<open>INFO\<close> texts,
    termination, saturation of numbers, the panic on oversized lengths, deadlines.
  \<^item> \<open>Config\<close> (\<^verbatim>\<open>config.go\<close>): shown are the constraints of a loaded configuration, the defaults,
    the namespace list, and the overflow of durations.
  \<^item> \<open>Pods\<close> (\<^verbatim>\<open>pods.go\<close>): listing and patching. Shown: a listing is a sorted permutation of what the
    server lists and does not depend on the server's order; what accepted patches do.
  \<^item> \<open>Selection\<close>, \<open>Reconcile\<close> (\<^verbatim>\<open>controller.go\<close>): the decisions, and the effects built on them.
    \<open>Selection\<close> shows that the chosen Pods are best ones and that grouping is a partition.
  \<^item> \<open>Reconcile_Safety\<close>: whatever the world does, a pass stays within its replication sets and
    promotes only when it is due. \<open>Reconcile_Labels\<close>: the labels after a pass.
    \<open>Failover_Timer\<close>: the failure timer over sequences of passes (an inductive relation) and the
    growth of the epochs that passes record. \<open>Reconcile_Progress\<close>: passes return, and with a working
    network they resolve several masters and replace a lost one. \<open>Reconcile_All\<close>: all sets, failed
    listings, sets with one master.
  \<^item> \<open>Probe_Pool\<close> (\<^verbatim>\<open>probe\<close>): the goroutines of the parallel probe as a step relation with free
    interleaving. Shown: at most \<open>limit\<close> goroutines probe at a time, the pool cannot get stuck before
    it is done, and every finished run has the result of asking the Pods one after the other,
    which is how \<open>Reconcile\<close> defines \<open>probe\<close>.
  \<^item> \<open>Run_Loop\<close> (\<^verbatim>\<open>New\<close>, \<^verbatim>\<open>Run\<close>, \<^verbatim>\<open>Ready\<close>), \<open>Process\<close> (\<^verbatim>\<open>cmd/main.go\<close>, \<^verbatim>\<open>leader.go\<close>): the controller's
    state, its loop over ticks, readiness, and the process from its environment to its end.
    Shown: what readiness says about the last pass, and that every promotion by a process,
    whatever it meets, is justified by the log of this very run, the list of the turns that each set
    has had; processes that share a lease act one at a time if the election
    gives the lease to one at a time.
  \<^item> \<open>Go_Duration\<close> and \<open>Tool_Client\<close>: \<^verbatim>\<open>time.ParseDuration\<close>, and the Redis client that both tools carry.
  \<^item> \<open>Failover_Probe\<close>, \<open>Failover_Probe_Props\<close> (\<^verbatim>\<open>tools/failover-probe/main.go\<close>): one tick, the main loop,
    its statistics and its log. Shown: every tick is counted once, an outage is measured from the
    first failure to the next success, the search for keys ends within its limit with the keys that
    the server sent.
  \<^item> \<open>Loader_Data\<close>, \<open>Loader_Gen\<close>, \<open>Data_Loader\<close> (\<^verbatim>\<open>tools/data-loader/main.go\<close>): random values and JSON, the
    generators, and batches, connection and main loop. \<open>Loader_Keys\<close> shows the families of
    generated keys and how few of them the probe's sample keys can meet, \<open>Loader_Json\<close> that JSON
    strings can be read back, \<open>Data_Loader_Props\<close> what a flush sends and reads and the
    nil-pointer panic after a failed redial. The decoders of the tools are textual copies of the
    controller's, and their definitions are the controller's under another name.
  \<^item> \<open>Scenarios\<close>, \<open>Scenarios_Run\<close>, \<open>Scenarios_Tools\<close>: concrete worlds in which the theorems are applied.

  \<^bold>\<open>Bounds.\<close> Loops over slices are structural recursion, and the decoder terminates because every
  call consumes a line of its input. The loops of \<^verbatim>\<open>Run\<close> and of the tools, which go on until a
  signal, recurse over the list of the ticks and signals they receive. Only \<^verbatim>\<open>scanKeys\<close> has
  fuel, the number of \<^verbatim>\<open>SCAN\<close> commands: as many as the keys asked for are enough when every page
  brings a key, and a server that sends empty pages for ever keeps the program in the loop. The panics of
  \<^verbatim>\<open>make\<close> are those of a 64-bit Linux build (48-bit address space).

  \<^bold>\<open>Where the code differs from its documents.\<close> The README leaves several masters alone unless exactly
  one is labelled, and sends \<^verbatim>\<open>REPLICAOF\<close> to replicas that do not follow the only master; the code
  demotes all masters but one, and leaves such replicas as they are. The comment in
  \<^verbatim>\<open>config.go\<close> calls the epochs monotonically increasing, which after a restart needs the last
  epoch patch to have been accepted. The loader's category keys have a page that its comment does not
  mention. The theorems state what the code does.

  \<^bold>\<open>Not modelled.\<close> The log output of the controller and the loader, \<^verbatim>\<open>newLogger\<close>, and the wording of error
  messages; client-go (with the election itself), the network and the servers beyond the
  interface above, and so the wrappers \<^verbatim>\<open>kube.Client\<close> and \<^verbatim>\<open>kube.New\<close> around client-go; the shutdown of the
  health server; the mutex of the controller, whose sections are single updates here; the interfaces
  \<^verbatim>\<open>Conn\<close> and \<^verbatim>\<open>Dialer\<close>, which have one implementation; the decimal text of floating-point
  numbers in the loader's JSON, a parameter; the wrap-around of the loader's index, which would
  take \<open>2\<^sup>63\<close> keys; deferred calls of the tools when they panic.
\<close>

end
